(* ===== verification/Prelude.thy ===== *)
theory Prelude
  imports Main
begin

text \<open>
  Shared vocabulary of the development: Python strings as lists of code points, string
  literals, and the collections of rules the component theories add to.

  A Python \<open>str\<close> is a sequence of Unicode code points, so it is modelled as a list of
  naturals (\<open>pystr\<close>); HOL's own \<open>string\<close> would only hold bytes. Literals of the source
  are written \<open>lit ''...''\<close>. Names that are fixed text of the program (error codes, field
  names of a report) are ordinary \<open>string\<close>s.
\<close>

section \<open>Rule collections\<close>

named_theorems lit_eval "rules that evaluate string literals to code points"
named_theorems scan_bounds "bounds of scanning functions"

section \<open>Strings\<close>

type_synonym pychar = nat
type_synonym pystr = "pychar list"

text \<open>A literal of the source text (ASCII).\<close>

definition lit :: "string \<Rightarrow> pystr" where
  "lit s = map of_char s"

lemma lit_Nil [simp]: "lit [] = []"
  by (simp add: lit_def)

lemma lit_Cons [lit_eval]: "lit (c # cs) = of_char c # lit cs"
  by (simp add: lit_def)

lemma length_lit [simp]: "length (lit s) = length s"
  by (simp add: lit_def)

lemma lit_inject [simp]: "lit s = lit t \<longleftrightarrow> s = t"
  by (simp add: lit_def inj_map_eq_map inj_on_def)

section \<open>Lists\<close>

lemma find_Some_least:
  assumes "List.find P [a..<b] = Some i"
  shows "P i \<and> a \<le> i \<and> i < b \<and> (\<forall>j. a \<le> j \<and> j < i \<longrightarrow> \<not> P j)"
proof -
  from assms obtain k where k: "k < length [a..<b]" "P ([a..<b] ! k)" "i = [a..<b] ! k"
    and below: "\<And>j. j < k \<Longrightarrow> \<not> P ([a..<b] ! j)"
    by (auto simp: find_Some_iff)
  have i: "i = a + k" using k by simp
  have "\<not> P j" if "a \<le> j" "j < i" for j
    using below [of "j - a"] that k i by simp
  with k i show ?thesis by auto
qed

lemma find_None_upt: "List.find P [a..<b] = None \<longleftrightarrow> (\<forall>i. a \<le> i \<and> i < b \<longrightarrow> \<not> P i)"
  by (auto simp: find_None_iff)

lemma find_rev_Some_greatest:
  assumes "List.find P (rev [a..<b]) = Some i"
  shows "P i \<and> a \<le> i \<and> i < b \<and> (\<forall>j. i < j \<and> j < b \<longrightarrow> \<not> P j)"
proof -
  from assms obtain k where k: "k < length (rev [a..<b])" "P (rev [a..<b] ! k)"
      "i = rev [a..<b] ! k"
    and below: "\<And>j. j < k \<Longrightarrow> \<not> P (rev [a..<b] ! j)"
    by (auto simp: find_Some_iff)
  have i: "i = b - Suc k" "k < b - a" using k by (simp_all add: rev_nth)
  have "\<not> P j" if "i < j" "j < b" for j
    using below [of "b - Suc j"] that k i by (simp add: rev_nth)
  with k i show ?thesis by auto
qed

lemma find_rev_None_upt: "List.find P (rev [a..<b]) = None \<longleftrightarrow> (\<forall>i. a \<le> i \<and> i < b \<longrightarrow> \<not> P i)"
  by (auto simp: find_None_iff)

lemma singleton_list:
  assumes "distinct xs" "set xs = {a}"
  shows "xs = [a]"
proof (cases xs)
  case (Cons x ys)
  with assms show ?thesis by (cases ys) auto
qed (use assms in simp)

lemma upt_split: "a \<le> b \<Longrightarrow> b \<le> c \<Longrightarrow> [a..<c] = [a..<b] @ [b..<c]"
  by (metis le_add_diff_inverse upt_add_eq_append)

lemma take_drop_nth_split:
  "i \<le> j \<Longrightarrow> j \<le> length t \<Longrightarrow> take (j - i) (drop i t) @ drop j t = drop i t"
  by (metis append_take_drop_id drop_drop le_add_diff_inverse2)

lemma concat_map_append: "concat (map f (xs @ ys)) = concat (map f xs) @ concat (map f ys)"
  by simp

end
