(* ===== verification/PyText.thy ===== *)
theory PyText
  imports Prelude
begin

text \<open>
  The operations of Python's \<open>str\<close> that the source uses, on \<open>pystr\<close>: slices, \<open>find\<close> and
  \<open>rfind\<close> with bounds, \<open>startswith\<close> at an index, \<open>isspace\<close>, \<open>split\<close>, \<open>removeprefix\<close>,
  \<open>str(int)\<close>. \<open>find\<close> and \<open>rfind\<close> return \<open>None\<close> where Python returns \<open>-1\<close>.

  The Unicode character database and the other tables of the interpreter (which characters
  are alphanumeric, printable or decimal digits beyond ASCII, NFKC normalisation, the named
  character references of HTML) are data of the Python runtime; they are the fields of the
  record \<open>pyrt\<close>, an argument of every definition that consults them. What they say about
  ASCII is fixed here.
\<close>

section \<open>Characters\<close>

abbreviation "c_tab \<equiv> (9 :: pychar)"
abbreviation "c_nl \<equiv> (10 :: pychar)"
abbreviation "c_cr \<equiv> (13 :: pychar)"
abbreviation "c_space \<equiv> (32 :: pychar)"
abbreviation "c_dquote \<equiv> (34 :: pychar)"
abbreviation "c_hash \<equiv> (35 :: pychar)"
abbreviation "c_percent \<equiv> (37 :: pychar)"
abbreviation "c_amp \<equiv> (38 :: pychar)"
abbreviation "c_squote \<equiv> (39 :: pychar)"
abbreviation "c_lpar \<equiv> (40 :: pychar)"
abbreviation "c_rpar \<equiv> (41 :: pychar)"
abbreviation "c_star \<equiv> (42 :: pychar)"
abbreviation "c_plus \<equiv> (43 :: pychar)"
abbreviation "c_comma \<equiv> (44 :: pychar)"
abbreviation "c_dash \<equiv> (45 :: pychar)"
abbreviation "c_dot \<equiv> (46 :: pychar)"
abbreviation "c_slash \<equiv> (47 :: pychar)"
abbreviation "c_colon \<equiv> (58 :: pychar)"
abbreviation "c_semi \<equiv> (59 :: pychar)"
abbreviation "c_lt \<equiv> (60 :: pychar)"
abbreviation "c_eq \<equiv> (61 :: pychar)"
abbreviation "c_gt \<equiv> (62 :: pychar)"
abbreviation "c_quest \<equiv> (63 :: pychar)"
abbreviation "c_at \<equiv> (64 :: pychar)"
abbreviation "c_lbrack \<equiv> (91 :: pychar)"
abbreviation "c_backslash \<equiv> (92 :: pychar)"
abbreviation "c_rbrack \<equiv> (93 :: pychar)"
abbreviation "c_under \<equiv> (95 :: pychar)"
abbreviation "c_lbrace \<equiv> (123 :: pychar)"
abbreviation "c_rbrace \<equiv> (125 :: pychar)"

definition is_ascii :: "pychar \<Rightarrow> bool" where
  "is_ascii c \<longleftrightarrow> c < 128"

definition is_adigit :: "pychar \<Rightarrow> bool" where
  "is_adigit c \<longleftrightarrow> 48 \<le> c \<and> c \<le> 57"

definition is_aupper :: "pychar \<Rightarrow> bool" where
  "is_aupper c \<longleftrightarrow> 65 \<le> c \<and> c \<le> 90"

definition is_alower :: "pychar \<Rightarrow> bool" where
  "is_alower c \<longleftrightarrow> 97 \<le> c \<and> c \<le> 122"

definition is_aalpha :: "pychar \<Rightarrow> bool" where
  "is_aalpha c \<longleftrightarrow> is_aupper c \<or> is_alower c"

definition is_aalnum :: "pychar \<Rightarrow> bool" where
  "is_aalnum c \<longleftrightarrow> is_aalpha c \<or> is_adigit c"

definition is_hex :: "pychar \<Rightarrow> bool" where
  "is_hex c \<longleftrightarrow> is_adigit c \<or> (65 \<le> c \<and> c \<le> 70) \<or> (97 \<le> c \<and> c \<le> 102)"

lemmas ascii_class_defs [lit_eval] =
  is_ascii_def is_adigit_def is_aupper_def is_alower_def is_aalpha_def is_aalnum_def is_hex_def

text \<open>\<open>str.isspace\<close>, which is also \<open>\s\<close> of a \<open>str\<close> pattern: the complete list.\<close>

definition is_space :: "pychar \<Rightarrow> bool" where
  "is_space c \<longleftrightarrow> (9 \<le> c \<and> c \<le> 13) \<or> (28 \<le> c \<and> c \<le> 32) \<or> c = 133 \<or> c = 160 \<or> c = 5760
     \<or> (8192 \<le> c \<and> c \<le> 8202) \<or> c = 8232 \<or> c = 8233 \<or> c = 8239 \<or> c = 8287 \<or> c = 12288"

section \<open>Tables of the Python runtime\<close>

record pyrt =
  rt_alnum :: "pychar \<Rightarrow> bool"           \<comment> \<open>\<open>str.isalnum\<close> beyond ASCII\<close>
  rt_digit :: "pychar \<Rightarrow> nat option"     \<comment> \<open>decimal digits beyond ASCII (\<open>\d\<close>), with their value\<close>
  rt_printable :: "pychar \<Rightarrow> bool"       \<comment> \<open>\<open>str.isprintable\<close> beyond ASCII\<close>
  rt_nfkc :: "pystr \<Rightarrow> pystr"            \<comment> \<open>\<open>unicodedata.normalize("NFKC", _)\<close> of non-ASCII text\<close>
  rt_entity :: "pystr \<Rightarrow> pystr option"   \<comment> \<open>\<open>html.entities.html5\<close>\<close>
  rt_float :: "pystr \<Rightarrow> pystr"           \<comment> \<open>\<open>repr(float(_))\<close> of a JSON number\<close>
  rt_lower :: "pychar \<Rightarrow> pystr"           \<comment> \<open>\<open>str.lower\<close> of a character beyond ASCII\<close>
  rt_recursion :: nat                    \<comment> \<open>nesting at which the JSON scanner raises \<open>RecursionError\<close>\<close>
  rt_stack :: nat                        \<comment> \<open>nesting of calls that still fits the interpreter\<close>

text \<open>A runtime whose tables know no character beyond ASCII, for examples.\<close>

definition ascii_runtime :: pyrt where
  "ascii_runtime = \<lparr>rt_alnum = (\<lambda>_. False), rt_digit = (\<lambda>_. None), rt_printable = (\<lambda>_. False),
     rt_nfkc = id, rt_entity = (\<lambda>_. None), rt_float = id, rt_lower = (\<lambda>c. [c]), rt_recursion = 1000, rt_stack = 300\<rparr>"

text \<open>\<open>\w\<close>: alphanumeric or underscore.\<close>

definition is_word :: "pyrt \<Rightarrow> pychar \<Rightarrow> bool" where
  "is_word R c \<longleftrightarrow> (if is_ascii c then is_aalnum c \<or> c = c_under else rt_alnum R c)"

definition is_digit :: "pyrt \<Rightarrow> pychar \<Rightarrow> bool" where
  "is_digit R c \<longleftrightarrow> (if is_ascii c then is_adigit c else rt_digit R c \<noteq> None)"

text \<open>\<open>int(ds)\<close> of a non-empty run of decimal digits of any script.\<close>

definition digit_val :: "pyrt \<Rightarrow> pychar \<Rightarrow> nat" where
  "digit_val R c = (if is_ascii c then c - 48 else case rt_digit R c of None \<Rightarrow> 0 | Some d \<Rightarrow> d)"

definition int_value :: "pyrt \<Rightarrow> pystr \<Rightarrow> nat" where
  "int_value R ds = foldl (\<lambda>n c. 10 * n + digit_val R c) 0 ds"

definition is_printable :: "pyrt \<Rightarrow> pychar \<Rightarrow> bool" where
  "is_printable R c \<longleftrightarrow> (if is_ascii c then 32 \<le> c \<and> c < 127 else rt_printable R c)"

text \<open>\<open>str.lower\<close>\<close>

definition py_lower :: "pyrt \<Rightarrow> pystr \<Rightarrow> pystr" where
  "py_lower R t = concat (map (\<lambda>c. if is_ascii c then [if is_aupper c then c + 32 else c] else rt_lower R c) t)"

lemma is_word_ascii [simp]: "is_ascii c \<Longrightarrow> is_word R c \<longleftrightarrow> is_aalnum c \<or> c = c_under"
  by (simp add: is_word_def)

section \<open>Slices and searches\<close>

definition slice :: "'a list \<Rightarrow> nat \<Rightarrow> nat \<Rightarrow> 'a list" where
  "slice t a b = take (b - a) (drop a t)"

text \<open>\<open>t.startswith(p, i)\<close>.\<close>

definition starts_at :: "pystr \<Rightarrow> pystr \<Rightarrow> nat \<Rightarrow> bool" where
  "starts_at t p i \<longleftrightarrow> i \<le> length t \<and> take (length p) (drop i t) = p"

text \<open>\<open>t.find(p, a, b)\<close> and \<open>t.rfind(p, a, b)\<close> for a non-empty \<open>p\<close>.\<close>

definition py_find :: "pystr \<Rightarrow> pystr \<Rightarrow> nat \<Rightarrow> nat \<Rightarrow> nat option" where
  "py_find t p a b = List.find (starts_at t p) [a ..< Suc (min b (length t)) - length p]"

definition py_rfind :: "pystr \<Rightarrow> pystr \<Rightarrow> nat \<Rightarrow> nat \<Rightarrow> nat option" where
  "py_rfind t p a b = List.find (starts_at t p) (rev [a ..< Suc (min b (length t)) - length p])"

text \<open>\<open>p in t\<close>.\<close>

definition py_in :: "pystr \<Rightarrow> pystr \<Rightarrow> bool" where
  "py_in p t \<longleftrightarrow> py_find t p 0 (length t) \<noteq> None"

text \<open>The index a loop \<open>while i < len(t) and p(t[i]): i += 1\<close> ends at.\<close>

definition run_end :: "('a \<Rightarrow> bool) \<Rightarrow> 'a list \<Rightarrow> nat \<Rightarrow> nat" where
  "run_end p t i = i + length (takeWhile p (drop i t))"

lemma starts_at_single [simp]: "starts_at t [c] i \<longleftrightarrow> i < length t \<and> t ! i = c"
proof (cases "i < length t")
  case True
  then show ?thesis by (simp add: starts_at_def Cons_nth_drop_Suc [symmetric])
next
  case False
  then show ?thesis by (auto simp: starts_at_def)
qed

lemma starts_at_bound:
  assumes "starts_at t p i"
  shows "i + length p \<le> length t"
proof -
  from assms have "length (take (length p) (drop i t)) = length p" and "i \<le> length t"
    by (simp_all add: starts_at_def)
  then show ?thesis by simp
qed

lemma py_find_SomeD [scan_bounds]:
  assumes "py_find t p a b = Some i"
  shows "starts_at t p i" "a \<le> i" "i + length p \<le> length t" "i + length p \<le> b \<or> p = []"
  using find_Some_least [OF assms [unfolded py_find_def]] starts_at_bound [of t p i]
  by (auto simp: min_def split: if_splits)

lemma py_find_least:
  assumes "py_find t p a b = Some i" "a \<le> j" "j < i"
  shows "\<not> starts_at t p j"
  using find_Some_least [OF assms(1) [unfolded py_find_def]] assms(2,3) by auto

lemma starts_at_found: "starts_at t p i \<Longrightarrow> a \<le> i \<Longrightarrow> p \<noteq> [] \<Longrightarrow> \<exists>k. py_find t p a (length t) = Some k \<and> k \<le> i"
proof -
  assume s: "starts_at t p i" "a \<le> i" "p \<noteq> []"
  show ?thesis
  proof (cases "py_find t p a (length t)")
    case None
    then have "\<not> starts_at t p i" using s starts_at_bound [OF s(1)]
      by (auto simp: py_find_def find_None_upt)
    with s show ?thesis by simp
  next
    case (Some k)
    with py_find_least [OF Some s(2)] s(1) show ?thesis by fastforce
  qed
qed

lemma py_find_char:
  "py_find t [c] a b = Some i \<longleftrightarrow>
     a \<le> i \<and> i < b \<and> i < length t \<and> t ! i = c \<and> (\<forall>j. a \<le> j \<and> j < i \<longrightarrow> t ! j \<noteq> c)"
  (is "?l \<longleftrightarrow> ?r")
proof
  assume ?l
  then show ?r
    using py_find_SomeD [of t "[c]" a b i] py_find_least [of t "[c]" a b i] by auto
next
  assume r: ?r
  show ?l
  proof (cases "py_find t [c] a b")
    case None
    with r show ?thesis
      by (auto simp: py_find_def find_None_upt min_def split: if_splits)
  next
    case (Some k)
    with r show ?thesis
      using py_find_SomeD [OF Some] py_find_least [OF Some]
      by (metis (no_types, opaque_lifting) linorder_neqE_nat starts_at_single)
  qed
qed

lemma py_find_char_None:
  "py_find t [c] a b = None \<longleftrightarrow> (\<forall>i. a \<le> i \<and> i < b \<and> i < length t \<longrightarrow> t ! i \<noteq> c)"
  by (auto simp: py_find_def find_None_upt min_def split: if_splits)

lemma py_rfind_SomeD [scan_bounds]:
  assumes "py_rfind t p a b = Some i"
  shows "starts_at t p i" "a \<le> i" "i + length p \<le> length t" "i + length p \<le> b \<or> p = []"
  using find_rev_Some_greatest [OF assms [unfolded py_rfind_def]] starts_at_bound [of t p i]
  by (auto simp: min_def split: if_splits)

lemma py_rfind_char:
  "py_rfind t [c] a b = Some i \<longleftrightarrow>
     a \<le> i \<and> i < b \<and> i < length t \<and> t ! i = c \<and>
     (\<forall>j. i < j \<and> j < b \<and> j < length t \<longrightarrow> t ! j \<noteq> c)"
  (is "?l \<longleftrightarrow> ?r")
proof
  assume l: ?l
  then show ?r
    using py_rfind_SomeD [OF l] find_rev_Some_greatest [OF l [unfolded py_rfind_def]] by auto
next
  assume r: ?r
  show ?l
  proof (cases "py_rfind t [c] a b")
    case None
    with r show ?thesis
      by (auto simp: py_rfind_def find_rev_None_upt min_def split: if_splits)
  next
    case (Some k)
    from py_rfind_SomeD [OF Some] have k: "a \<le> k" "k < b" "k < length t" "t ! k = c"
      by auto
    have "\<not> k < i"
      using find_rev_Some_greatest [OF Some [unfolded py_rfind_def]] r by auto
    moreover have "\<not> i < k" using r k by blast
    ultimately have "k = i" by simp
    with Some show ?thesis by simp
  qed
qed

lemma py_rfind_char_None:
  "py_rfind t [c] a b = None \<longleftrightarrow> (\<forall>i. a \<le> i \<and> i < b \<and> i < length t \<longrightarrow> t ! i \<noteq> c)"
  by (auto simp: py_rfind_def find_rev_None_upt min_def split: if_splits)

lemma py_in_char: "py_in [c] t \<longleftrightarrow> c \<in> set t"
  unfolding py_in_def py_find_char_None by (auto simp: in_set_conv_nth)

section \<open>Runs\<close>

lemma run_end_ge [scan_bounds, simp]: "i \<le> run_end p t i"
  by (simp add: run_end_def)

lemma run_end_le [scan_bounds]: "i \<le> length t \<Longrightarrow> run_end p t i \<le> length t"
  using length_takeWhile_le [of p "drop i t"] by (simp add: run_end_def)

lemma run_end_holds:
  assumes "i \<le> j" "j < run_end p t i"
  shows "p (t ! j)"
proof -
  let ?w = "takeWhile p (drop i t)"
  have j: "j - i < length ?w" using assms by (simp add: run_end_def)
  then have "p (?w ! (j - i))" by (meson nth_mem set_takeWhileD)
  moreover have "?w ! (j - i) = drop i t ! (j - i)" using j by (rule takeWhile_nth)
  moreover have "i \<le> length t" "i + (j - i) = j"
    using j assms(1) length_takeWhile_le [of p "drop i t"] by auto
  ultimately show ?thesis by simp
qed

lemma run_end_stop: "run_end p t i < length t \<Longrightarrow> \<not> p (t ! run_end p t i)"
  using nth_length_takeWhile [of p "drop i t"] by (simp add: run_end_def)

lemma run_end_step: "i < length t \<Longrightarrow> p (t ! i) \<Longrightarrow> run_end p t i = run_end p t (Suc i)"
  by (simp add: run_end_def Cons_nth_drop_Suc [symmetric])

lemma run_end_here: "i < length t \<Longrightarrow> \<not> p (t ! i) \<Longrightarrow> run_end p t i = i"
  by (simp add: run_end_def Cons_nth_drop_Suc [symmetric])

lemma run_end_past: "length t \<le> i \<Longrightarrow> run_end p t i = i"
  by (simp add: run_end_def)

lemma run_end_unfold:
  "run_end p t i = (if i < length t \<and> p (t ! i) then run_end p t (Suc i) else i)"
  by (metis linorder_not_less run_end_here run_end_past run_end_step)

lemma run_end_eqI:
  assumes "i \<le> e" "e \<le> length t" "\<And>j. i \<le> j \<Longrightarrow> j < e \<Longrightarrow> p (t ! j)"
    "e < length t \<Longrightarrow> \<not> p (t ! e)"
  shows "run_end p t i = e"
  using assms
  by (metis linorder_neqE_nat nat_less_le run_end_ge run_end_holds run_end_le run_end_stop
      order.trans order_less_le_trans)

lemma length_slice [simp]: "length (slice t a b) = min (b - a) (length t - a)"
  by (simp add: slice_def)

lemma slice_nth: "i < b - a \<Longrightarrow> a + i < length t \<Longrightarrow> slice t a b ! i = t ! (a + i)"
  by (simp add: slice_def)

lemma slice_all [simp]: "slice t 0 (length t) = t"
  by (simp add: slice_def)

lemma slice_to_end: "slice t a (length t) = drop a t"
  by (simp add: slice_def)

lemma set_slice_subset: "set (slice t a b) \<subseteq> set t"
  by (metis slice_def set_drop_subset set_take_subset subset_trans)

lemma slice_append: "a \<le> b \<Longrightarrow> b \<le> c \<Longrightarrow> slice t a b @ slice t b c = slice t a c"
proof -
  assume "a \<le> b" "b \<le> c"
  then obtain m n where "b = a + m" "c = a + m + n" by (auto simp: le_iff_add)
  then show ?thesis by (simp add: slice_def add.commute [of a] take_add)
qed

section \<open>Other string operations\<close>

definition py_removeprefix :: "pystr \<Rightarrow> pystr \<Rightarrow> pystr" where
  "py_removeprefix t p = (if starts_at t p 0 then drop (length p) t else t)"

definition py_removesuffix :: "pystr \<Rightarrow> pystr \<Rightarrow> pystr" where
  "py_removesuffix t p =
     (if p \<noteq> [] \<and> length p \<le> length t \<and> drop (length t - length p) t = p
      then take (length t - length p) t else t)"

text \<open>\<open>sep.join(parts)\<close>.\<close>

fun py_join :: "pystr \<Rightarrow> pystr list \<Rightarrow> pystr" where
  "py_join sep [] = []"
| "py_join sep [p] = p"
| "py_join sep (p # q # ps) = p @ sep @ py_join sep (q # ps)"

text \<open>\<open>t.split(sep)\<close> for a non-empty separator.\<close>

function py_split_from :: "pystr \<Rightarrow> pystr \<Rightarrow> nat \<Rightarrow> pystr list" where
  "py_split_from t sep i =
     (case py_find t sep i (length t) of
        None \<Rightarrow> [drop i t]
      | Some j \<Rightarrow> (if sep = [] then [drop i t]
                  else slice t i j # py_split_from t sep (j + length sep)))"
  by pat_completeness auto
termination
proof (relation "measure (\<lambda>(t, sep, i). length t - i)")
  fix t sep :: pystr and i j :: nat
  assume f: "py_find t sep i (length t) = Some j" and "sep \<noteq> []"
  then have "0 < length sep" by simp
  with py_find_SomeD [OF f] have "length t - (j + length sep) < length t - i" by linarith
  then show "((t, sep, j + length sep), t, sep, i) \<in> measure (\<lambda>(t, sep, i). length t - i)"
    by simp
qed simp

declare py_split_from.simps [simp del]

definition py_split :: "pystr \<Rightarrow> pystr \<Rightarrow> pystr list" where
  "py_split t sep = py_split_from t sep 0"

text \<open>\<open>str(n)\<close> of a non-negative integer, and of an integer.\<close>

fun dec_digits :: "nat \<Rightarrow> pystr" where
  "dec_digits n = (if n < 10 then [48 + n] else dec_digits (n div 10) @ [48 + n mod 10])"

declare dec_digits.simps [simp del]

definition py_str_int :: "int \<Rightarrow> pystr" where
  "py_str_int i = (if i < 0 then c_dash # dec_digits (nat (- i)) else dec_digits (nat i))"

text \<open>\<open>int(digits, 16)\<close> and \<open>int(digits)\<close> of ASCII digits.\<close>

definition hex_val :: "pychar \<Rightarrow> nat" where
  "hex_val c = (if is_adigit c then c - 48 else if 97 \<le> c then c - 87 else c - 55)"

definition hex_value :: "pystr \<Rightarrow> nat" where
  "hex_value ds = foldl (\<lambda>n c. 16 * n + hex_val c) 0 ds"

definition dec_value :: "pystr \<Rightarrow> nat" where
  "dec_value ds = foldl (\<lambda>n c. 10 * n + (c - 48)) 0 ds"

text \<open>\<open>s.encode()\<close> as UTF-8; \<open>None\<close> is the \<open>UnicodeEncodeError\<close> of a lone surrogate.\<close>

definition utf8_char :: "pychar \<Rightarrow> nat list option" where
  "utf8_char c =
     (if c < 128 then Some [c]
      else if c < 2048 then Some [192 + c div 64, 128 + c mod 64]
      else if 55296 \<le> c \<and> c \<le> 57343 then None
      else if c < 65536 then Some [224 + c div 4096, 128 + c div 64 mod 64, 128 + c mod 64]
      else Some [240 + c div 262144, 128 + c div 4096 mod 64, 128 + c div 64 mod 64, 128 + c mod 64])"

fun utf8_encode :: "pystr \<Rightarrow> nat list option" where
  "utf8_encode [] = Some []"
| "utf8_encode (c # cs) =
     (case utf8_char c of None \<Rightarrow> None | Some b \<Rightarrow> map_option ((@) b) (utf8_encode cs))"

lemma dec_digits_digits: "set (dec_digits n) \<subseteq> {48..57}"
proof (induction n rule: dec_digits.induct)
  case (1 n)
  then show ?case by (auto simp: dec_digits.simps [of n])
qed

lemma dec_value_snoc: "dec_value (ds @ [d]) = 10 * dec_value ds + (d - 48)"
  by (simp add: dec_value_def)

lemma dec_value_dec_digits [simp]: "dec_value (dec_digits n) = n"
proof (induction n rule: dec_digits.induct)
  case (1 n)
  show ?case
  proof (cases "n < 10")
    case True
    then show ?thesis by (simp add: dec_digits.simps [of n] dec_value_def)
  next
    case False
    with 1 show ?thesis by (simp add: dec_digits.simps [of n] dec_value_snoc)
  qed
qed

lemma dec_digits_nonempty [simp]: "dec_digits n \<noteq> []"
  by (simp add: dec_digits.simps [of n])

end
