(* ===== verification/PyRegex.thy ===== *)
theory PyRegex
  imports PyText
begin

text \<open>
  The part of Python's \<open>re\<close> that the source uses: a backtracking matcher over \<open>pystr\<close>.

  \<open>rx_match r t i c\<close> lists, in the order in which the backtracking engine would try them,
  all the ways the pattern \<open>r\<close> can match the text \<open>t\<close> from position \<open>i\<close>, each as its end
  position and its captured groups. The engine's answer is the first entry (\<open>match\<close>), the
  first entry at the least starting position (\<open>search\<close>), or the first entry that ends at
  the end of the text (\<open>fullmatch\<close>). Alternation tries its left side first; a greedy
  repetition tries one more iteration before it stops, a lazy one the other way round.

  An \<open>endpos\<close> argument of \<open>search\<close> makes the engine see only the text before it, so callers
  pass \<open>take endpos t\<close>; a \<open>pos\<close> argument only moves the start, so look-behind and \<open>\b\<close>
  still see what comes before.
\<close>

section \<open>Patterns\<close>

datatype rx =
    RxEps
  | RxSet "pychar \<Rightarrow> bool"
  | RxSeq rx rx
  | RxAlt rx rx
  | RxRep bool rx nat "nat option"      \<comment> \<open>greedy?, body, minimum, maximum\<close>
  | RxGroup nat rx
  | RxAhead rx                          \<comment> \<open>\<open>(?=...)\<close>\<close>
  | RxNotBehind "(pychar \<Rightarrow> bool) list" \<comment> \<open>\<open>(?<!...)\<close>, one class per character\<close>
  | RxWordBound "pychar \<Rightarrow> bool"        \<comment> \<open>\<open>\b\<close>, for the given \<open>\w\<close>\<close>
  | RxEnd                               \<comment> \<open>\<open>$\<close> without \<open>MULTILINE\<close>\<close>
  | RxStart                             \<comment> \<open>\<open>^\<close> without \<open>MULTILINE\<close>\<close>

type_synonym rxcaps = "nat \<Rightarrow> (nat \<times> nat) option"

text \<open>
  A repetition of a body \<open>m\<close> in a text of length \<open>n\<close>. Mandatory iterations are counted by
  \<open>lo\<close>; an optional iteration must advance, as in the engine, which stops repeating a body
  that matched the empty string.
\<close>

function rx_iter ::
  "(nat \<Rightarrow> rxcaps \<Rightarrow> (nat \<times> rxcaps) list) \<Rightarrow> bool \<Rightarrow> nat \<Rightarrow> nat \<Rightarrow> nat option \<Rightarrow> nat \<Rightarrow> rxcaps
    \<Rightarrow> (nat \<times> rxcaps) list" where
  "rx_iter m greedy n lo hi i c =
     (let more =
        (if hi = Some 0 then []
         else concat (map (\<lambda>(j, c').
                if i \<le> j \<and> j \<le> n \<and> (0 < lo \<or> i < j)
                then rx_iter m greedy n (lo - 1) (map_option (\<lambda>h. h - 1) hi) j c' else []) (m i c)));
        stop = (if lo = 0 then [(i, c)] else [])
      in if greedy then more @ stop else stop @ more)"
  by pat_completeness auto
termination
  by (relation "measure (\<lambda>(m, greedy, n, lo, hi, i, c). lo + (n - i))") auto

declare rx_iter.simps [simp del]

definition rx_bound_at :: "(pychar \<Rightarrow> bool) \<Rightarrow> pystr \<Rightarrow> nat \<Rightarrow> bool" where
  "rx_bound_at w t i \<longleftrightarrow>
     (0 < i \<and> i \<le> length t \<and> w (t ! (i - 1))) \<noteq> (i < length t \<and> w (t ! i))"

primrec rx_match :: "rx \<Rightarrow> pystr \<Rightarrow> nat \<Rightarrow> rxcaps \<Rightarrow> (nat \<times> rxcaps) list" where
  "rx_match RxEps t i c = [(i, c)]"
| "rx_match (RxSet p) t i c = (if i < length t \<and> p (t ! i) then [(Suc i, c)] else [])"
| "rx_match (RxSeq a b) t i c = concat (map (\<lambda>(j, c'). rx_match b t j c') (rx_match a t i c))"
| "rx_match (RxAlt a b) t i c = rx_match a t i c @ rx_match b t i c"
| "rx_match (RxRep greedy r lo hi) t i c = rx_iter (rx_match r t) greedy (length t) lo hi i c"
| "rx_match (RxGroup g r) t i c = map (\<lambda>(j, c'). (j, c'(g := Some (i, j)))) (rx_match r t i c)"
| "rx_match (RxAhead r) t i c = (case rx_match r t i c of [] \<Rightarrow> [] | (j, c') # _ \<Rightarrow> [(i, c')])"
| "rx_match (RxNotBehind p) t i c =
     (if length p \<le> i \<and> list_all2 (\<lambda>q x. q x) p (slice t (i - length p) i) then [] else [(i, c)])"
| "rx_match (RxWordBound w) t i c = (if rx_bound_at w t i then [(i, c)] else [])"
| "rx_match RxEnd t i c =
     (if i = length t \<or> (Suc i = length t \<and> t ! i = c_nl) then [(i, c)] else [])"
| "rx_match RxStart t i c = (if i = 0 then [(i, c)] else [])"

section \<open>Entry points\<close>

record rxm =
  m_start :: nat
  m_end :: nat
  m_caps :: rxcaps

definition rx_at :: "rx \<Rightarrow> pystr \<Rightarrow> nat \<Rightarrow> rxm option" where
  "rx_at r t i = (case rx_match r t i Map.empty of
      [] \<Rightarrow> None | (j, c) # _ \<Rightarrow> Some \<lparr>m_start = i, m_end = j, m_caps = c\<rparr>)"

text \<open>\<open>r.search(t, pos)\<close>\<close>

definition rx_search :: "rx \<Rightarrow> pystr \<Rightarrow> nat \<Rightarrow> rxm option" where
  "rx_search r t pos =
     (case List.find (\<lambda>i. rx_match r t i Map.empty \<noteq> []) [pos ..< Suc (length t)] of
        None \<Rightarrow> None | Some i \<Rightarrow> rx_at r t i)"

text \<open>\<open>r.search(t) is not None\<close>\<close>

definition rx_found :: "rx \<Rightarrow> pystr \<Rightarrow> bool" where
  "rx_found r t \<longleftrightarrow> rx_search r t 0 \<noteq> None"

text \<open>\<open>r.fullmatch(t)\<close>\<close>

definition rx_full :: "rx \<Rightarrow> pystr \<Rightarrow> rxm option" where
  "rx_full r t = (case List.find (\<lambda>(j, c). j = length t) (rx_match r t 0 Map.empty) of
      None \<Rightarrow> None | Some (j, c) \<Rightarrow> Some \<lparr>m_start = 0, m_end = j, m_caps = c\<rparr>)"

definition rx_fullmatches :: "rx \<Rightarrow> pystr \<Rightarrow> bool" where
  "rx_fullmatches r t \<longleftrightarrow> rx_full r t \<noteq> None"

text \<open>\<open>m.group(0)\<close> and \<open>m.group(g)\<close>\<close>

definition rx_text :: "pystr \<Rightarrow> rxm \<Rightarrow> pystr" where
  "rx_text t m = slice t (m_start m) (m_end m)"

definition rx_group :: "pystr \<Rightarrow> rxm \<Rightarrow> nat \<Rightarrow> pystr option" where
  "rx_group t m g = map_option (\<lambda>(a, b). slice t a b) (m_caps m g)"

text \<open>
  \<open>r.finditer(t, pos)\<close> and \<open>r.sub(f, t)\<close> for a pattern that never matches the empty string,
  which every pattern the source scans with is: the next search starts where the last match
  ended.
\<close>

function rx_iterate :: "rx \<Rightarrow> pystr \<Rightarrow> nat \<Rightarrow> rxm list" where
  "rx_iterate r t pos =
     (case rx_search r t pos of
        None \<Rightarrow> []
      | Some m \<Rightarrow> (if pos < m_end m \<and> pos < length t then m # rx_iterate r t (m_end m) else [m]))"
  by pat_completeness auto
termination
  by (relation "measure (\<lambda>(r, t, pos). length t - pos)") auto

declare rx_iterate.simps [simp del]

fun rx_replace :: "(rxm \<Rightarrow> pystr) \<Rightarrow> pystr \<Rightarrow> nat \<Rightarrow> rxm list \<Rightarrow> pystr" where
  "rx_replace f t pos [] = drop pos t"
| "rx_replace f t pos (m # ms) = slice t pos (m_start m) @ f m @ rx_replace f t (m_end m) ms"

definition rx_sub :: "rx \<Rightarrow> (rxm \<Rightarrow> pystr) \<Rightarrow> pystr \<Rightarrow> pystr" where
  "rx_sub r f t = rx_replace f t 0 (rx_iterate r t 0)"

section \<open>Pattern builders\<close>

definition rx_ch :: "pychar \<Rightarrow> rx" where
  "rx_ch x = RxSet (\<lambda>c. c = x)"

definition rx_any :: "pychar set \<Rightarrow> rx" where
  "rx_any S = RxSet (\<lambda>c. c \<in> S)"

text \<open>A literal, and a literal under \<open>IGNORECASE\<close>.\<close>

fun rx_lit :: "pystr \<Rightarrow> rx" where
  "rx_lit [] = RxEps"
| "rx_lit [x] = rx_ch x"
| "rx_lit (x # y # ys) = RxSeq (rx_ch x) (rx_lit (y # ys))"

text \<open>
  \<open>IGNORECASE\<close> of an ASCII letter: both cases, and the non-ASCII characters whose simple
  lower case, upper case or equivalence class holds it (dotted capital I and dotless i for
  \<open>i\<close>, long s for \<open>s\<close>, the Kelvin sign for \<open>k\<close>).
\<close>

definition ci_eq :: "pychar \<Rightarrow> pychar \<Rightarrow> bool" where
  "ci_eq x c \<longleftrightarrow> c = x
     \<or> (is_alower x \<and> c = x - 32)
     \<or> (is_aupper x \<and> c = x + 32)
     \<or> ((x = 105 \<or> x = 73) \<and> (c = 304 \<or> c = 305))
     \<or> ((x = 115 \<or> x = 83) \<and> c = 383)
     \<or> ((x = 107 \<or> x = 75) \<and> c = 8490)"

text \<open>\<open>[A-Za-z]\<close> under \<open>IGNORECASE\<close>.\<close>

definition ci_alpha :: "pychar \<Rightarrow> bool" where
  "ci_alpha c \<longleftrightarrow> is_aalpha c \<or> c = 304 \<or> c = 305 \<or> c = 383 \<or> c = 8490"

fun rx_ilit :: "pystr \<Rightarrow> rx" where
  "rx_ilit [] = RxEps"
| "rx_ilit [x] = RxSet (ci_eq x)"
| "rx_ilit (x # y # ys) = RxSeq (RxSet (ci_eq x)) (rx_ilit (y # ys))"

fun rx_seq :: "rx list \<Rightarrow> rx" where
  "rx_seq [] = RxEps"
| "rx_seq [r] = r"
| "rx_seq (r # s # rs) = RxSeq r (rx_seq (s # rs))"

fun rx_alts :: "rx list \<Rightarrow> rx" where
  "rx_alts [] = RxEps"
| "rx_alts [r] = r"
| "rx_alts (r # s # rs) = RxAlt r (rx_alts (s # rs))"

abbreviation rx_star :: "rx \<Rightarrow> rx" where "rx_star r \<equiv> RxRep True r 0 None"
abbreviation rx_plus :: "rx \<Rightarrow> rx" where "rx_plus r \<equiv> RxRep True r (Suc 0) None"
abbreviation rx_opt :: "rx \<Rightarrow> rx" where "rx_opt r \<equiv> RxRep True r 0 (Some 1)"
abbreviation rx_rep :: "rx \<Rightarrow> nat \<Rightarrow> nat \<Rightarrow> rx" where "rx_rep r lo hi \<equiv> RxRep True r lo (Some hi)"

section \<open>What a match looks like\<close>

text \<open>The length every match of a pattern has at least.\<close>

primrec rx_min :: "rx \<Rightarrow> nat" where
  "rx_min RxEps = 0"
| "rx_min (RxSet p) = 1"
| "rx_min (RxSeq a b) = rx_min a + rx_min b"
| "rx_min (RxAlt a b) = min (rx_min a) (rx_min b)"
| "rx_min (RxRep g r lo hi) = lo * rx_min r"
| "rx_min (RxGroup g r) = rx_min r"
| "rx_min (RxAhead r) = 0"
| "rx_min (RxNotBehind p) = 0"
| "rx_min (RxWordBound w) = 0"
| "rx_min RxEnd = 0"
| "rx_min RxStart = 0"

text \<open>Every character a match consumes satisfies \<open>P\<close>.\<close>

primrec rx_only :: "(pychar \<Rightarrow> bool) \<Rightarrow> rx \<Rightarrow> bool" where
  "rx_only P RxEps \<longleftrightarrow> True"
| "rx_only P (RxSet p) \<longleftrightarrow> (\<forall>c. p c \<longrightarrow> P c)"
| "rx_only P (RxSeq a b) \<longleftrightarrow> rx_only P a \<and> rx_only P b"
| "rx_only P (RxAlt a b) \<longleftrightarrow> rx_only P a \<and> rx_only P b"
| "rx_only P (RxRep g r lo hi) \<longleftrightarrow> rx_only P r"
| "rx_only P (RxGroup g r) \<longleftrightarrow> rx_only P r"
| "rx_only P (RxAhead r) \<longleftrightarrow> True"
| "rx_only P (RxNotBehind p) \<longleftrightarrow> True"
| "rx_only P (RxWordBound w) \<longleftrightarrow> True"
| "rx_only P RxEnd \<longleftrightarrow> True"
| "rx_only P RxStart \<longleftrightarrow> True"

lemma rx_iter_cases:
  assumes "(j, c') \<in> set (rx_iter m g n lo hi i c)"
  obtains (stop) "j = i" "c' = c" "lo = 0"
  | (more) k d where "(k, d) \<in> set (m i c)" "hi \<noteq> Some 0" "i \<le> k" "k \<le> n" "0 < lo \<or> i < k"
      "(j, c') \<in> set (rx_iter m g n (lo - 1) (map_option (\<lambda>h. h - 1) hi) k d)"
  using assms by (subst (asm) rx_iter.simps) (auto simp: Let_def split: if_splits)

lemma rx_iter_invariant:
  assumes "(j, c') \<in> set (rx_iter m g n lo hi i c)"
    and "\<And>i c j c'. I i c \<Longrightarrow> i \<le> n \<Longrightarrow> (j, c') \<in> set (m i c) \<Longrightarrow> I j c'"
    and "I i c" and "i \<le> n"
  shows "I j c'"
  using assms
proof (induction m g n lo hi i c rule: rx_iter.induct)
  case (1 m g n lo hi i c)
  from "1.prems"(1) show ?case
  proof (cases rule: rx_iter_cases)
    case stop
    with "1.prems" show ?thesis by simp
  next
    case (more k d)
    have "I k d" using "1.prems"(2) [OF "1.prems"(3,4) more(1)] .
    show ?thesis by (rule "1.IH") (use more "1.prems"(2) \<open>I k d\<close> in auto)
  qed
qed

lemma rx_iter_range:
  assumes "(j, c') \<in> set (rx_iter m g n lo hi i c)" and "i \<le> n"
  shows "i \<le> j \<and> j \<le> n"
  using assms
proof (induction m g n lo hi i c rule: rx_iter.induct)
  case (1 m g n lo hi i c)
  from "1.prems"(1) show ?case
  proof (cases rule: rx_iter_cases)
    case stop
    with "1.prems" show ?thesis by simp
  next
    case (more k d)
    have "k \<le> j \<and> j \<le> n" by (rule "1.IH") (use more in auto)
    with more show ?thesis by simp
  qed
qed

lemma rx_iter_min:
  assumes "(j, c') \<in> set (rx_iter m g n lo hi i c)"
    and "\<And>i c j c'. i \<le> n \<Longrightarrow> (j, c') \<in> set (m i c) \<Longrightarrow> i + k \<le> j" and "i \<le> n"
  shows "i + lo * k \<le> j"
  using assms
proof (induction m g n lo hi i c rule: rx_iter.induct)
  case (1 m g n lo hi i c)
  from "1.prems"(1) show ?case
  proof (cases rule: rx_iter_cases)
    case stop
    then show ?thesis by simp
  next
    case (more x d)
    have "x + (lo - 1) * k \<le> j" by (rule "1.IH") (use more "1.prems"(2) in auto)
    moreover have "i + k \<le> x" by (rule "1.prems"(2) [OF "1.prems"(3) more(1)])
    ultimately show ?thesis by (cases lo) auto
  qed
qed

lemma rx_match_range:
  "(j, c') \<in> set (rx_match r t i c) \<Longrightarrow> i \<le> length t \<Longrightarrow> i \<le> j \<and> j \<le> length t"
proof (induction r arbitrary: i c j c')
  case (RxSeq a b)
  from RxSeq.prems obtain k d where k: "(k, d) \<in> set (rx_match a t i c)"
    and j: "(j, c') \<in> set (rx_match b t k d)" by auto
  from RxSeq.IH(1) [OF k RxSeq.prems(2)] have "i \<le> k" "k \<le> length t" by auto
  with RxSeq.IH(2) [OF j] show ?case by simp
next
  case (RxRep g r lo hi)
  then show ?case using rx_iter_range by fastforce
qed (auto split: if_splits list.splits)

lemma rx_match_min:
  "(j, c') \<in> set (rx_match r t i c) \<Longrightarrow> i \<le> length t \<Longrightarrow> i + rx_min r \<le> j"
proof (induction r arbitrary: i c j c')
  case (RxSeq a b)
  from RxSeq.prems obtain k d where k: "(k, d) \<in> set (rx_match a t i c)"
    and j: "(j, c') \<in> set (rx_match b t k d)" by auto
  have "k \<le> length t" using rx_match_range [OF k RxSeq.prems(2)] by simp
  with RxSeq.IH(1) [OF k RxSeq.prems(2)] RxSeq.IH(2) [OF j] show ?case by simp
next
  case (RxAlt a b)
  then show ?case by (fastforce simp: min_def)
next
  case (RxRep g r lo hi)
  then show ?case using rx_iter_min [of j c' "rx_match r t" g "length t" lo hi i c "rx_min r"]
    by simp
qed (auto split: if_splits list.splits)

lemma rx_match_only:
  assumes "(j, c') \<in> set (rx_match r t i c)" "i \<le> length t" "rx_only P r" "i \<le> k" "k < j"
  shows "P (t ! k)"
  using assms
proof (induction r arbitrary: i c j c' k)
  case (RxSeq a b)
  from RxSeq.prems obtain x d where x: "(x, d) \<in> set (rx_match a t i c)"
    and j: "(j, c') \<in> set (rx_match b t x d)" by auto
  have "x \<le> length t" using rx_match_range [OF x RxSeq.prems(2)] by simp
  with RxSeq x j show ?case by (cases "k < x") (fastforce, simp)
next
  case (RxRep g r lo hi)
  have "\<forall>y. i \<le> y \<and> y < j \<longrightarrow> P (t ! y)"
  proof (rule rx_iter_invariant [where I = "\<lambda>x _. \<forall>y. i \<le> y \<and> y < x \<longrightarrow> P (t ! y)"])
    show "(j, c') \<in> set (rx_iter (rx_match r t) g (length t) lo hi i c)" using RxRep.prems by simp
    show "\<forall>y. i \<le> y \<and> y < x \<longrightarrow> P (t ! y)"
      if "\<forall>y. i \<le> y \<and> y < a \<longrightarrow> P (t ! y)" "a \<le> length t" "(x, d) \<in> set (rx_match r t a b)"
      for a b x d
      using that RxRep.IH [OF that(3,2)] RxRep.prems(3) by (metis linorder_not_le rx_only.simps(5))
  qed (use RxRep.prems in auto)
  with RxRep.prems show ?case by blast
qed (auto split: if_splits list.splits simp: less_Suc_eq le_antisym)

text \<open>What the entry points return.\<close>

lemma rx_at_SomeD:
  assumes "rx_at r t i = Some m" and "i \<le> length t"
  shows "m_start m = i" "i + rx_min r \<le> m_end m" "i \<le> m_end m" "m_end m \<le> length t"
    "(m_end m, m_caps m) \<in> set (rx_match r t i Map.empty)"
proof -
  from assms obtain j c xs where "rx_match r t i Map.empty = (j, c) # xs"
      "m = \<lparr>m_start = i, m_end = j, m_caps = c\<rparr>"
    by (auto simp: rx_at_def split: list.splits)
  then show "(m_end m, m_caps m) \<in> set (rx_match r t i Map.empty)" and "m_start m = i" by auto
  then show "i + rx_min r \<le> m_end m" "i \<le> m_end m" "m_end m \<le> length t"
    using rx_match_range rx_match_min assms(2) by blast+
qed

lemma rx_search_SomeD [scan_bounds]:
  assumes "rx_search r t pos = Some m"
  shows "pos \<le> m_start m" "m_start m + rx_min r \<le> m_end m" "m_start m \<le> m_end m"
    "m_end m \<le> length t" "rx_at r t (m_start m) = Some m"
    "(m_end m, m_caps m) \<in> set (rx_match r t (m_start m) Map.empty)"
proof -
  from assms obtain i where f: "List.find (\<lambda>i. rx_match r t i Map.empty \<noteq> []) [pos ..< Suc (length t)] = Some i"
    and at: "rx_at r t i = Some m"
    by (auto simp: rx_search_def split: option.splits)
  from find_Some_least [OF f] have "pos \<le> i" "i \<le> length t" by auto
  with rx_at_SomeD [OF at] at
  show "pos \<le> m_start m" "m_start m + rx_min r \<le> m_end m" "m_start m \<le> m_end m"
    "m_end m \<le> length t" "rx_at r t (m_start m) = Some m"
    "(m_end m, m_caps m) \<in> set (rx_match r t (m_start m) Map.empty)"
    by auto
qed

lemma rx_search_least:
  assumes "rx_search r t pos = Some m" "pos \<le> i" "i < m_start m"
  shows "rx_match r t i Map.empty = []"
proof -
  from assms obtain k where f: "List.find (\<lambda>i. rx_match r t i Map.empty \<noteq> []) [pos ..< Suc (length t)] = Some k"
    and at: "rx_at r t k = Some m"
    by (auto simp: rx_search_def split: option.splits)
  from find_Some_least [OF f] rx_at_SomeD(1) [OF at] assms(2,3) show ?thesis by auto
qed

lemma rx_search_None:
  "rx_search r t pos = None \<longleftrightarrow> (\<forall>i. pos \<le> i \<and> i \<le> length t \<longrightarrow> rx_match r t i Map.empty = [])"
proof -
  have "rx_search r t pos = None \<longleftrightarrow>
      List.find (\<lambda>i. rx_match r t i Map.empty \<noteq> []) [pos ..< Suc (length t)] = None"
  proof (cases "List.find (\<lambda>i. rx_match r t i Map.empty \<noteq> []) [pos ..< Suc (length t)]")
    case (Some k)
    from find_Some_least [OF Some] have "rx_match r t k Map.empty \<noteq> []" by simp
    with Some show ?thesis
      by (auto simp: rx_search_def rx_at_def simp del: upt_Suc split: list.splits)
  qed (simp add: rx_search_def del: upt_Suc)
  then show ?thesis by (auto simp: find_None_upt less_Suc_eq_le simp del: upt_Suc)
qed

lemma rx_search_at:
  assumes "rx_match r t i Map.empty = (j, c) # xs" "pos \<le> i" "i \<le> length t"
    "\<And>k. pos \<le> k \<Longrightarrow> k < i \<Longrightarrow> rx_match r t k Map.empty = []"
  shows "rx_search r t pos = Some \<lparr>m_start = i, m_end = j, m_caps = c\<rparr>"
proof -
  have "List.find (\<lambda>i. rx_match r t i Map.empty \<noteq> []) [pos ..< Suc (length t)] = Some i"
  proof (cases "List.find (\<lambda>i. rx_match r t i Map.empty \<noteq> []) [pos ..< Suc (length t)]")
    case None
    with assms show ?thesis by (auto simp: find_None_upt simp del: upt_Suc)
  next
    case (Some k)
    from find_Some_least [OF Some] assms show ?thesis
      by (metis Some linorder_neqE_nat list.distinct(1) less_Suc_eq_le)
  qed
  with assms(1) show ?thesis by (simp add: rx_search_def rx_at_def)
qed

lemma rx_full_SomeD:
  assumes "rx_full r t = Some m"
  shows "m_start m = 0" "m_end m = length t"
    "(length t, m_caps m) \<in> set (rx_match r t 0 Map.empty)"
proof -
  from assms obtain j c where f: "List.find (\<lambda>(j, c). j = length t) (rx_match r t 0 Map.empty) = Some (j, c)"
    and m: "m = \<lparr>m_start = 0, m_end = j, m_caps = c\<rparr>"
    by (auto simp: rx_full_def split: option.splits)
  from f have "j = length t \<and> (j, c) \<in> set (rx_match r t 0 Map.empty)"
    by (auto simp: find_Some_iff in_set_conv_nth)
  with m show "m_start m = 0" "m_end m = length t"
    "(length t, m_caps m) \<in> set (rx_match r t 0 Map.empty)" by auto
qed

lemma rx_fullmatches_iff:
  "rx_fullmatches r t \<longleftrightarrow> (\<exists>c. (length t, c) \<in> set (rx_match r t 0 Map.empty))"
proof
  assume "rx_fullmatches r t"
  then show "\<exists>c. (length t, c) \<in> set (rx_match r t 0 Map.empty)"
    by (auto simp: rx_fullmatches_def dest: rx_full_SomeD)
next
  assume "\<exists>c. (length t, c) \<in> set (rx_match r t 0 Map.empty)"
  then have "List.find (\<lambda>(j, c). j = length t) (rx_match r t 0 Map.empty) \<noteq> None"
    by (auto simp: find_None_iff)
  then show "rx_fullmatches r t"
    by (auto simp: rx_fullmatches_def rx_full_def)
qed

lemma rx_fullmatches_only:
  assumes "rx_fullmatches r t" "rx_only P r"
  shows "list_all P t"
  using assms by (auto simp: rx_fullmatches_iff list_all_length intro: rx_match_only)

text \<open>The preferred match of a sequence, and of a literal under \<open>IGNORECASE\<close>.\<close>

lemma rx_match_seq_first:
  "rx_match a t i c = (j, d) # xs \<Longrightarrow> rx_match b t j d = (k, e) # ys \<Longrightarrow>
    \<exists>zs. rx_match (RxSeq a b) t i c = (k, e) # zs"
  by simp

lemma rx_match_ilit:
  "list_all2 ci_eq w s \<Longrightarrow> rx_match (rx_ilit w) (p @ s @ q) (length p) c = [(length p + length s, c)]"
proof (induction w arbitrary: s p rule: rx_ilit.induct)
  case (2 x)
  then show ?case by (auto simp: list_all2_Cons1 nth_append)
next
  case (3 x y ys)
  from "3.prems" obtain a s' where s: "s = a # s'" "ci_eq x a" "list_all2 ci_eq (y # ys) s'"
    by (auto simp: list_all2_Cons1)
  with "3.IH" [OF s(3), of "p @ [a]"] show ?case by (simp add: nth_append)
qed simp

section \<open>Runs of one character class\<close>

text \<open>The matches of \<open>[class]*\<close> and \<open>[class]+\<close>, longest first.\<close>

lemma rx_iter_set_star:
  assumes "i \<le> length t"
  shows "rx_iter (rx_match (RxSet p) t) True (length t) 0 None i c
    = map (\<lambda>j. (j, c)) (rev [i ..< Suc (run_end p t i)])"
  using assms
proof (induction "length t - i" arbitrary: i)
  case 0
  then have "i = length t" by simp
  then show ?case by (subst rx_iter.simps) (simp add: run_end_past)
next
  case (Suc n)
  show ?case
  proof (cases "p (t ! i)")
    case True
    have IH: "rx_iter (rx_match (RxSet p) t) True (length t) 0 None (Suc i) c
        = map (\<lambda>j. (j, c)) (rev [Suc i ..< Suc (run_end p t (Suc i))])"
      by (rule Suc.hyps(1)) (use Suc.hyps(2) in auto)
    have e: "run_end p t i = run_end p t (Suc i)"
      using True Suc.hyps(2) by (intro run_end_step) auto
    have "[i ..< Suc (run_end p t i)] = i # [Suc i ..< Suc (run_end p t i)]"
      by (rule upt_conv_Cons) (simp add: le_imp_less_Suc)
    then show ?thesis using True Suc.hyps(2) IH e
      by (subst rx_iter.simps) (simp add: Let_def del: upt_Suc)
  next
    case False
    have "run_end p t i = i" using False Suc.hyps(2) by (intro run_end_here) auto
    then show ?thesis using False Suc.hyps(2) by (subst rx_iter.simps) simp
  qed
qed

lemma rx_match_set_star:
  "i \<le> length t \<Longrightarrow>
    rx_match (rx_star (RxSet p)) t i c = map (\<lambda>j. (j, c)) (rev [i ..< Suc (run_end p t i)])"
  using rx_iter_set_star by simp

lemma rx_match_set_plus:
  assumes "i \<le> length t"
  shows "rx_match (rx_plus (RxSet p)) t i c
    = map (\<lambda>j. (j, c)) (rev [Suc i ..< Suc (run_end p t i)])"
proof (cases "i < length t \<and> p (t ! i)")
  case True
  then have "run_end p t i = run_end p t (Suc i)" by (simp add: run_end_step)
  with True rx_iter_set_star [of "Suc i" t p c] show ?thesis
    by (simp add: rx_iter.simps [where lo = "Suc 0"] Let_def del: upt_Suc)
next
  case False
  have "run_end p t i = i" using False by (metis run_end_unfold)
  with False show ?thesis by (auto simp add: rx_iter.simps [where lo = "Suc 0"] Let_def)
qed

text \<open>The preferred match takes the whole run.\<close>

lemma rx_match_set_plus_run:
  assumes "w \<noteq> []" "list_all p w" "q = [] \<or> \<not> p (hd q)"
  shows "\<exists>xs. rx_match (rx_plus (RxSet p)) (a @ w @ q) (length a) c = (length a + length w, c) # xs"
proof -
  have "takeWhile p (w @ q) = w"
    using assms(2,3) by (induction w) (cases q; auto)+
  then have e: "run_end p (a @ w @ q) (length a) = length a + length w" by (simp add: run_end_def)
  have "Suc 0 \<le> length w" using assms(1) by (cases w) auto
  then have "rev [Suc (length a) ..< Suc (length a + length w)]
      = (length a + length w) # rev [Suc (length a) ..< length a + length w]" by simp
  moreover have "rx_match (rx_plus (RxSet p)) (a @ w @ q) (length a) c
      = map (\<lambda>j. (j, c)) (rev [Suc (length a) ..< Suc (length a + length w)])"
    by (subst rx_match_set_plus) (simp_all add: e del: upt_Suc)
  ultimately show ?thesis by simp
qed

text \<open>\<open>[class]{n}\<close> matches in one way or none.\<close>

lemma rx_match_set_exact:
  "i \<le> length t \<Longrightarrow> rx_match (rx_rep (RxSet p) n n) t i c
    = (if i + n \<le> length t \<and> list_all p (slice t i (i + n)) then [(i + n, c)] else [])"
proof (induction n arbitrary: i)
  case 0
  then show ?case by (subst rx_match.simps, subst rx_iter.simps) (simp add: slice_def)
next
  case (Suc n)
  show ?case
  proof (cases "i < length t")
    case True
    have "slice t i (i + Suc n) = t ! i # slice t (Suc i) (Suc i + n)"
      using True by (simp add: slice_def Cons_nth_drop_Suc [symmetric])
    moreover have "rx_match (rx_rep (RxSet p) (Suc n) (Suc n)) t i c
        = (if p (t ! i) then rx_match (rx_rep (RxSet p) n n) t (Suc i) c else [])"
      using True by (subst rx_match.simps, subst rx_iter.simps) simp
    ultimately show ?thesis using Suc.IH [of "Suc i"] True by simp
  next
    case False
    with Suc.prems show ?thesis by (subst rx_match.simps, subst rx_iter.simps) simp
  qed
qed

text \<open>Searching for a run of a class: where it starts and where it ends.\<close>

lemma rx_at_set_plus:
  "i \<le> length t \<Longrightarrow> rx_at (rx_plus (RxSet p)) t i =
    (if i < length t \<and> p (t ! i)
     then Some \<lparr>m_start = i, m_end = run_end p t i, m_caps = Map.empty\<rparr> else None)"
proof -
  assume i: "i \<le> length t"
  show ?thesis
  proof (cases "i < length t \<and> p (t ! i)")
    case True
    then have "Suc i \<le> run_end p t i" by (simp add: run_end_step)
    then have "rev [Suc i ..< Suc (run_end p t i)] = run_end p t i # rev [Suc i ..< run_end p t i]"
      by simp
    with True show ?thesis
      unfolding rx_at_def rx_match_set_plus [OF i] by (simp del: upt_Suc)
  next
    case False
    have "run_end p t i = i" using False by (metis run_end_unfold)
    with False show ?thesis unfolding rx_at_def rx_match_set_plus [OF i] by simp
  qed
qed

lemma rx_search_set_plus_None:
  "rx_search (rx_plus (RxSet p)) t pos = None \<longleftrightarrow> (\<forall>i. pos \<le> i \<and> i < length t \<longrightarrow> \<not> p (t ! i))"
proof -
  have "rx_match (rx_plus (RxSet p)) t i Map.empty = [] \<longleftrightarrow> \<not> (i < length t \<and> p (t ! i))"
    if "i \<le> length t" for i
    using rx_at_set_plus [OF that, of p] by (auto simp: rx_at_def split: list.splits if_splits)
  then show ?thesis by (auto simp: rx_search_None simp del: rx_match.simps)
qed

lemma rx_search_set_plus:
  assumes "rx_search (rx_plus (RxSet p)) t pos = Some m"
  shows "m_end m = run_end p t (m_start m)" "m_start m < m_end m" "m_start m < length t"
    "p (t ! m_start m)" "\<And>i. pos \<le> i \<Longrightarrow> i < m_start m \<Longrightarrow> \<not> p (t ! i)"
proof -
  let ?i = "m_start m"
  from rx_search_SomeD [OF assms] have i: "?i \<le> length t" and at: "rx_at (rx_plus (RxSet p)) t ?i = Some m"
    by auto
  from at have h: "?i < length t" "p (t ! ?i)" and e: "m_end m = run_end p t ?i"
    unfolding rx_at_set_plus [OF i] by (auto split: if_splits dest: arg_cong [where f = m_end])
  show "m_end m = run_end p t ?i" "?i < length t" "p (t ! ?i)" by (fact e h)+
  show "?i < m_end m" using h e by (simp add: run_end_step less_Suc_eq_le Suc_le_eq [symmetric])
  show "\<not> p (t ! k)" if "pos \<le> k" "k < ?i" for k
  proof -
    from that i have k: "k \<le> length t" "k < length t" by auto
    have "rx_match (rx_plus (RxSet p)) t k Map.empty = []"
      by (rule rx_search_least [OF assms that])
    then show ?thesis using rx_at_set_plus [OF k(1), of p] k(2)
      by (auto simp: rx_at_def split: if_splits)
  qed
qed

section \<open>Scanning with a pattern that consumes text\<close>

text \<open>
  A pattern that never matches the empty string is what \<open>finditer\<close> and \<open>sub\<close> are modelled
  for; the scanners of the source are instances of this interface.
\<close>

locale scanner =
  fixes r :: rx
  assumes consumes: "0 < rx_min r"
begin

lemma search_advances:
  assumes "rx_search r t pos = Some m"
  shows "pos < m_end m" "pos < length t"
  using rx_search_SomeD [OF assms] consumes by linarith+

lemma iterate_unfold:
  "rx_iterate r t pos = (case rx_search r t pos of None \<Rightarrow> [] | Some m \<Rightarrow> m # rx_iterate r t (m_end m))"
  by (subst rx_iterate.simps) (auto dest: search_advances split: option.split)

lemma iterate_disjoint:
  "m \<in> set (rx_iterate r t pos) \<Longrightarrow> pos \<le> m_start m \<and> m_start m < m_end m \<and> m_end m \<le> length t"
proof (induction "length t - pos" arbitrary: pos rule: less_induct)
  case less
  show ?case
  proof (cases "rx_search r t pos")
    case None
    with less.prems show ?thesis by (simp add: iterate_unfold)
  next
    case (Some k)
    note k = rx_search_SomeD [OF Some] search_advances [OF Some]
    from less.prems Some have "m = k \<or> m \<in> set (rx_iterate r t (m_end k))"
      by (subst (asm) iterate_unfold) simp
    then show ?thesis
    proof
      assume "m = k"
      moreover have "m_start k < m_end k" using k(2) consumes by linarith
      ultimately show ?thesis using k(1,4) by simp
    next
      assume "m \<in> set (rx_iterate r t (m_end k))"
      then have "m_end k \<le> m_start m \<and> m_start m < m_end m \<and> m_end m \<le> length t"
        by (intro less.hyps) (use k in linarith)
      with k(1,3) show ?thesis by auto
    qed
  qed
qed

lemma sub_unmatched: "rx_search r t 0 = None \<Longrightarrow> rx_sub r f t = t"
  by (simp add: rx_sub_def iterate_unfold)

text \<open>Substitution read from left to right: a character no match starts at, and a match.\<close>

lemma replace_skip:
  assumes "rx_match r t i Map.empty = []" "i < length t"
  shows "rx_replace f t i (rx_iterate r t i) = t ! i # rx_replace f t (Suc i) (rx_iterate r t (Suc i))"
proof -
  have s: "rx_search r t i = rx_search r t (Suc i)"
    using assms by (simp add: rx_search_def upt_conv_Cons del: upt_Suc)
  have "rx_iterate r t i = rx_iterate r t (Suc i)"
    by (simp add: iterate_unfold [of t i] iterate_unfold [of t "Suc i"] s)
  moreover have "rx_replace f t i ms = t ! i # rx_replace f t (Suc i) ms"
    if "\<forall>m\<in>set ms. Suc i \<le> m_start m" for ms
    using that assms(2)
    by (cases ms) (auto simp: slice_def Cons_nth_drop_Suc [symmetric] Suc_diff_le Suc_le_eq
        take_Cons' dest!: less_imp_Suc_add)
  ultimately show ?thesis using iterate_disjoint by auto
qed

lemma replace_hit:
  assumes "rx_match r t i Map.empty = (j, c) # xs" "i \<le> length t"
  shows "rx_replace f t i (rx_iterate r t i)
    = f \<lparr>m_start = i, m_end = j, m_caps = c\<rparr> @ rx_replace f t j (rx_iterate r t j)"
  using rx_search_at [OF assms(1) order_refl assms(2)]
  by (subst iterate_unfold) (simp add: slice_def)

end

end
