(* ===== verification/MigrationGraph.thy ===== *)
theory MigrationGraph
  imports PyRegex "HOL-Library.Multiset" "HOL-Library.List_Lexorder"
begin

text \<open>
  \<open>platform/infrastructure/db/migration_graph.py\<close>: the static validation of the frozen
  migration package, and the constants of \<open>schema_baseline.py\<close> it is compared with.

  The files of the package are the input: a Python revision module is its list of
  top-level statements (what \<open>ast.parse\<close> delivers), an SQL file is its name, and every
  file is its path with its bytes. Defects and violations are values of a datatype instead
  of formatted messages; each constructor names the message it stands for. SHA-256 is a
  parameter (\<open>sha\<close>).

  The chain walk is a loop that need not end, so it is a \<open>partial_function\<close>: \<open>None\<close> means
  that the call does not return.
\<close>

section \<open>Reading revisions\<close>

text \<open>A value of \<open>ast.literal_eval\<close>; \<open>NotLiteral\<close> is an expression it refuses.\<close>

datatype literal = LitStr pystr | LitNone | LitOther | NotLiteral

datatype target = TName pystr | TOther

datatype stmt =
    Assign "target list" literal
  | AnnAssign target "literal option"
  | OtherStmt

datatype graph_error = PackageNotFound | LiteralRefused | PathNotEncodable

record constants =
  k_revision :: "literal option"
  k_down_revision :: "literal option"
  k_sql_file :: "literal option"

definition store_constant :: "target \<Rightarrow> literal \<Rightarrow> constants \<Rightarrow> graph_error + constants" where
  "store_constant t v k =
     (case t of
        TName n \<Rightarrow>
          (if n = lit ''revision'' \<or> n = lit ''down_revision'' \<or> n = lit ''SQL_FILE'' then
             (if v = NotLiteral then Inl LiteralRefused
              else if n = lit ''revision'' then Inr (k\<lparr>k_revision := Some v\<rparr>)
              else if n = lit ''down_revision'' then Inr (k\<lparr>k_down_revision := Some v\<rparr>)
              else Inr (k\<lparr>k_sql_file := Some v\<rparr>))
           else Inr k)
      | TOther \<Rightarrow> Inr k)"

fun module_constants :: "stmt list \<Rightarrow> constants \<Rightarrow> graph_error + constants" where
  "module_constants [] k = Inr k"
| "module_constants (Assign [t] v # body) k =
     (case store_constant t v k of Inl e \<Rightarrow> Inl e | Inr k' \<Rightarrow> module_constants body k')"
| "module_constants (AnnAssign t (Some v) # body) k =
     (case store_constant t v k of Inl e \<Rightarrow> Inl e | Inr k' \<Rightarrow> module_constants body k')"
| "module_constants (_ # body) k = module_constants body k"

record revision =
  rev_id :: pystr
  rev_down :: "pystr option"
  rev_sql :: "pystr option"

record version_file =
  vf_name :: pystr
  vf_stem :: pystr
  vf_body :: "stmt list"

datatype defect =
    NoStringIdentifier pystr
  | IdDoesNotMatchFile pystr pystr
  | DownNotSingle pystr
  | DefinedMoreThanOnce pystr
  | DownDoesNotExist pystr pystr
  | DoesNotWrap pystr
  | SqlMissing pystr
  | SqlOrphan pystr
  | NotLinearChain
  | OrdinalsNotContiguous

definition read_revision :: "version_file \<Rightarrow> graph_error + (revision option \<times> defect list)" where
  "read_revision f =
     (case module_constants (vf_body f) \<lparr>k_revision = None, k_down_revision = None, k_sql_file = None\<rparr> of
        Inl e \<Rightarrow> Inl e
      | Inr k \<Rightarrow> Inr
          (case k_revision k of
             Some (LitStr rid) \<Rightarrow>
               (let mismatch = (if rid \<noteq> vf_stem f then [IdDoesNotMatchFile (vf_name f) rid] else []);
                    sql = (case k_sql_file k of Some (LitStr s) \<Rightarrow> Some s | _ \<Rightarrow> None)
                in case k_down_revision k of
                     None \<Rightarrow> (Some \<lparr>rev_id = rid, rev_down = None, rev_sql = sql\<rparr>, mismatch)
                   | Some LitNone \<Rightarrow> (Some \<lparr>rev_id = rid, rev_down = None, rev_sql = sql\<rparr>, mismatch)
                   | Some (LitStr d) \<Rightarrow>
                       (Some \<lparr>rev_id = rid, rev_down = Some d, rev_sql = sql\<rparr>, mismatch)
                   | Some _ \<Rightarrow> (None, mismatch @ [DownNotSingle (vf_name f)]))
           | _ \<Rightarrow> (None, [NoStringIdentifier (vf_name f)])))"

text \<open>\<open>sorted(versions_dir.glob("*.py"))\<close>: the files in the order of their names.\<close>

fun read_revisions_in :: "version_file list \<Rightarrow> graph_error + (revision list \<times> defect list)" where
  "read_revisions_in [] = Inr ([], [])"
| "read_revisions_in (f # fs) =
     (case read_revision f of
        Inl e \<Rightarrow> Inl e
      | Inr (r, ds) \<Rightarrow>
          (case read_revisions_in fs of
             Inl e \<Rightarrow> Inl e
           | Inr (rs, ds') \<Rightarrow> Inr ((case r of None \<Rightarrow> rs | Some x \<Rightarrow> x # rs), ds @ ds')))"

definition read_revisions :: "version_file list \<Rightarrow> graph_error + (revision list \<times> defect list)" where
  "read_revisions files = read_revisions_in (sort_key vf_name files)"

section \<open>Walking the chain\<close>

definition children_of :: "revision list \<Rightarrow> pystr \<Rightarrow> pystr list" where
  "children_of revs d = map rev_id (filter (\<lambda>r. rev_down r = Some d) revs)"

text \<open>The loop \<open>while chain[-1] in children\<close>.\<close>

partial_function (option) walk_loop :: "revision list \<Rightarrow> pystr list \<Rightarrow> pystr list option" where
  "walk_loop revs chain =
     (case children_of revs (last chain) of
        [] \<Rightarrow> Some chain
      | child # _ \<Rightarrow> walk_loop revs (chain @ [child]))"

declare walk_loop.simps [code]

definition walk_chain :: "revision list \<Rightarrow> pystr list \<Rightarrow> pystr list option" where
  "walk_chain revs roots =
     (if length roots \<noteq> 1
         \<or> list_ex (\<lambda>r. case rev_down r of None \<Rightarrow> False | Some d \<Rightarrow> 1 < length (children_of revs d)) revs
      then Some []
      else case walk_loop revs [hd roots] of
             None \<Rightarrow> None
           | Some chain \<Rightarrow> Some (if length chain = length revs then chain else []))"

section \<open>The package digest\<close>

text \<open>\<open>content.replace(b"\r\n", b"\n")\<close>\<close>

fun normalize_newlines :: "nat list \<Rightarrow> nat list" where
  "normalize_newlines [] = []"
| "normalize_newlines [b] = [b]"
| "normalize_newlines (a # b # bs) =
     (if a = c_cr \<and> b = c_nl then c_nl # normalize_newlines bs
      else a # normalize_newlines (b # bs))"

record package_file =
  pf_path :: pystr
  pf_bytes :: "nat list"
  pf_generated :: bool   \<comment> \<open>\<open>__pycache__\<close> is part of the path\<close>

definition digest_entry :: "(nat list \<Rightarrow> pystr) \<Rightarrow> package_file \<Rightarrow> nat list option" where
  "digest_entry sha f =
     (case (utf8_encode (pf_path f), utf8_encode (sha (normalize_newlines (pf_bytes f)))) of
        (Some p, Some h) \<Rightarrow> Some (p @ [0] @ h @ [c_nl])
      | _ \<Rightarrow> None)"

fun digest_feed :: "(nat list \<Rightarrow> pystr) \<Rightarrow> package_file list \<Rightarrow> nat list option" where
  "digest_feed sha [] = Some []"
| "digest_feed sha (f # fs) =
     (case digest_entry sha f of
        None \<Rightarrow> None | Some b \<Rightarrow> map_option ((@) b) (digest_feed sha fs))"

definition compute_package_digest :: "(nat list \<Rightarrow> pystr) \<Rightarrow> package_file list \<Rightarrow> pystr option" where
  "compute_package_digest sha files =
     map_option sha (digest_feed sha (sort_key pf_path (filter (\<lambda>f. \<not> pf_generated f) files)))"

section \<open>Inspecting a package\<close>

record package =
  pk_versions_dir :: bool
  pk_migrations_dir :: bool
  pk_versions :: "version_file list"
  pk_sql :: "pystr list"
  pk_files :: "package_file list"

record report =
  rp_revision_count :: nat
  rp_sql_file_count :: nat
  rp_roots :: "pystr list"
  rp_heads :: "pystr list"
  rp_chain :: "pystr list"
  rp_sha256 :: pystr
  rp_defects :: "defect list"

definition sql_name :: "pystr \<Rightarrow> pystr" where
  "sql_name rid = rid @ lit ''.sql''"

definition ordinal_rx :: "pyrt \<Rightarrow> rx" where
  "ordinal_rx R = rx_seq [RxStart, RxGroup 1 (rx_rep (RxSet (is_digit R)) 3 3), rx_ch c_under]"

definition ordinal :: "pyrt \<Rightarrow> pystr \<Rightarrow> int" where
  "ordinal R rid =
     (case rx_at (ordinal_rx R) rid 0 of
        None \<Rightarrow> -1
      | Some m \<Rightarrow> (case rx_group rid m 1 of None \<Rightarrow> -1 | Some ds \<Rightarrow> int (int_value R ds)))"

definition revision_defects :: "pystr list \<Rightarrow> revision \<Rightarrow> defect list" where
  "revision_defects known r =
     (case rev_down r of
        Some d \<Rightarrow> (if d \<notin> set known then [DownDoesNotExist (rev_id r) d] else [])
      | None \<Rightarrow> [])
     @ (if rev_sql r \<noteq> Some (sql_name (rev_id r)) then [DoesNotWrap (rev_id r)] else [])"

definition sorted_set :: "pystr list \<Rightarrow> pystr list" where
  "sorted_set xs = sort (remdups xs)"

definition roots_of :: "revision list \<Rightarrow> pystr list" where
  "roots_of revs = sort (map rev_id (filter (\<lambda>r. rev_down r = None) revs))"

definition heads_of :: "revision list \<Rightarrow> pystr list" where
  "heads_of revs =
     sorted_set (filter (\<lambda>i. i \<notin> set (List.map_filter rev_down revs)) (map rev_id revs))"

definition graph_defects :: "pyrt \<Rightarrow> revision list \<Rightarrow> pystr list \<Rightarrow> pystr list \<Rightarrow> defect list" where
  "graph_defects R revs sqls chain =
     (let ids = map rev_id revs; wrapped = map sql_name ids in
        map DefinedMoreThanOnce (sorted_set (filter (\<lambda>i. 1 < count_list ids i) ids))
        @ concat (map (revision_defects ids) revs)
        @ map SqlMissing (sorted_set (filter (\<lambda>f. f \<notin> set sqls) wrapped))
        @ map SqlOrphan (sorted_set (filter (\<lambda>f. f \<notin> set wrapped) sqls))
        @ (if chain = [] then [NotLinearChain]
           else if map (ordinal R) chain \<noteq> map int [1 ..< Suc (length chain)]
           then [OrdinalsNotContiguous] else []))"

text \<open>\<open>None\<close>: the call does not return. \<open>Some (Inl _)\<close>: it raises.\<close>

definition inspect_migration_package ::
  "pyrt \<Rightarrow> (nat list \<Rightarrow> pystr) \<Rightarrow> package \<Rightarrow> (graph_error + report) option" where
  "inspect_migration_package R sha pk =
     (if \<not> pk_versions_dir pk \<or> \<not> pk_migrations_dir pk then Some (Inl PackageNotFound)
      else case read_revisions (pk_versions pk) of
        Inl e \<Rightarrow> Some (Inl e)
      | Inr (revs, defects) \<Rightarrow>
          (case walk_chain revs (roots_of revs) of
             None \<Rightarrow> None
           | Some chain \<Rightarrow> Some
               (case compute_package_digest sha (pk_files pk) of
                  None \<Rightarrow> Inl PathNotEncodable
                | Some h \<Rightarrow> Inr
                    \<lparr>rp_revision_count = length revs, rp_sql_file_count = length (pk_sql pk),
                     rp_roots = roots_of revs, rp_heads = heads_of revs, rp_chain = chain,
                     rp_sha256 = h,
                     rp_defects = defects @ graph_defects R revs (pk_sql pk) chain\<rparr>)))"

section \<open>The frozen baseline\<close>

definition EXPECTED_SCHEMA_ROOT :: pystr where
  "EXPECTED_SCHEMA_ROOT = lit ''001_5B''"

definition EXPECTED_SCHEMA_HEAD :: pystr where
  "EXPECTED_SCHEMA_HEAD = lit ''112_5H5''"

definition EXPECTED_REVISION_COUNT :: nat where
  "EXPECTED_REVISION_COUNT = 112"

definition FROZEN_MIGRATION_PACKAGE_SHA256 :: pystr where
  "FROZEN_MIGRATION_PACKAGE_SHA256 =
     lit ''a426138ed4a83c4cdfe892e281ffcd49823689345cc02198861ac3e9242be0b2''"

datatype violation =
    StructuralDefect defect
  | RevisionCount nat
  | SqlFileCount nat
  | NotSoleRoot "pystr list"
  | NotSoleHead "pystr list"
  | ContentDiffers pystr

definition find_baseline_violations :: "report \<Rightarrow> violation list" where
  "find_baseline_violations rp =
     map StructuralDefect (rp_defects rp)
     @ (if rp_revision_count rp \<noteq> EXPECTED_REVISION_COUNT then [RevisionCount (rp_revision_count rp)] else [])
     @ (if rp_sql_file_count rp \<noteq> EXPECTED_REVISION_COUNT then [SqlFileCount (rp_sql_file_count rp)] else [])
     @ (if rp_roots rp \<noteq> [EXPECTED_SCHEMA_ROOT] then [NotSoleRoot (rp_roots rp)] else [])
     @ (if rp_heads rp \<noteq> [EXPECTED_SCHEMA_HEAD] then [NotSoleHead (rp_heads rp)] else [])
     @ (if rp_sha256 rp \<noteq> FROZEN_MIGRATION_PACKAGE_SHA256 then [ContentDiffers (rp_sha256 rp)] else [])"

datatype baseline_error = Unreadable graph_error | NotFrozenBaseline "violation list"

definition validate_frozen_baseline ::
  "pyrt \<Rightarrow> (nat list \<Rightarrow> pystr) \<Rightarrow> package \<Rightarrow> (baseline_error + report) option" where
  "validate_frozen_baseline R sha pk =
     (case inspect_migration_package R sha pk of
        None \<Rightarrow> None
      | Some (Inl e) \<Rightarrow> Some (Inl (Unreadable e))
      | Some (Inr rp) \<Rightarrow> Some
          (case find_baseline_violations rp of
             [] \<Rightarrow> Inr rp
           | vs \<Rightarrow> Inl (NotFrozenBaseline vs)))"

section \<open>The chain walk returns the chain\<close>

text \<open>
  What a linear chain is, without the loop: some order of the revisions in which the first
  has no \<open>down_revision\<close> and every other names its predecessor.
\<close>

definition is_linear_chain :: "revision list \<Rightarrow> pystr list \<Rightarrow> bool" where
  "is_linear_chain revs chain \<longleftrightarrow>
     (\<exists>rs. mset rs = mset revs \<and> rs \<noteq> [] \<and> map rev_id rs = chain
        \<and> map rev_down rs = None # map Some (butlast chain))"

definition rev_by :: "revision list \<Rightarrow> pystr \<Rightarrow> revision option" where
  "rev_by revs = map_of (map (\<lambda>r. (rev_id r, r)) revs)"

definition down_of :: "revision list \<Rightarrow> pystr \<Rightarrow> pystr option option" where
  "down_of revs i = map_option rev_down (rev_by revs i)"

text \<open>A path from a root along \<open>down_revision\<close>, which is what the loop builds.\<close>

definition root_path :: "revision list \<Rightarrow> pystr list \<Rightarrow> bool" where
  "root_path revs chain \<longleftrightarrow>
     chain \<noteq> [] \<and> map (down_of revs) chain = Some None # map (\<lambda>i. Some (Some i)) (butlast chain)"

lemma rev_by_Some: "rev_by revs i = Some r \<Longrightarrow> r \<in> set revs \<and> rev_id r = i"
  by (auto simp: rev_by_def dest: map_of_SomeD)

lemma rev_by_self: "distinct (map rev_id revs) \<Longrightarrow> r \<in> set revs \<Longrightarrow> rev_by revs (rev_id r) = Some r"
  by (auto simp: rev_by_def o_def intro!: map_of_is_SomeI)

lemma down_of_self:
  "distinct (map rev_id revs) \<Longrightarrow> r \<in> set revs \<Longrightarrow> down_of revs (rev_id r) = Some (rev_down r)"
  by (simp add: down_of_def rev_by_self)

lemma children_of_down:
  assumes "distinct (map rev_id revs)" "c \<in> set (children_of revs d)"
  shows "down_of revs c = Some (Some d)"
  using assms down_of_self by (fastforce simp: children_of_def)

lemma down_children_of:
  assumes "down_of revs c = Some (Some d)"
  shows "c \<in> set (children_of revs d)"
proof -
  from assms obtain r where "rev_by revs c = Some r" "rev_down r = Some d"
    by (auto simp: down_of_def)
  with rev_by_Some [of revs c r] show ?thesis by (force simp: children_of_def)
qed

lemma root_path_snoc:
  assumes "chain \<noteq> []"
  shows "root_path revs (chain @ [c]) \<longleftrightarrow> root_path revs chain \<and> down_of revs c = Some (Some (last chain))"
proof -
  have eq: "Some None # map (\<lambda>i. Some (Some i)) (butlast (chain @ [c]))
      = (Some None # map (\<lambda>i. Some (Some i)) (butlast chain)) @ [Some (Some (last chain))]"
    using assms append_butlast_last_id [of chain]
    by (metis (no_types, lifting) append_Cons butlast_snoc list.simps(8,9) map_append)
  have "root_path revs (chain @ [c]) \<longleftrightarrow> map (down_of revs) chain @ [down_of revs c]
      = (Some None # map (\<lambda>i. Some (Some i)) (butlast chain)) @ [Some (Some (last chain))]"
    unfolding root_path_def eq by simp
  then show ?thesis unfolding append1_eq_conv using assms by (simp add: root_path_def)
qed

lemma root_path_nth:
  assumes "root_path revs chain" "k < length chain"
  shows "down_of revs (chain ! k) = Some (if k = 0 then None else Some (chain ! (k - 1)))"
proof -
  have "map (down_of revs) chain ! k = (Some None # map (\<lambda>i. Some (Some i)) (butlast chain)) ! k"
    using assms(1) by (simp add: root_path_def)
  with assms(2) show ?thesis by (cases k) (auto simp: nth_butlast)
qed

lemma root_path_unique:
  assumes "root_path revs p" "root_path revs q" "set p \<subseteq> set q" "distinct q" "j < length p"
  shows "j < length q \<and> p ! j = q ! j"
  using assms(5)
proof (induction j)
  case 0
  with assms(3) obtain k where k: "k < length q" "q ! k = p ! 0"
    by (metis in_set_conv_nth nth_mem subsetD)
  have "k = 0"
    using root_path_nth [OF assms(1) 0] root_path_nth [OF assms(2) k(1)] k(2)
    by (auto split: if_splits)
  with k show ?case by simp
next
  case (Suc j)
  then have IH: "j < length q" "p ! j = q ! j" by auto
  from Suc.prems assms(3) obtain k where k: "k < length q" "q ! k = p ! Suc j"
    by (metis in_set_conv_nth nth_mem subsetD)
  have "0 < k \<and> q ! (k - 1) = q ! j"
    using root_path_nth [OF assms(1) Suc.prems] root_path_nth [OF assms(2) k(1)] k(2) IH(2)
    by (auto split: if_splits)
  then have "k = Suc j"
    using assms(4) k(1) IH(1) nth_eq_iff_index_eq [of q "k - 1" j] by auto
  with k show ?case by simp
qed

lemma root_path_distinct: "root_path revs chain \<Longrightarrow> distinct chain"
proof (induction chain rule: rev_induct)
  case (snoc c chain)
  show ?case
  proof (cases "chain = []")
    case False
    with snoc have p: "root_path revs chain" and c: "down_of revs c = Some (Some (last chain))"
      and d: "distinct chain" by (auto simp: root_path_snoc)
    have "c \<notin> set chain"
    proof
      assume "c \<in> set chain"
      then obtain j where j: "j < length chain" "chain ! j = c" by (auto simp: in_set_conv_nth)
      with root_path_nth [OF p j(1)] c False
      have "0 < j" "chain ! (j - 1) = chain ! (length chain - 1)"
        by (auto simp: last_conv_nth split: if_splits)
      moreover from j have "j - 1 < length chain" "length chain - 1 < length chain" by auto
      ultimately have "j - 1 = length chain - 1" using d nth_eq_iff_index_eq by metis
      with j(1) \<open>0 < j\<close> show False by linarith
    qed
    with d show ?thesis by simp
  qed simp
qed simp

lemma root_path_ids: "root_path revs chain \<Longrightarrow> set chain \<subseteq> set (map rev_id revs)"
proof
  fix c
  assume p: "root_path revs chain" and "c \<in> set chain"
  then obtain k where "k < length chain" "chain ! k = c" by (auto simp: in_set_conv_nth)
  with root_path_nth [OF p] obtain r where "rev_by revs c = Some r"
    by (fastforce simp: down_of_def)
  with rev_by_Some show "c \<in> set (map rev_id revs)" by fastforce
qed

lemma root_path_length:
  assumes "root_path revs chain"
  shows "length chain \<le> length revs"
  using card_mono [OF _ root_path_ids [OF assms]] distinct_card [OF root_path_distinct [OF assms]]
    card_length [of "map rev_id revs"] by simp

text \<open>With distinct identifiers the loop ends, at a path that cannot be extended.\<close>

lemma walk_loop_returns:
  assumes "distinct (map rev_id revs)" "root_path revs chain"
  shows "\<exists>res. walk_loop revs chain = Some res \<and> root_path revs res \<and> children_of revs (last res) = []"
  using assms(2)
proof (induction "length revs - length chain" arbitrary: chain rule: less_induct)
  case less
  show ?case
  proof (cases "children_of revs (last chain)")
    case Nil
    with less.prems have "walk_loop revs chain = Some chain" by (subst walk_loop.simps) simp
    with less.prems Nil show ?thesis by blast
  next
    case (Cons c cs)
    then have "down_of revs c = Some (Some (last chain))"
      using children_of_down [OF assms(1)] by simp
    moreover have "chain \<noteq> []" using less.prems by (simp add: root_path_def)
    ultimately have p: "root_path revs (chain @ [c])"
      using less.prems root_path_snoc by metis
    have "length revs - length (chain @ [c]) < length revs - length chain"
      using root_path_length [OF p] by simp
    from less.hyps [OF this p] obtain res where "walk_loop revs (chain @ [c]) = Some res"
        "root_path revs res" "children_of revs (last res) = []" by blast
    moreover have "walk_loop revs chain = walk_loop revs (chain @ [c])"
      using Cons by (subst walk_loop.simps) simp
    ultimately show ?thesis by auto
  qed
qed

lemma roots_of_path:
  assumes "distinct (map rev_id revs)" "length (roots_of revs) = 1"
  shows "root_path revs [hd (roots_of revs)]"
proof -
  let ?x = "hd (roots_of revs)"
  have "?x \<in> set (roots_of revs)" using assms(2) by (cases "roots_of revs") auto
  then obtain r where "r \<in> set revs" "rev_id r = ?x" "rev_down r = None"
    by (auto simp: roots_of_def)
  with down_of_self [OF assms(1), of r] have "down_of revs ?x = Some None" by simp
  then show ?thesis by (simp add: root_path_def)
qed

lemma is_linear_chainE:
  assumes "is_linear_chain revs chain"
  obtains rs where "mset rs = mset revs" "rs \<noteq> []" "map rev_id rs = chain"
    "map rev_down rs = None # map Some (butlast chain)"
  using assms unfolding is_linear_chain_def by (elim exE conjE) (rule that)

lemma linear_chain_root_path:
  assumes "distinct (map rev_id revs)" "is_linear_chain revs chain"
  shows "root_path revs chain" "set chain = set (map rev_id revs)" "length chain = length revs"
proof -
  from assms(2) obtain rs where rs: "mset rs = mset revs" "rs \<noteq> []" "map rev_id rs = chain"
    "map rev_down rs = None # map Some (butlast chain)" by (rule is_linear_chainE)
  then have set: "set rs = set revs" by (metis set_mset_mset)
  have "map (down_of revs) chain = map Some (map rev_down rs)"
    using rs(3) set down_of_self [OF assms(1)] by auto
  with rs(4) have "map (down_of revs) chain = Some None # map (\<lambda>i. Some (Some i)) (butlast chain)"
    by (simp add: o_def)
  with rs(2,3) show "root_path revs chain" by (auto simp: root_path_def)
  show "set chain = set (map rev_id revs)" using rs(3) set by auto
  show "length chain = length revs" using rs(1,3) by (metis length_map mset_eq_length)
qed

lemma children_at_most_one:
  assumes "distinct (map rev_id revs)" "is_linear_chain revs chain"
  shows "length (children_of revs d) \<le> 1"
proof (rule ccontr)
  note path = linear_chain_root_path [OF assms]
  let ?cs = "children_of revs d"
  assume "\<not> length ?cs \<le> 1"
  then have l: "0 < length ?cs" "1 < length ?cs" by auto
  have dist: "distinct ?cs"
    using assms(1) by (auto simp: children_of_def distinct_map inj_on_def)
  have pos: "\<exists>k. Suc k < length chain \<and> chain ! Suc k = c \<and> chain ! k = d" if "c \<in> set ?cs" for c
  proof -
    have down: "down_of revs c = Some (Some d)" by (rule children_of_down [OF assms(1) that])
    moreover have "c \<in> set chain" using that path(2) by (auto simp: children_of_def)
    ultimately obtain j where "j < length chain" "chain ! j = c" by (auto simp: in_set_conv_nth)
    with root_path_nth [OF path(1)] down show ?thesis by (cases j) force+
  qed
  from pos [of "?cs ! 0"] pos [of "?cs ! 1"] l obtain j k where
    "Suc j < length chain" "chain ! Suc j = ?cs ! 0" "chain ! j = d"
    "Suc k < length chain" "chain ! Suc k = ?cs ! 1" "chain ! k = d" by auto
  with root_path_distinct [OF path(1)] have "?cs ! 0 = ?cs ! 1"
    by (metis Suc_lessD nth_eq_iff_index_eq)
  with dist l show False by (simp add: nth_eq_iff_index_eq)
qed

lemma linear_chain_roots:
  assumes "is_linear_chain revs chain"
  shows "roots_of revs = [hd chain]"
proof -
  from assms obtain rs where rs: "mset rs = mset revs" "rs \<noteq> []" "map rev_id rs = chain"
    "map rev_down rs = None # map Some (butlast chain)" by (rule is_linear_chainE)
  then obtain r rs' where r: "rs = r # rs'" by (cases rs) auto
  with rs(4) have "rev_down r = None" "map rev_down rs' = map Some (butlast chain)" by auto
  have "rev_down x \<noteq> None" if "x \<in> set rs'" for x
  proof -
    have "rev_down x \<in> set (map rev_down rs')" using that by simp
    then have "rev_down x \<in> set (map Some (butlast chain))"
      using \<open>map rev_down rs' = map Some (butlast chain)\<close> by argo
    then show ?thesis by auto
  qed
  then have "filter (\<lambda>r. rev_down r = None) rs = [r]"
    using r \<open>rev_down r = None\<close> by (simp add: filter_empty_conv)
  moreover have "mset (filter (\<lambda>r. rev_down r = None) revs) = mset (filter (\<lambda>r. rev_down r = None) rs)"
    using rs(1) by simp
  ultimately have "filter (\<lambda>r. rev_down r = None) revs = [r]"
    by (metis mset_single_iff_right mset.simps mset_zero_iff)
  with rs(3) r show ?thesis by (auto simp: roots_of_def)
qed

text \<open>The walk along a linear history, and what a non-empty answer means.\<close>

lemma walk_chain_linear:
  assumes "distinct (map rev_id revs)" "is_linear_chain revs chain"
  shows "walk_chain revs (roots_of revs) = Some chain"
proof -
  note path = linear_chain_root_path [OF assms] and roots = linear_chain_roots [OF assms(2)]
  have start: "root_path revs [hd chain]" using roots_of_path [OF assms(1)] roots by simp
  from walk_loop_returns [OF assms(1) start] obtain res where
    res: "walk_loop revs [hd chain] = Some res" "root_path revs res" "children_of revs (last res) = []"
    by blast
  have same: "j < length chain \<and> res ! j = chain ! j" if "j < length res" for j
    using root_path_unique [OF res(2) path(1) _ root_path_distinct [OF path(1)] that]
      root_path_ids [OF res(2)] path(2) by blast
  have "length res = length chain"
  proof (rule ccontr)
    assume ne: "length res \<noteq> length chain"
    have nonempty: "res \<noteq> []" using res(2) by (simp add: root_path_def)
    with ne same [of "length res - 1"] have l: "length res < length chain"
      by (cases "length res") auto
    with root_path_nth [OF path(1) l] nonempty same [of "length res - 1"]
    have "down_of revs (chain ! length res) = Some (Some (last res))"
      by (simp add: last_conv_nth)
    with res(3) down_children_of show False by fastforce
  qed
  with same have "res = chain" by (auto intro: nth_equalityI)
  moreover have "\<not> list_ex (\<lambda>r. case rev_down r of None \<Rightarrow> False
      | Some d \<Rightarrow> 1 < length (children_of revs d)) revs"
    using children_at_most_one [OF assms] by (auto simp: list_ex_iff not_less split: option.splits)
  ultimately show ?thesis using res(1) roots path(3) by (simp add: walk_chain_def)
qed

lemma walk_chain_returns:
  assumes "distinct (map rev_id revs)"
  shows "\<exists>chain. walk_chain revs (roots_of revs) = Some chain"
  using walk_loop_returns [OF assms roots_of_path [OF assms]]
  by (fastforce simp: walk_chain_def)

lemma walk_chain_sound:
  assumes "distinct (map rev_id revs)" "walk_chain revs (roots_of revs) = Some chain" "chain \<noteq> []"
  shows "is_linear_chain revs chain"
proof -
  from assms(2,3) have one: "length (roots_of revs) = 1"
    and walk: "walk_loop revs [hd (roots_of revs)] = Some chain" and len: "length chain = length revs"
    by (auto simp: walk_chain_def split: if_splits option.splits)
  have path: "root_path revs chain"
    using walk_loop_returns [OF assms(1) roots_of_path [OF assms(1) one]] walk by auto
  let ?rs = "map (\<lambda>i. the (rev_by revs i)) chain"
  have set: "set chain = set (map rev_id revs)"
    using card_seteq [OF _ root_path_ids [OF path]] distinct_card [OF root_path_distinct [OF path]]
      distinct_card [OF assms(1)] len by simp
  then have "mset chain = mset (map rev_id revs)"
    using root_path_distinct [OF path] assms(1) set_eq_iff_mset_eq_distinct by blast
  then have "mset ?rs = mset (map (\<lambda>r. the (rev_by revs (rev_id r))) revs)"
    by (metis (no_types, lifting) mset_map multiset.map_comp comp_apply image_mset_cong)
  also have "\<dots> = mset revs" using rev_by_self [OF assms(1)] by (simp add: map_idI)
  finally have "mset ?rs = mset revs" .
  moreover have ids: "map rev_id ?rs = chain"
    using set rev_by_self [OF assms(1)] by (auto intro!: map_idI)
  moreover have "map Some (map rev_down ?rs) = map (down_of revs) chain"
    using set rev_by_self [OF assms(1)] down_of_self [OF assms(1)] by auto
  with path have "map Some (map rev_down ?rs) = map Some (None # map Some (butlast chain))"
    by (simp add: root_path_def o_def)
  then have "map rev_down ?rs = None # map Some (butlast chain)"
    by (metis inj_map_eq_map inj_Some)
  ultimately show ?thesis using assms(3) unfolding is_linear_chain_def
    by (intro exI [of _ ?rs]) auto
qed

text \<open>
  C31: with distinct revision identifiers the chain walk always returns, and what it returns
  is non-empty exactly for a linear history, in which case it is that history from root to
  head.
\<close>

theorem walk_chain_correct:
  assumes "distinct (map rev_id revs)"
  shows "\<exists>chain. walk_chain revs (roots_of revs) = Some chain
    \<and> (chain = [] \<longrightarrow> (\<nexists>c. is_linear_chain revs c))
    \<and> (chain \<noteq> [] \<longrightarrow> is_linear_chain revs chain)"
proof (cases "\<exists>c. is_linear_chain revs c")
  case True
  then obtain c where c: "is_linear_chain revs c" by blast
  from walk_chain_linear [OF assms c] linear_chain_root_path(1) [OF assms c] c show ?thesis
    by (auto simp: root_path_def)
next
  case False
  obtain chain where "walk_chain revs (roots_of revs) = Some chain"
    using walk_chain_returns [OF assms] by blast
  moreover have "chain = []" using walk_chain_sound [OF assms calculation] False by blast
  ultimately show ?thesis using False by blast
qed


section \<open>When the chain walk does not return\<close>

text \<open>
  The walk goes from an identifier to the one that follows it. It does not return when it comes
  back: some revision \<open>y\<close>, whose identifier it reaches from the only root, follows a revision
  that itself descends from that identifier. With one child at most for each revision this
  takes two files that define the identifier of \<open>y\<close>; \<open>read_revisions\<close> records that one of them
  does not match its name, but keeps it.
\<close>

definition follows :: "revision list \<Rightarrow> pystr \<Rightarrow> pystr \<Rightarrow> bool" where
  "follows revs a b \<longleftrightarrow> b \<in> set (children_of revs a)"

definition circular :: "revision list \<Rightarrow> bool" where
  "circular revs \<longleftrightarrow> (\<exists>r y p. roots_of revs = [r] \<and> (\<forall>d. length (children_of revs d) \<le> 1)
     \<and> y \<in> set revs \<and> rev_down y = Some p
     \<and> (follows revs)\<^sup>*\<^sup>* r (rev_id y) \<and> (follows revs)\<^sup>*\<^sup>* (rev_id y) p)"

lemma follows_revision: "follows revs a b \<longleftrightarrow> (\<exists>y \<in> set revs. rev_down y = Some a \<and> rev_id y = b)"
  by (auto simp: follows_def children_of_def)

lemma branching: "list_ex (\<lambda>r. case rev_down r of None \<Rightarrow> False | Some d \<Rightarrow> 1 < length (children_of revs d)) revs
    \<longleftrightarrow> \<not> (\<forall>d. length (children_of revs d) \<le> 1)"
proof
  assume "list_ex (\<lambda>r. case rev_down r of None \<Rightarrow> False | Some d \<Rightarrow> 1 < length (children_of revs d)) revs"
  then show "\<not> (\<forall>d. length (children_of revs d) \<le> 1)" by (auto simp: list_ex_iff not_le split: option.splits)
next
  assume "\<not> (\<forall>d. length (children_of revs d) \<le> 1)"
  then obtain d where d: "1 < length (children_of revs d)" by (auto simp: not_le)
  then have "children_of revs d \<noteq> []" by auto
  then obtain y where "y \<in> set revs" "rev_down y = Some d" by (auto simp: children_of_def filter_empty_conv)
  with d show "list_ex (\<lambda>r. case rev_down r of None \<Rightarrow> False | Some d \<Rightarrow> 1 < length (children_of revs d)) revs"
    by (force simp: list_ex_iff)
qed

text \<open>Behind a point of a circle every step is again on a circle, so the walk never runs out.\<close>

lemma follows_unique: "\<forall>d. length (children_of revs d) \<le> 1 \<Longrightarrow> follows revs a b \<Longrightarrow> follows revs a c \<Longrightarrow> b = c"
  unfolding follows_def by (cases "children_of revs a"; cases "tl (children_of revs a)") (auto dest: spec [of _ a])

lemma circle_goes_on:
  assumes "\<forall>d. length (children_of revs d) \<le> 1" "(follows revs)\<^sup>+\<^sup>+ a a" "(follows revs)\<^sup>*\<^sup>* a x"
  shows "(follows revs)\<^sup>+\<^sup>+ x x"
  using assms(3)
proof (induction rule: rtranclp_induct)
  case base
  show ?case by (rule assms(2))
next
  case (step x y)
  from tranclpD [OF step.IH] obtain z where z: "follows revs x z" "(follows revs)\<^sup>*\<^sup>* z x" by blast
  from z(2) have "(follows revs)\<^sup>*\<^sup>* y x" unfolding follows_unique [OF assms(1) z(1) step.hyps(2)] .
  then show ?case using step.hyps(2) by (rule rtranclp_into_tranclp1)
qed

text \<open>Before a circle the walk is on its way to it.\<close>

lemma on_the_way:
  assumes "\<forall>d. length (children_of revs d) \<le> 1" "(follows revs)\<^sup>+\<^sup>+ a a" "(follows revs)\<^sup>*\<^sup>* r a" "(follows revs)\<^sup>*\<^sup>* r x"
  shows "(follows revs)\<^sup>*\<^sup>* x a"
  using assms(4)
proof (induction rule: rtranclp_induct)
  case base
  show ?case by (rule assms(3))
next
  case (step x y)
  show ?case
  proof (cases "x = a")
    case True
    from tranclpD [OF assms(2)] obtain z where z: "follows revs a z" "(follows revs)\<^sup>*\<^sup>* z a" by blast
    from z(2) show ?thesis unfolding follows_unique [OF assms(1) z(1) step.hyps(2) [unfolded True]] .
  next
    case False
    from step.IH obtain z where z: "follows revs x z" "(follows revs)\<^sup>*\<^sup>* z a"
      by (rule converse_rtranclpE) (use False in simp)
    from z(2) show ?thesis unfolding follows_unique [OF assms(1) z(1) step.hyps(2)] .
  qed
qed

lemma walk_goes_on:
  assumes "\<forall>x. (follows revs)\<^sup>*\<^sup>* r x \<longrightarrow> children_of revs x \<noteq> []" "(follows revs)\<^sup>*\<^sup>* r (last chain)"
  shows "walk_loop revs chain = None"
proof (cases "walk_loop revs chain")
  case (Some res)
  have "rs = revs \<longrightarrow> (follows revs)\<^sup>*\<^sup>* r (last c) \<longrightarrow> False" if "walk_loop rs c = Some res" for rs c res
  proof (rule walk_loop.raw_induct [OF _ that])
    fix walk :: "revision list \<Rightarrow> pystr list \<Rightarrow> pystr list option" and rs c res
    assume IH: "\<And>rs c res. walk rs c = Some res \<Longrightarrow> rs = revs \<longrightarrow> (follows revs)\<^sup>*\<^sup>* r (last c) \<longrightarrow> False"
      and eq: "(case children_of rs (last c) of [] \<Rightarrow> Some c | child # x \<Rightarrow> walk rs (c @ [child])) = Some res"
    show "rs = revs \<longrightarrow> (follows revs)\<^sup>*\<^sup>* r (last c) \<longrightarrow> False"
    proof (intro impI)
      assume same: "rs = revs" and last: "(follows revs)\<^sup>*\<^sup>* r (last c)"
      with assms(1) obtain child cs where child: "children_of revs (last c) = child # cs" by (meson neq_Nil_conv)
      then have "follows revs (last c) child" by (simp add: follows_def)
      with last have "(follows revs)\<^sup>*\<^sup>* r child" by (rule rtranclp.rtrancl_into_rtrancl)
      with IH [of rs "c @ [child]" res] eq child same show False by simp
    qed
  qed
  with Some assms(2) show ?thesis by blast
qed

text \<open>Without a circle each step leaves fewer identifiers ahead.\<close>

lemma walk_comes_to_an_end:
  assumes "\<forall>x. (follows revs)\<^sup>*\<^sup>* r x \<longrightarrow> \<not> (follows revs)\<^sup>+\<^sup>+ x x"
  shows "(follows revs)\<^sup>*\<^sup>* r (last chain) \<Longrightarrow> walk_loop revs chain \<noteq> None"
proof (induction "card {z. (follows revs)\<^sup>+\<^sup>+ (last chain) z}" arbitrary: chain rule: less_induct)
  case less
  show ?case
  proof (cases "children_of revs (last chain)")
    case Nil
    then show ?thesis by (subst walk_loop.simps) simp
  next
    case (Cons child cs)
    then have step: "follows revs (last chain) child" by (simp add: follows_def)
    let ?ahead = "\<lambda>x. {z. (follows revs)\<^sup>+\<^sup>+ x z}"
    have "z \<in> set (map rev_id revs)" if "(follows revs)\<^sup>+\<^sup>+ x z" for x z
      using that by (cases rule: tranclp.cases) (auto simp: follows_revision)
    then have "?ahead x \<subseteq> set (map rev_id revs)" for x by blast
    then have finite: "finite (?ahead x)" for x by (rule finite_subset) simp
    have smaller: "?ahead child \<subseteq> ?ahead (last chain)" using step by (intro Collect_mono impI) (rule tranclp_into_tranclp2)
    have reach: "(follows revs)\<^sup>*\<^sup>* r child" using less.prems step by (rule rtranclp.rtrancl_into_rtrancl)
    then have "child \<notin> ?ahead child" using assms by simp
    moreover have "child \<in> ?ahead (last chain)" using step by (simp add: tranclp.r_into_trancl)
    ultimately have "?ahead child \<subset> ?ahead (last chain)" using smaller by blast
    then have "card (?ahead (last (chain @ [child]))) < card (?ahead (last chain))"
      using psubset_card_mono [OF finite] by simp
    from less.hyps [OF this] reach have "walk_loop revs (chain @ [child]) \<noteq> None" by simp
    then show ?thesis using Cons by (subst walk_loop.simps) simp
  qed
qed

lemma walk_chain_diverges_iff: "walk_chain revs (roots_of revs) = None \<longleftrightarrow> circular revs"
proof (cases "\<exists>r. roots_of revs = [r] \<and> (\<forall>d. length (children_of revs d) \<le> 1)")
  case False
  then have "length (roots_of revs) \<noteq> 1 \<or> \<not> (\<forall>d. length (children_of revs d) \<le> 1)"
    by (cases "roots_of revs"; cases "tl (roots_of revs)") auto
  with False show ?thesis by (auto simp: walk_chain_def branching circular_def)
next
  case True
  then obtain r where r: "roots_of revs = [r]" and one: "\<forall>d. length (children_of revs d) \<le> 1" by blast
  then have "walk_chain revs (roots_of revs) = None \<longleftrightarrow> walk_loop revs [r] = None"
    by (simp add: walk_chain_def branching split: option.split)
  also have "\<dots> \<longleftrightarrow> (\<exists>a. (follows revs)\<^sup>*\<^sup>* r a \<and> (follows revs)\<^sup>+\<^sup>+ a a)"
  proof
    assume "walk_loop revs [r] = None"
    with walk_comes_to_an_end [of revs r "[r]"] show "\<exists>a. (follows revs)\<^sup>*\<^sup>* r a \<and> (follows revs)\<^sup>+\<^sup>+ a a" by auto
  next
    assume "\<exists>a. (follows revs)\<^sup>*\<^sup>* r a \<and> (follows revs)\<^sup>+\<^sup>+ a a"
    then obtain a where a: "(follows revs)\<^sup>*\<^sup>* r a" "(follows revs)\<^sup>+\<^sup>+ a a" by blast
    have "children_of revs x \<noteq> []" if "(follows revs)\<^sup>*\<^sup>* r x" for x
    proof -
      from on_the_way [OF one a(2,1) that] a(2) have "(follows revs)\<^sup>+\<^sup>+ x a" by (rule rtranclp_tranclp_tranclp)
      from tranclpD [OF this] obtain z where "follows revs x z" by blast
      then show ?thesis by (auto simp: follows_def)
    qed
    with walk_goes_on [of revs r "[r]"] show "walk_loop revs [r] = None" by simp
  qed
  also have "\<dots> \<longleftrightarrow> (\<exists>y p. y \<in> set revs \<and> rev_down y = Some p \<and> (follows revs)\<^sup>*\<^sup>* r (rev_id y) \<and> (follows revs)\<^sup>*\<^sup>* (rev_id y) p)"
  proof
    assume "\<exists>a. (follows revs)\<^sup>*\<^sup>* r a \<and> (follows revs)\<^sup>+\<^sup>+ a a"
    then obtain a where a: "(follows revs)\<^sup>*\<^sup>* r a" "(follows revs)\<^sup>+\<^sup>+ a a" by blast
    from a(2) obtain p where "(follows revs)\<^sup>*\<^sup>* a p" "follows revs p a" by (cases rule: tranclp.cases) (auto intro: tranclp_into_rtranclp)
    with a(1) show "\<exists>y p. y \<in> set revs \<and> rev_down y = Some p \<and> (follows revs)\<^sup>*\<^sup>* r (rev_id y)
        \<and> (follows revs)\<^sup>*\<^sup>* (rev_id y) p"
      unfolding follows_revision [of revs p a] by blast
  next
    assume "\<exists>y p. y \<in> set revs \<and> rev_down y = Some p \<and> (follows revs)\<^sup>*\<^sup>* r (rev_id y) \<and> (follows revs)\<^sup>*\<^sup>* (rev_id y) p"
    then obtain y p where y: "y \<in> set revs" "rev_down y = Some p" "(follows revs)\<^sup>*\<^sup>* r (rev_id y)"
      "(follows revs)\<^sup>*\<^sup>* (rev_id y) p" by blast
    from y(1,2) have "follows revs p (rev_id y)" by (auto simp: follows_revision)
    with y(4) have "(follows revs)\<^sup>+\<^sup>+ (rev_id y) (rev_id y)" by (rule rtranclp_into_tranclp1)
    with y(3) show "\<exists>a. (follows revs)\<^sup>*\<^sup>* r a \<and> (follows revs)\<^sup>+\<^sup>+ a a" by blast
  qed
  also have "\<dots> \<longleftrightarrow> circular revs" using r one by (auto simp: circular_def)
  finally show ?thesis .
qed

lemma circular_duplicate: "circular revs \<Longrightarrow> \<not> distinct (map rev_id revs)"
  using walk_chain_returns [of revs] walk_chain_diverges_iff [of revs] by auto

text \<open>
  C32: When inspecting a package does not return: exactly when its directories exist, its modules
  can be read, there is one root, no identifier has two children, and the definition of an
  identifier reached from the root follows one that descends from it. That takes a second
  definition of the identifier; for every other package, duplicates or not, it ends.
\<close>

theorem inspect_diverges_iff:
  "inspect_migration_package R sha pk = None \<longleftrightarrow> pk_versions_dir pk \<and> pk_migrations_dir pk
     \<and> (\<exists>revs defects. read_revisions (pk_versions pk) = Inr (revs, defects) \<and> circular revs)"
  by (auto simp: inspect_migration_package_def walk_chain_diverges_iff [symmetric] split: sum.split option.split prod.split)

text \<open>
  Such a package: \<open>a\<close> is a root, \<open>b\<close> follows \<open>a\<close>, and a third file, whose name does not match,
  defines \<open>a\<close> again as following \<open>b\<close>.
\<close>

definition cyclic_package :: package where
  "cyclic_package =
     \<lparr>pk_versions_dir = True, pk_migrations_dir = True,
      pk_versions =
        [\<lparr>vf_name = lit ''a.py'', vf_stem = lit ''a'',
          vf_body = [AnnAssign (TName (lit ''revision'')) (Some (LitStr (lit ''a''))),
                     AnnAssign (TName (lit ''down_revision'')) (Some LitNone)]\<rparr>,
         \<lparr>vf_name = lit ''b.py'', vf_stem = lit ''b'',
          vf_body = [AnnAssign (TName (lit ''revision'')) (Some (LitStr (lit ''b''))),
                     AnnAssign (TName (lit ''down_revision'')) (Some (LitStr (lit ''a'')))]\<rparr>,
         \<lparr>vf_name = lit ''c.py'', vf_stem = lit ''c'',
          vf_body = [AnnAssign (TName (lit ''revision'')) (Some (LitStr (lit ''a''))),
                     AnnAssign (TName (lit ''down_revision'')) (Some (LitStr (lit ''b'')))]\<rparr>],
      pk_sql = [], pk_files = []\<rparr>"

definition cyclic_revisions :: "revision list" where
  "cyclic_revisions =
     [\<lparr>rev_id = lit ''a'', rev_down = None, rev_sql = None\<rparr>,
      \<lparr>rev_id = lit ''b'', rev_down = Some (lit ''a''), rev_sql = None\<rparr>,
      \<lparr>rev_id = lit ''a'', rev_down = Some (lit ''b''), rev_sql = None\<rparr>]"

lemma cyclic_package_revisions:
  "read_revisions (pk_versions cyclic_package)
    = Inr (cyclic_revisions, [IdDoesNotMatchFile (lit ''c.py'') (lit ''a'')])"
  by code_simp

lemma cyclic_package_circular: "circular cyclic_revisions"
proof -
  have children: "children_of cyclic_revisions (lit ''a'') = [lit ''b'']"
    "children_of cyclic_revisions (lit ''b'') = [lit ''a'']" by code_simp+
  have "length (children_of cyclic_revisions d) \<le> 1" for d
    by (auto simp: children_of_def cyclic_revisions_def lit_eval)
  moreover have "roots_of cyclic_revisions = [lit ''a'']" by code_simp
  moreover have "(follows cyclic_revisions)\<^sup>*\<^sup>* (lit ''a'') (lit ''b'')"
    using children by (auto simp: follows_def)
  ultimately show ?thesis
    unfolding circular_def by (intro exI [of _ "lit ''a''"] exI [of _ "cyclic_revisions ! 2"] exI [of _ "lit ''b''"])
      (simp add: cyclic_revisions_def)
qed

theorem inspect_diverges_iff_witness: "\<forall>R sha. inspect_migration_package R sha cyclic_package = None"
  using inspect_diverges_iff cyclic_package_revisions cyclic_package_circular
  by (auto simp: cyclic_package_def)

section \<open>What an accepted package is\<close>

lemma sorted_set_Nil [simp]: "sorted_set xs = [] \<longleftrightarrow> xs = []"
  by (metis set_empty set_remdups set_sort sorted_set_def)

lemma set_sorted_set [simp]: "set (sorted_set xs) = set xs"
  by (simp add: sorted_set_def)

lemma distinct_count_list: "distinct xs \<longleftrightarrow> (\<forall>x\<in>set xs. count_list xs x \<le> 1)"
  by (induction xs) (force simp: count_list_0_iff)+

lemma graph_defects_NilD:
  assumes "graph_defects R revs sqls chain = []"
  shows "distinct (map rev_id revs)" "chain \<noteq> []"
    "map (ordinal R) chain = map int [1 ..< Suc (length chain)]"
    "\<And>r. r \<in> set revs \<Longrightarrow> rev_sql r = Some (sql_name (rev_id r))"
    "set sqls = sql_name ` rev_id ` set revs"
  using assms
  by (auto simp: graph_defects_def Let_def distinct_count_list filter_empty_conv
      revision_defects_def not_less split: if_splits)

lemma find_baseline_violations_Nil:
  "find_baseline_violations rp = [] \<longleftrightarrow>
     rp_defects rp = [] \<and> rp_revision_count rp = EXPECTED_REVISION_COUNT
     \<and> rp_sql_file_count rp = EXPECTED_REVISION_COUNT \<and> rp_roots rp = [EXPECTED_SCHEMA_ROOT]
     \<and> rp_heads rp = [EXPECTED_SCHEMA_HEAD] \<and> rp_sha256 rp = FROZEN_MIGRATION_PACKAGE_SHA256"
  by (simp add: find_baseline_violations_def)

lemma linear_chain_last_is_head:
  assumes "distinct (map rev_id revs)" "is_linear_chain revs chain"
  shows "last chain \<in> set (heads_of revs)"
proof -
  note path = linear_chain_root_path [OF assms]
  have "last chain \<in> set chain" using path(1) by (simp add: root_path_def)
  then have "last chain \<in> set (map rev_id revs)" using path(2) by simp
  moreover have "rev_down r \<noteq> Some (last chain)" if "r \<in> set revs" for r
  proof
    assume "rev_down r = Some (last chain)"
    then have d: "down_of revs (rev_id r) = Some (Some (last chain))"
      using down_of_self [OF assms(1) that] by simp
    from that path(2) obtain k where k: "k < length chain" "chain ! k = rev_id r"
      by (metis image_eqI in_set_conv_nth list.set_map)
    with root_path_nth [OF path(1) k(1)] d path(1)
    have "0 < k" "chain ! (k - 1) = chain ! (length chain - 1)"
      by (auto simp: root_path_def last_conv_nth split: if_splits)
    moreover from k(1) have "k - 1 < length chain" "length chain - 1 < length chain" by auto
    ultimately have "k - 1 = length chain - 1"
      using root_path_distinct [OF path(1)] nth_eq_iff_index_eq by metis
    with k(1) \<open>0 < k\<close> show False by linarith
  qed
  ultimately show ?thesis by (auto simp: heads_of_def map_filter_def)
qed

text \<open>The content an accepted package has, without the loops of the inspection.\<close>

definition is_frozen_history :: "pyrt \<Rightarrow> (nat list \<Rightarrow> pystr) \<Rightarrow> package \<Rightarrow> pystr list \<Rightarrow> bool" where
  "is_frozen_history R sha pk chain \<longleftrightarrow>
     pk_versions_dir pk \<and> pk_migrations_dir pk
     \<and> (\<exists>revs. read_revisions (pk_versions pk) = Inr (revs, []) \<and> is_linear_chain revs chain
          \<and> map rev_sql revs = map (\<lambda>r. Some (sql_name (rev_id r))) revs)
     \<and> length chain = 112 \<and> hd chain = lit ''001_5B'' \<and> last chain = lit ''112_5H5''
     \<and> map (ordinal R) chain = map int [1 ..< 113]
     \<and> length (pk_sql pk) = 112 \<and> set (pk_sql pk) = sql_name ` set chain
     \<and> compute_package_digest sha (pk_files pk) = Some FROZEN_MIGRATION_PACKAGE_SHA256"

lemma accepted_is_frozen_history:
  assumes "validate_frozen_baseline R sha pk = Some (Inr rp)"
  shows "is_frozen_history R sha pk (rp_chain rp)"
proof -
  from assms have ins: "inspect_migration_package R sha pk = Some (Inr rp)"
    and none: "find_baseline_violations rp = []"
    by (auto simp: validate_frozen_baseline_def split: option.splits sum.splits list.splits)
  from ins obtain revs ds chain h where
    dirs: "pk_versions_dir pk" "pk_migrations_dir pk"
    and revs: "read_revisions (pk_versions pk) = Inr (revs, ds)"
    and chain: "walk_chain revs (roots_of revs) = Some chain"
    and h: "compute_package_digest sha (pk_files pk) = Some h"
    and rp: "rp = \<lparr>rp_revision_count = length revs, rp_sql_file_count = length (pk_sql pk),
      rp_roots = roots_of revs, rp_heads = heads_of revs, rp_chain = chain, rp_sha256 = h,
      rp_defects = ds @ graph_defects R revs (pk_sql pk) chain\<rparr>"
    by (auto simp: inspect_migration_package_def split: if_splits option.splits sum.splits prod.splits)
  note ok = none [unfolded find_baseline_violations_Nil rp, simplified]
  then have "graph_defects R revs (pk_sql pk) chain = []" by simp
  note gd = graph_defects_NilD [OF this]
  have lin: "is_linear_chain revs chain" by (rule walk_chain_sound [OF gd(1) chain gd(2)])
  note path = linear_chain_root_path [OF gd(1) lin]
  have "hd chain = EXPECTED_SCHEMA_ROOT" using linear_chain_roots [OF lin] ok by simp
  moreover have "last chain = EXPECTED_SCHEMA_HEAD"
    using linear_chain_last_is_head [OF gd(1) lin] ok by simp
  moreover have "length chain = 112" using path(3) ok by (simp add: EXPECTED_REVISION_COUNT_def)
  ultimately show ?thesis unfolding is_frozen_history_def
    using dirs revs lin gd ok h path(2) rp
    by (auto simp: EXPECTED_SCHEMA_ROOT_def EXPECTED_SCHEMA_HEAD_def EXPECTED_REVISION_COUNT_def)
qed

lemma linear_chain_heads:
  assumes "distinct (map rev_id revs)" "is_linear_chain revs chain"
  shows "heads_of revs = [last chain]"
proof -
  note path = linear_chain_root_path [OF assms]
  have "i = last chain" if i: "i \<in> set (heads_of revs)" for i
  proof (rule ccontr)
    assume ne: "i \<noteq> last chain"
    from i have "i \<in> set chain" unfolding path(2) by (simp add: heads_of_def)
    then obtain k where k: "k < length chain" "chain ! k = i" by (auto simp: in_set_conv_nth)
    with ne have "Suc k < length chain"
      by (metis Suc_lessI diff_Suc_1 last_conv_nth length_0_conv less_nat_zero_code)
    from root_path_nth [OF path(1) this] k have "down_of revs (chain ! Suc k) = Some (Some i)" by simp
    then obtain r where "r \<in> set revs" "rev_down r = Some i"
      using rev_by_Some by (fastforce simp: down_of_def)
    with i show False by (force simp: heads_of_def map_filter_def)
  qed
  moreover have "last chain \<in> set (heads_of revs)" by (rule linear_chain_last_is_head [OF assms])
  ultimately have "set (heads_of revs) = {last chain}" by blast
  moreover have "distinct (heads_of revs)" by (simp add: heads_of_def sorted_set_def)
  ultimately show ?thesis by (intro singleton_list)
qed

lemma frozen_history_accepted:
  assumes "is_frozen_history R sha pk chain"
  shows "\<exists>rp. validate_frozen_baseline R sha pk = Some (Inr rp) \<and> rp_chain rp = chain"
proof -
  from assms obtain revs where
    dirs: "pk_versions_dir pk" "pk_migrations_dir pk"
    and revs: "read_revisions (pk_versions pk) = Inr (revs, [])"
    and lin: "is_linear_chain revs chain"
    and wraps: "map rev_sql revs = map (\<lambda>r. Some (sql_name (rev_id r))) revs"
    and chain: "length chain = 112" "hd chain = lit ''001_5B''" "last chain = lit ''112_5H5''"
    and ords: "map (ordinal R) chain = map int [1 ..< 113]"
    and sql: "length (pk_sql pk) = 112" "set (pk_sql pk) = sql_name ` set chain"
    and h: "compute_package_digest sha (pk_files pk) = Some FROZEN_MIGRATION_PACKAGE_SHA256"
    by (auto simp: is_frozen_history_def)
  from lin obtain rs where rs: "mset rs = mset revs" "map rev_id rs = chain"
    by (rule is_linear_chainE)
  have "distinct (map (ordinal R) chain)" unfolding ords by (simp add: distinct_map inj_on_def)
  then have "distinct (map rev_id rs)" using rs(2) by (simp add: distinct_map)
  then have dist: "distinct (map rev_id revs)"
    using rs(1) by (metis mset_eq_imp_distinct_iff mset_map)
  note path = linear_chain_root_path [OF dist lin]
  have ne: "chain \<noteq> []" using path(1) by (simp add: root_path_def)
  have "revision_defects (map rev_id revs) r = []" if "r \<in> set revs" for r
  proof -
    from that wraps have "rev_sql r = Some (sql_name (rev_id r))" by simp
    moreover have "d \<in> rev_id ` set revs" if d: "rev_down r = Some d" for d
    proof -
      from \<open>r \<in> set revs\<close> path(2) obtain k where k: "k < length chain" "chain ! k = rev_id r"
        by (metis image_eqI in_set_conv_nth list.set_map)
      with root_path_nth [OF path(1) k(1)] down_of_self [OF dist \<open>r \<in> set revs\<close>] d
      have "d \<in> set chain" by (auto split: if_splits)
      with path(2) show ?thesis by simp
    qed
    ultimately show ?thesis by (auto simp: revision_defects_def split: option.splits)
  qed
  moreover have "ordinal R (chain ! k) = int (Suc k)" if "k < length chain" for k
    using arg_cong [OF ords, of "\<lambda>xs. xs ! k"] that chain(1) by simp
  ultimately have gd: "graph_defects R revs (pk_sql pk) chain = []"
    using dist ne ords chain(1) sql(2) path(2)
    by (auto simp: graph_defects_def Let_def distinct_count_list filter_empty_conv not_less)
  have walk: "walk_chain revs (roots_of revs) = Some chain"
    by (rule walk_chain_linear [OF dist lin])
  let ?rp = "\<lparr>rp_revision_count = length revs, rp_sql_file_count = length (pk_sql pk),
      rp_roots = roots_of revs, rp_heads = heads_of revs, rp_chain = chain,
      rp_sha256 = FROZEN_MIGRATION_PACKAGE_SHA256, rp_defects = []\<rparr>"
  have "inspect_migration_package R sha pk = Some (Inr ?rp)"
    using dirs revs walk h gd by (simp add: inspect_migration_package_def)
  moreover have "find_baseline_violations ?rp = []"
    using linear_chain_roots [OF lin] linear_chain_heads [OF dist lin] chain sql(1) path(3)
    by (simp add: find_baseline_violations_Nil EXPECTED_SCHEMA_ROOT_def EXPECTED_SCHEMA_HEAD_def
        EXPECTED_REVISION_COUNT_def)
  ultimately show ?thesis by (simp add: validate_frozen_baseline_def)
qed

text \<open>
  C30: \<open>validate_frozen_baseline\<close> accepts a package, with the chain it reports, exactly when the
  package is one linear history of 112 revisions from \<open>001_5B\<close> to \<open>112_5H5\<close>, numbered 1 to
  112 in that order, each wrapping the SQL file of its own name, with no other SQL file, and
  with the frozen content hash.
\<close>

theorem validate_frozen_baseline_iff:
  "(\<exists>rp. validate_frozen_baseline R sha pk = Some (Inr rp) \<and> rp_chain rp = chain)
    \<longleftrightarrow> is_frozen_history R sha pk chain"
  using accepted_is_frozen_history frozen_history_accepted by blast

section \<open>The digest does not depend on line endings\<close>

text \<open>A checkout that converts line endings turns every line feed into CR LF.\<close>

definition to_crlf :: "nat list \<Rightarrow> nat list" where
  "to_crlf bs = concat (map (\<lambda>b. if b = c_nl then [c_cr, c_nl] else [b]) bs)"

lemma normalize_newlines_Cons:
  "a \<noteq> c_cr \<Longrightarrow> normalize_newlines (a # bs) = a # normalize_newlines bs"
  by (cases bs) auto

lemma normalize_to_crlf: "normalize_newlines (to_crlf bs) = bs"
proof (induction bs)
  case Nil
  then show ?case by (simp add: to_crlf_def)
next
  case (Cons b bs)
  show ?case
  proof (cases "b = c_cr")
    case True
    have "normalize_newlines (c_cr # to_crlf bs) = c_cr # normalize_newlines (to_crlf bs)"
      by (cases bs) (auto simp: to_crlf_def)
    with True Cons show ?thesis by (simp add: to_crlf_def)
  next
    case False
    with Cons show ?thesis by (simp add: to_crlf_def normalize_newlines_Cons)
  qed
qed

lemma normalize_lf: "c_cr \<notin> set bs \<Longrightarrow> normalize_newlines bs = bs"
  by (induction bs) (auto simp: normalize_newlines_Cons)

lemma sort_key_map_same:
  assumes "\<And>x. f (g x) = f x"
  shows "sort_key f (map g xs) = map g (sort_key f xs)"
proof -
  have "insort_key f (g x) (map g ys) = map g (insort_key f x ys)" for x ys
    by (induction ys) (auto simp: assms)
  then show ?thesis by (induction xs) auto
qed

text \<open>
  converting any of the package's line-feed files to CR LF leaves the digest unchanged
  (\<open>crlf\<close> picks the files that were converted).
\<close>

theorem digest_line_ending_invariant:
  assumes "\<forall>f\<in>set files. c_cr \<notin> set (pf_bytes f)"
  shows "compute_package_digest sha
      (map (\<lambda>f. if crlf f then f\<lparr>pf_bytes := to_crlf (pf_bytes f)\<rparr> else f) files)
    = compute_package_digest sha files"
proof -
  let ?g = "\<lambda>f. if crlf f then f\<lparr>pf_bytes := to_crlf (pf_bytes f)\<rparr> else f"
  have entry: "digest_entry sha (?g f) = digest_entry sha f" if "c_cr \<notin> set (pf_bytes f)" for f
    using that by (simp add: digest_entry_def normalize_to_crlf normalize_lf cong: option.case_cong)
  have feed: "digest_feed sha (map ?g fs) = digest_feed sha fs"
    if "\<forall>f\<in>set fs. c_cr \<notin> set (pf_bytes f)" for fs
    using that entry by (induction fs) (auto simp del: if_split cong: option.case_cong)
  have "sort_key pf_path (map ?g fs) = map ?g (sort_key pf_path fs)" for fs
    by (rule sort_key_map_same) simp
  then show ?thesis using feed assms
    by (simp add: compute_package_digest_def filter_map o_def if_distrib cong: if_cong)
qed

section \<open>Witnesses\<close>

theorem walk_chain_correct_witness:
  "is_linear_chain [\<lparr>rev_id = lit ''b'', rev_down = Some (lit ''a''), rev_sql = None\<rparr>,
      \<lparr>rev_id = lit ''a'', rev_down = None, rev_sql = None\<rparr>] [lit ''a'', lit ''b'']"
proof -
  let ?revs = "[\<lparr>rev_id = lit ''b'', rev_down = Some (lit ''a''), rev_sql = None\<rparr>,
      \<lparr>rev_id = lit ''a'', rev_down = None, rev_sql = None\<rparr>]"
  have "distinct (map rev_id ?revs)" by simp
  moreover have "walk_chain ?revs (roots_of ?revs) = Some [lit ''a'', lit ''b'']" by code_simp
  ultimately show ?thesis using walk_chain_correct [of ?revs] by auto
qed

theorem digest_line_ending_invariant_witness:
  "compute_package_digest (\<lambda>bs. lit ''00'')
      (map (\<lambda>f. if pf_path f = lit ''a'' then f\<lparr>pf_bytes := to_crlf (pf_bytes f)\<rparr> else f)
        [\<lparr>pf_path = lit ''a'', pf_bytes = [65, 10, 66], pf_generated = False\<rparr>])
    = Some (lit ''00'')"
  by (subst digest_line_ending_invariant) code_simp+

end
