(* ===== verification/RedactionPatterns.thy ===== *)
theory RedactionPatterns
  imports PyRegex
begin

text \<open>
  The constants and compiled patterns at the head of
  \<open>platform/infrastructure/observability/redaction.py\<close>, in the order of the file. A pattern
  that uses \<open>\w\<close>, \<open>\d\<close> or \<open>\b\<close> takes the tables of the runtime.
\<close>

section \<open>Markers and limits\<close>

definition REDACTED :: pystr where "REDACTED = lit ''[REDACTED]''"
definition TRUNCATED :: pystr where "TRUNCATED = lit ''[TRUNCATED]''"
definition CYCLE :: pystr where "CYCLE = lit ''[CYCLE]''"
definition REPEATED :: pystr where "REPEATED = lit ''[REPEATED]''"
definition UNREADABLE :: pystr where "UNREADABLE = lit ''[UNREADABLE]''"
definition UNSUPPORTED :: pystr where "UNSUPPORTED = lit ''[UNSUPPORTED]''"
definition TRUNCATED_SENSITIVE :: pystr where
  "TRUNCATED_SENSITIVE = lit ''[TRUNCATED_SENSITIVE_VALUE]''"

definition MAX_DEPTH :: nat where "MAX_DEPTH = 8"
definition MAX_ITEMS :: nat where "MAX_ITEMS = 200"
definition MAX_EVENT_FIELDS :: nat where "MAX_EVENT_FIELDS = MAX_ITEMS"
definition MAX_STRING_LENGTH :: nat where "MAX_STRING_LENGTH = 16384"
definition MAX_EVENT_NODES :: int where "MAX_EVENT_NODES = 2048"
definition MAX_EVENT_SCAN :: int where "MAX_EVENT_SCAN = 524288"
definition MAX_EVENT_OUTPUT :: int where "MAX_EVENT_OUTPUT = 65536"
definition MAX_JSON_NESTING :: nat where "MAX_JSON_NESTING = 16"
definition JSON_WORK_FACTOR :: nat where "JSON_WORK_FACTOR = 8"
definition MAX_DECODE_ROUNDS :: nat where "MAX_DECODE_ROUNDS = 3"
definition MAX_VIEW_LENGTH :: nat where "MAX_VIEW_LENGTH = 4 * MAX_STRING_LENGTH"
definition MAX_KEY_LENGTH :: nat where "MAX_KEY_LENGTH = 256"
definition MAX_SUBSCRIPT_LENGTH :: nat where "MAX_SUBSCRIPT_LENGTH = 64"
definition MAX_SWALLOWED_KEYS :: nat where "MAX_SWALLOWED_KEYS = 8"
definition MAX_INT_BITS :: nat where "MAX_INT_BITS = 128"
definition MAX_DECIMAL_SIZE :: nat where "MAX_DECIMAL_SIZE = 256"
definition MAX_SCALAR_TEXT :: nat where "MAX_SCALAR_TEXT = 64"
definition MAX_MESSAGE_LENGTH :: nat where "MAX_MESSAGE_LENGTH = 2048"
definition MAX_EXCEPTION_CHAIN :: nat where "MAX_EXCEPTION_CHAIN = 10"
definition MAX_SUB_EXCEPTIONS :: nat where "MAX_SUB_EXCEPTIONS = 5"
definition MAX_SUMMARY_ERRORS :: nat where "MAX_SUMMARY_ERRORS = 20"
definition MAX_TRACEBACK_FRAMES :: nat where "MAX_TRACEBACK_FRAMES = 32"
definition MAX_TRACEBACK_WALK :: nat where "MAX_TRACEBACK_WALK = 4096"
definition MAX_TRACEBACK_LINES :: int where "MAX_TRACEBACK_LINES = 192"
definition MAX_TRACEBACK_LENGTH :: int where "MAX_TRACEBACK_LENGTH = int MAX_STRING_LENGTH - 64"
definition MAX_DESCRIPTION_LENGTH :: nat where "MAX_DESCRIPTION_LENGTH = 8192"
definition MAX_FILENAME_LENGTH :: nat where "MAX_FILENAME_LENGTH = 512"
definition MAX_IDENTIFIER_LENGTH :: nat where "MAX_IDENTIFIER_LENGTH = 128"
definition QUERY_LOOKBACK :: nat where "QUERY_LOOKBACK = 4096"
definition SEPARATOR_COST :: nat where "SEPARATOR_COST = 2"

section \<open>Keys\<close>

text \<open>\<open>[_-]?\<close>, an alternation of literals, and a bounded choice, all under \<open>IGNORECASE\<close>.\<close>

definition rx_sep :: rx where
  "rx_sep = rx_opt (RxSet (\<lambda>c. c = c_under \<or> c = c_dash))"

definition rx_words :: "string list \<Rightarrow> rx" where
  "rx_words ws = rx_alts (map (\<lambda>w. rx_ilit (lit w)) ws)"

text \<open>Two words with an optional separator between them.\<close>

definition rx_pair :: "string \<Rightarrow> string \<Rightarrow> rx" where
  "rx_pair a b = rx_seq [rx_ilit (lit a), rx_sep, rx_ilit (lit b)]"

definition rx_url_word :: rx where
  "rx_url_word = rx_alts [RxSeq (rx_ilit (lit ''ur'')) (RxAlt (rx_ilit (lit ''l'')) (rx_ilit (lit ''i''))),
     rx_ilit (lit ''link''), rx_ilit (lit ''href'')]"

definition CAPABILITY_KEY :: rx where
  "CAPABILITY_KEY = rx_alts
     [rx_pair ''pre'' ''sign'',
      rx_seq [rx_ilit (lit ''signed''), rx_sep, RxAlt rx_url_word (rx_ilit (lit ''request''))],
      rx_seq [rx_ilit (lit ''sas''), rx_sep, rx_ilit (lit ''ur''),
        RxAlt (rx_ilit (lit ''l'')) (rx_ilit (lit ''i''))],
      rx_pair ''result'' ''ref'',
      rx_seq
        [rx_alts
          [rx_words [''download'', ''upload'', ''recording'', ''media'', ''playback'', ''stream'',
             ''audio'', ''voicemail'', ''transcript'', ''export'', ''storage'', ''object'', ''blob'',
             ''bucket''],
           RxSeq (RxNotBehind (map ci_eq (lit ''pro''))) (rx_ilit (lit ''file'')),
           rx_words [''attachment'', ''artifact'']],
         rx_sep, rx_url_word]]"

definition rx_authorization :: rx where
  "rx_authorization = rx_seq [rx_ilit (lit ''authori''),
     RxAlt (rx_ilit (lit ''s'')) (rx_ilit (lit ''z'')), rx_ilit (lit ''ation'')]"

definition COMMON_KEY :: "rx list" where
  "COMMON_KEY =
     [rx_seq [rx_ilit (lit ''passw''), rx_opt (rx_ilit (lit ''or'')), rx_ilit (lit ''d'')],
      rx_words [''passphrase'', ''pwd'', ''secret'', ''token''],
      rx_authorization,
      rx_words [''cookie''],
      rx_pair ''api'' ''key'',
      rx_words [''credential''],
      rx_pair ''private'' ''key'',
      rx_words [''signature''],
      rx_seq [rx_ilit (lit ''session''), rx_sep, rx_words [''id'', ''key'']],
      rx_pair ''access'' ''key'',
      rx_seq [rx_ilit (lit ''key''), rx_sep, rx_ilit (lit ''pair''), rx_sep, rx_ilit (lit ''id'')],
      rx_seq [rx_ilit (lit ''google''), rx_sep, rx_ilit (lit ''access''), rx_sep, rx_ilit (lit ''id'')]]"

definition SENSITIVE_KEY :: rx where
  "SENSITIVE_KEY = rx_alts (COMMON_KEY @
     [rx_words [''dsn'', ''conninfo''], rx_pair ''connection'' ''string'', rx_words [''phone'', ''email''],
      CAPABILITY_KEY])"

definition SENSITIVE_TEXT_KEY :: rx where
  "SENSITIVE_TEXT_KEY = rx_alts (COMMON_KEY @ [rx_words [''apikey''], CAPABILITY_KEY])"

definition SIGNING_PARAMETER :: "pyrt \<Rightarrow> rx" where
  "SIGNING_PARAMETER R = rx_alts
     [rx_words [''sig'', ''signature''],
      rx_seq [rx_ilit (lit ''x-''), rx_words [''amz'', ''goog'', ''oss''], rx_ilit (lit ''-''),
        rx_star (RxSet (\<lambda>c. is_word R c \<or> c = c_dash))],
      rx_words [''key-pair-id'', ''security-token''],
      RxSeq (rx_words [''aws'', ''oss'']) (rx_ilit (lit ''accesskeyid'')),
      rx_words [''googleaccessid''],
      RxSeq (rx_ilit (lit ''q-''))
        (rx_words [''signature'', ''sign-algorithm'', ''sign-time'', ''key-time'', ''ak''])]"

definition is_scheme_character :: "pychar \<Rightarrow> bool" where
  "is_scheme_character c \<longleftrightarrow> is_aalnum c \<or> c = c_plus \<or> c = c_dot \<or> c = c_dash"

definition HEADER_KEY :: rx where
  "HEADER_KEY = RxAlt rx_authorization (rx_ilit (lit ''cookie''))"

section \<open>Runs and delimiters\<close>

definition is_key_char :: "pyrt \<Rightarrow> pychar \<Rightarrow> bool" where
  "is_key_char R c \<longleftrightarrow> is_word R c \<or> c = c_dot \<or> c = c_dash \<or> c = c_percent"

definition KEY_RUN :: "pyrt \<Rightarrow> rx" where
  "KEY_RUN R = rx_plus (RxSet (is_key_char R))"

definition TOKEN :: rx where
  "TOKEN = rx_plus (RxSet (\<lambda>c. \<not> is_space c))"

definition is_newline :: "pychar \<Rightarrow> bool" where
  "is_newline c \<longleftrightarrow> c = c_cr \<or> c = c_nl"

text \<open>\<open>_VALUE_DELIMITERS\<close>\<close>

definition is_value_delimiter :: "pychar \<Rightarrow> bool" where
  "is_value_delimiter c \<longleftrightarrow> c = c_space \<or> (9 \<le> c \<and> c \<le> 13)"

definition is_ambiguous :: "pychar \<Rightarrow> bool" where
  "is_ambiguous c \<longleftrightarrow> c \<le> 31 \<or> (127 \<le> c \<and> c \<le> 160) \<or> c = 173 \<or> c = 5760 \<or> c = 6158
     \<or> (8192 \<le> c \<and> c \<le> 8207) \<or> (8232 \<le> c \<and> c \<le> 8239) \<or> (8287 \<le> c \<and> c \<le> 8292)
     \<or> c = 12288 \<or> c = 65279"

definition CUT_INDICATOR :: rx where
  "CUT_INDICATOR = rx_words [''://'', ''@'', ''passw'', ''pwd'', ''secret'', ''token'', ''authori'',
     ''cookie'', ''credential'', ''key'', ''signature'', ''session'', ''bearer'', ''eyJ'']"

definition spaces1 :: rx where
  "spaces1 = rx_plus (RxSet is_space)"

definition DIGEST :: "pyrt \<Rightarrow> rx" where
  "DIGEST R = rx_seq [RxWordBound (is_word R), RxGroup 1 (rx_ilit (lit ''digest'')), spaces1,
     RxAhead (rx_seq [rx_plus (RxSet ci_alpha), rx_star (RxSet is_space), rx_ch c_eq]),
     rx_star (RxSet (\<lambda>c. \<not> is_newline c))]"

definition is_json_opener :: "pychar \<Rightarrow> bool" where
  "is_json_opener c \<longleftrightarrow> c = c_lbrace \<or> c = c_lbrack"

definition is_authority_end :: "pychar \<Rightarrow> bool" where
  "is_authority_end c \<longleftrightarrow> c = c_slash \<or> c = c_quest \<or> c = c_hash"

definition is_query_start :: "pychar \<Rightarrow> bool" where
  "is_query_start c \<longleftrightarrow> c = c_quest \<or> c = c_hash"

definition is_parameter_end :: "pychar \<Rightarrow> bool" where
  "is_parameter_end c \<longleftrightarrow> c = c_amp \<or> c = c_hash"

definition is_signed_parameter_end :: "pychar \<Rightarrow> bool" where
  "is_signed_parameter_end c \<longleftrightarrow> c = c_amp \<or> c = c_hash \<or> c = c_quest"

definition PORTS :: "pyrt \<Rightarrow> rx" where
  "PORTS R = RxSeq (rx_star (RxSet (is_digit R)))
     (rx_star (rx_seq [rx_ch c_comma, rx_star (RxSet (\<lambda>c. c \<noteq> c_colon \<and> c \<noteq> c_comma \<and> c \<noteq> c_at)),
        rx_opt (RxSeq (rx_ch c_colon) (rx_star (RxSet (is_digit R))))]))"

definition DRIVE_PATH :: rx where
  "DRIVE_PATH = rx_seq [rx_star (RxSet (\<lambda>c. c = c_dquote \<or> c = c_squote \<or> c = c_lpar \<or> c = c_lbrack)),
     RxSet is_aalpha, rx_ch c_colon, RxSet (\<lambda>c. c = c_backslash \<or> c = c_slash)]"

definition is_jwt_char :: "pychar \<Rightarrow> bool" where
  "is_jwt_char c \<longleftrightarrow> is_aalnum c \<or> c = c_under \<or> c = c_dot \<or> c = c_dash"

definition JWT_RUN :: rx where
  "JWT_RUN = rx_plus (RxSet is_jwt_char)"

definition pem_label :: rx where
  "pem_label = rx_rep (RxSet (\<lambda>c. is_aupper c \<or> c = c_space)) 0 40"

definition PEM :: rx where
  "PEM = rx_seq [rx_lit (lit ''-----BEGIN ''), pem_label, rx_lit (lit ''PRIVATE KEY-----''),
     RxRep False (RxSet (\<lambda>_. True)) 0 None,
     RxAlt (rx_seq [rx_lit (lit ''-----END ''), pem_label, rx_lit (lit ''PRIVATE KEY-----'')]) RxEnd]"

definition BEARER :: "pyrt \<Rightarrow> rx" where
  "BEARER R = rx_seq [RxWordBound (is_word R), RxGroup 1 (rx_ilit (lit ''bearer'')), spaces1,
     rx_plus (RxSet (\<lambda>c. \<not> is_space c))]"

text \<open>\<open>[A-Za-z0-9\-._~+/]\<close> under \<open>IGNORECASE\<close>.\<close>

definition is_token_char :: "pychar \<Rightarrow> bool" where
  "is_token_char c \<longleftrightarrow> ci_alpha c \<or> is_adigit c \<or> c = c_dash \<or> c = c_dot \<or> c = c_under
     \<or> c = 126 \<or> c = c_plus \<or> c = c_slash"

definition TOKEN_VALUE :: "pyrt \<Rightarrow> rx" where
  "TOKEN_VALUE R = rx_seq [RxWordBound (is_word R), RxGroup 1 (rx_ilit (lit ''token'')), spaces1,
     RxAhead (RxSeq (rx_rep (RxSet is_token_char) 0 256) (RxSet (is_digit R))),
     RxRep True (RxSet is_token_char) 16 None, rx_star (rx_ch c_eq)]"

section \<open>Escapes\<close>

definition BACKSLASH_ESCAPE :: rx where
  "BACKSLASH_ESCAPE = RxSeq (rx_ch c_backslash)
     (rx_alts [RxSeq (rx_ch 117) (RxGroup 1 (rx_rep (RxSet is_hex) 4 4)),
       RxSeq (rx_ch 120) (RxGroup 2 (rx_rep (RxSet is_hex) 2 2)),
       RxSeq (rx_ch 85) (RxGroup 3 (rx_rep (RxSet is_hex) 8 8)),
       RxGroup 4 (RxSet (\<lambda>c. c \<in> {c_backslash, c_slash, 110, 116, 114, 102, 118}))])"

definition ENTITY :: rx where
  "ENTITY = rx_seq [rx_ch c_amp,
     rx_alts [RxSeq (rx_ch c_hash) (rx_rep (RxSet is_adigit) 1 7),
       rx_seq [rx_ch c_hash, RxSet (\<lambda>c. c = 120 \<or> c = 88), rx_rep (RxSet is_hex) 1 6],
       RxSeq (RxSet is_aalpha) (rx_rep (RxSet is_aalnum) 1 31)],
     rx_ch c_semi]"

definition is_invisible :: "pychar \<Rightarrow> bool" where
  "is_invisible c \<longleftrightarrow> c = 173 \<or> (8203 \<le> c \<and> c \<le> 8207) \<or> (8234 \<le> c \<and> c \<le> 8238)
     \<or> (8288 \<le> c \<and> c \<le> 8292) \<or> c = 65279"

section \<open>Names\<close>

definition is_name_char :: "pychar \<Rightarrow> bool" where
  "is_name_char c \<longleftrightarrow> is_aalnum c \<or> c = c_under \<or> c = c_dot \<or> c = c_lt \<or> c = c_gt"

definition TYPE_NAME :: rx where
  "TYPE_NAME = RxSeq (RxSet (\<lambda>c. is_aalpha c \<or> c = c_under)) (rx_rep (RxSet is_name_char) 0 127)"

definition FRAME_NAME :: rx where
  "FRAME_NAME = RxSeq (RxSet (\<lambda>c. is_aalpha c \<or> c = c_under \<or> c = c_lt))
     (rx_rep (RxSet is_name_char) 0 127)"

datatype identifier_kind = LoggerName | ServiceName | EnvironmentName | LevelName | Timestamp | RequestId

definition rx_dotted_name :: rx where
  "rx_dotted_name = RxSeq (RxSet is_aalnum)
     (rx_star (RxSet (\<lambda>c. is_aalnum c \<or> c = c_under \<or> c = c_dot \<or> c = c_dash)))"

definition adigits :: "nat \<Rightarrow> nat \<Rightarrow> rx" where
  "adigits lo hi = rx_rep (RxSet is_adigit) lo hi"

definition rx_python_name :: rx where
  "rx_python_name = RxSeq (RxSet (\<lambda>c. is_aalpha c \<or> c = c_under))
     (rx_star (RxSet (\<lambda>c. is_aalnum c \<or> c = c_under)))"

fun IDENTIFIER_GRAMMARS :: "identifier_kind \<Rightarrow> rx" where
  "IDENTIFIER_GRAMMARS LoggerName =
     RxSeq rx_python_name (rx_star (RxSeq (rx_ch c_dot) rx_python_name))"
| "IDENTIFIER_GRAMMARS ServiceName = rx_dotted_name"
| "IDENTIFIER_GRAMMARS EnvironmentName = rx_dotted_name"
| "IDENTIFIER_GRAMMARS LevelName =
     RxAlt (rx_plus (RxSet is_aalpha))
       (rx_seq [RxAlt (rx_ch 76) (rx_ch 108), rx_lit (lit ''evel ''), adigits 1 4])"
| "IDENTIFIER_GRAMMARS Timestamp =
     rx_seq [adigits 4 4, rx_ch c_dash, adigits 2 2, rx_ch c_dash, adigits 2 2,
       RxSet (\<lambda>c. c = 84 \<or> c = c_space),
       rx_rep (RxSet (\<lambda>c. is_adigit c \<or> c = c_colon \<or> c = c_dot)) 5 15,
       rx_opt (RxAlt (rx_ch 90)
         (RxSeq (RxSet (\<lambda>c. c = c_plus \<or> c = c_dash)) (rx_rep (RxSet (\<lambda>c. is_adigit c \<or> c = c_colon)) 2 5)))]"
| "IDENTIFIER_GRAMMARS RequestId = rx_dotted_name"

section \<open>Quotes, brackets, placeholders\<close>

definition FRAGMENT_OPEN :: pychar where "FRAGMENT_OPEN = 57344"
definition FRAGMENT_CLOSE :: pychar where "FRAGMENT_CLOSE = 57345"
definition REPLACEMENT :: pychar where "REPLACEMENT = 65533"

definition FRAGMENT :: rx where
  "FRAGMENT = rx_seq [rx_ch FRAGMENT_OPEN, RxGroup 1 (rx_plus (RxSet is_adigit)), rx_ch FRAGMENT_CLOSE]"

text \<open>\<open>text.translate(_NO_FRAGMENT_MARKS)\<close>\<close>

definition no_fragment_marks :: "pystr \<Rightarrow> pystr" where
  "no_fragment_marks t = map (\<lambda>c. if c = FRAGMENT_OPEN \<or> c = FRAGMENT_CLOSE then REPLACEMENT else c) t"

definition is_quote :: "pychar \<Rightarrow> bool" where
  "is_quote c \<longleftrightarrow> c = c_dquote \<or> c = c_squote"

definition is_opener :: "pychar \<Rightarrow> bool" where
  "is_opener c \<longleftrightarrow> c = c_lpar \<or> c = c_lbrack \<or> c = c_lbrace"

definition is_closer :: "pychar \<Rightarrow> bool" where
  "is_closer c \<longleftrightarrow> c = c_rpar \<or> c = c_rbrack \<or> c = c_rbrace"

definition is_key_trailer :: "pychar \<Rightarrow> bool" where
  "is_key_trailer c \<longleftrightarrow> c = c_backslash \<or> is_quote c \<or> is_closer c \<or> c = c_plus"

definition is_string_prefix :: "pychar \<Rightarrow> bool" where
  "is_string_prefix c \<longleftrightarrow> c \<in> {98, 66, 117, 85, 114, 82, 101, 69}"

lemmas char_class_defs [lit_eval] =
  is_newline_def is_value_delimiter_def is_ambiguous_def is_json_opener_def is_authority_end_def
  is_query_start_def is_parameter_end_def is_signed_parameter_end_def is_jwt_char_def
  is_token_char_def is_invisible_def is_name_char_def is_quote_def is_opener_def is_closer_def
  is_key_trailer_def is_string_prefix_def is_key_char_def is_scheme_character_def

end
