(* ===== verification/Decoding.thy ===== *)
theory Decoding
  imports RedactionPatterns
begin

text \<open>
  The decoding section of \<open>redaction.py\<close>: backslash escapes, percent escapes, character
  references and compatibility normalisation, one round (\<open>decode_once\<close>) and repeated
  (\<open>decoded_forms\<close>), and the classification of keys that rests on it
  (\<open>names_sensitive_data\<close>).

  The library functions it calls are written out: \<open>urllib.parse.unquote\<close> (percent decoding
  to bytes, then UTF-8 with replacement of malformed sequences) and \<open>html.unescape\<close> of one
  complete reference. The table of named references and NFKC are fields of \<open>pyrt\<close>.
\<close>

section \<open>Percent decoding\<close>

fun unquote_to_bytes :: "pystr \<Rightarrow> nat list" where
  "unquote_to_bytes (c # a # b # t) =
     (if c = c_percent \<and> is_hex a \<and> is_hex b then hex_value [a, b] # unquote_to_bytes t
      else c # unquote_to_bytes (a # b # t))"
| "unquote_to_bytes t = t"

text \<open>\<open>bytes.decode("utf-8", "replace")\<close>: each maximal malformed part becomes U+FFFD.\<close>

definition utf8_follow :: "nat \<Rightarrow> nat option" where
  "utf8_follow b = (if 194 \<le> b \<and> b \<le> 223 then Some 1 else if 224 \<le> b \<and> b \<le> 239 then Some 2
     else if 240 \<le> b \<and> b \<le> 244 then Some 3 else None)"

definition utf8_cont :: "nat \<Rightarrow> bool" where
  "utf8_cont b \<longleftrightarrow> 128 \<le> b \<and> b \<le> 191"

definition utf8_second :: "nat \<Rightarrow> nat \<Rightarrow> bool" where
  "utf8_second lead b \<longleftrightarrow> utf8_cont b \<and> (lead = 224 \<longrightarrow> 160 \<le> b) \<and> (lead = 237 \<longrightarrow> b < 160)
     \<and> (lead = 240 \<longrightarrow> 144 \<le> b) \<and> (lead = 244 \<longrightarrow> b < 144)"

definition utf8_present :: "nat \<Rightarrow> nat \<Rightarrow> nat list \<Rightarrow> nat" where
  "utf8_present lead n bs = (case bs of [] \<Rightarrow> 0
     | b # bs' \<Rightarrow> if utf8_second lead b then Suc (length (takeWhile utf8_cont (take (n - 1) bs'))) else 0)"

definition utf8_base :: "nat \<Rightarrow> nat" where
  "utf8_base n = (if n = 1 then 192 else if n = 2 then 224 else 240)"

function utf8_decode :: "nat list \<Rightarrow> pystr" where
  "utf8_decode [] = []"
| "utf8_decode (b # bs) =
     (if b < 128 then b # utf8_decode bs
      else case utf8_follow b of
        None \<Rightarrow> REPLACEMENT # utf8_decode bs
      | Some n \<Rightarrow>
          (let k = utf8_present b n bs in
             if k = n
             then foldl (\<lambda>v c. 64 * v + (c - 128)) (b - utf8_base n) (take n bs) # utf8_decode (drop n bs)
             else REPLACEMENT # utf8_decode (drop k bs)))"
  by pat_completeness auto
termination by (relation "measure length") auto

fun unquote_parts :: "nat list \<Rightarrow> pystr \<Rightarrow> pystr" where
  "unquote_parts run [] = utf8_decode (unquote_to_bytes (rev run))"
| "unquote_parts run (c # t) =
     (if is_ascii c then unquote_parts (c # run) t
      else utf8_decode (unquote_to_bytes (rev run)) @ c # unquote_parts [] t)"

definition unquote :: "pystr \<Rightarrow> pystr" where
  "unquote t = (if c_percent \<in> set t then unquote_parts [] t else t)"

definition unquote_plus :: "pystr \<Rightarrow> pystr" where
  "unquote_plus t = unquote (map (\<lambda>c. if c = c_plus then c_space else c) t)"

section \<open>Character references\<close>

definition invalid_charrefs :: "(nat \<times> pychar) list" where
  "invalid_charrefs = [(0, 65533), (13, 13), (128, 8364), (129, 129), (130, 8218), (131, 402),
     (132, 8222), (133, 8230), (134, 8224), (135, 8225), (136, 710), (137, 8240), (138, 352),
     (139, 8249), (140, 338), (141, 141), (142, 381), (143, 143), (144, 144), (145, 8216),
     (146, 8217), (147, 8220), (148, 8221), (149, 8226), (150, 8211), (151, 8212), (152, 732),
     (153, 8482), (154, 353), (155, 8250), (156, 339), (157, 157), (158, 382), (159, 376)]"

definition invalid_codepoint :: "nat \<Rightarrow> bool" where
  "invalid_codepoint n \<longleftrightarrow> (1 \<le> n \<and> n \<le> 8) \<or> n = 11 \<or> (14 \<le> n \<and> n \<le> 31) \<or> (127 \<le> n \<and> n \<le> 159)
     \<or> (64976 \<le> n \<and> n \<le> 65007) \<or> (n \<le> 1114111 \<and> n mod 65536 \<in> {65534, 65535})"

definition charref :: "nat \<Rightarrow> pystr" where
  "charref n = (case map_of invalid_charrefs n of
      Some c \<Rightarrow> [c]
    | None \<Rightarrow> if (55296 \<le> n \<and> n \<le> 57343) \<or> 1114111 < n then [REPLACEMENT]
              else if invalid_codepoint n then [] else [n])"

text \<open>\<open>s\<close> is the reference without its ampersand, with its semicolon.\<close>

definition named_reference :: "pyrt \<Rightarrow> pystr \<Rightarrow> pystr" where
  "named_reference R s = (case rt_entity R s of
      Some v \<Rightarrow> v
    | None \<Rightarrow> (case List.find (\<lambda>x. rt_entity R (take x s) \<noteq> None) (rev [2 ..< length s]) of
        Some x \<Rightarrow> the (rt_entity R (take x s)) @ drop x s
      | None \<Rightarrow> c_amp # s))"

definition html_unescape_ref :: "pyrt \<Rightarrow> pystr \<Rightarrow> pystr" where
  "html_unescape_ref R m =
     (let s = tl m in
        if take 1 s = [c_hash] then
          (if take 1 (drop 1 s) = [120] \<or> take 1 (drop 1 s) = [88]
           then charref (hex_value (butlast (drop 2 s)))
           else charref (dec_value (butlast (drop 1 s))))
        else named_reference R s)"

section \<open>One round of decoding\<close>

definition simple_escape :: "pychar \<Rightarrow> pychar" where
  "simple_escape c = (if c = 110 then c_nl else if c = 116 then c_tab else if c = 114 then c_cr
     else if c = 102 then 12 else if c = 118 then 11 else c)"

definition unescape :: "pystr \<Rightarrow> rxm \<Rightarrow> pystr" where
  "unescape t m =
     (case rx_group t m 4 of
        Some s \<Rightarrow> map simple_escape s
      | None \<Rightarrow>
          (let digits = (case rx_group t m 1 of Some d \<Rightarrow> d
             | None \<Rightarrow> (case rx_group t m 2 of Some d \<Rightarrow> d
                | None \<Rightarrow> (case rx_group t m 3 of Some d \<Rightarrow> d | None \<Rightarrow> [])));
               code = hex_value digits
           in if code \<le> 1114111 then [code] else rx_text t m))"

definition decode_backslashes :: "pystr \<Rightarrow> pystr" where
  "decode_backslashes t =
     (if c_backslash \<in> set t then rx_sub BACKSLASH_ESCAPE (unescape t) t else t)"

definition decode_references :: "pyrt \<Rightarrow> pystr \<Rightarrow> pystr" where
  "decode_references R t =
     (if c_amp \<in> set t then rx_sub ENTITY (\<lambda>m. html_unescape_ref R (rx_text t m)) t else t)"

definition decode_compatibility :: "pyrt \<Rightarrow> pystr \<Rightarrow> pystr" where
  "decode_compatibility R t =
     (if list_all is_ascii t then t else filter (\<lambda>c. \<not> is_invisible c) (rt_nfkc R t))"

definition decode_once :: "pyrt \<Rightarrow> pystr \<Rightarrow> pystr" where
  "decode_once R t = decode_compatibility R (decode_references R (unquote (decode_backslashes t)))"

section \<open>Repeated decoding\<close>

fun decoded_forms_loop :: "pyrt \<Rightarrow> nat \<Rightarrow> pystr \<Rightarrow> pystr list \<times> bool" where
  "decoded_forms_loop R 0 t = ([], decode_once R t = t)"
| "decoded_forms_loop R (Suc n) t =
     (let d = decode_once R t in
        if d = t then ([], True)
        else if MAX_VIEW_LENGTH < length d then ([], False)
        else (case decoded_forms_loop R n d of (fs, settled) \<Rightarrow> (d # fs, settled)))"

definition decoded_forms :: "pyrt \<Rightarrow> pystr \<Rightarrow> pystr list \<times> bool" where
  "decoded_forms R t = decoded_forms_loop R MAX_DECODE_ROUNDS t"

definition has_escapes :: "pystr \<Rightarrow> bool" where
  "has_escapes t \<longleftrightarrow> c_percent \<in> set t \<or> c_backslash \<in> set t \<or> c_amp \<in> set t \<or> \<not> list_all is_ascii t"

definition names_sensitive_data :: "pyrt \<Rightarrow> pystr \<Rightarrow> rx \<Rightarrow> bool" where
  "names_sensitive_data R key pat \<longleftrightarrow>
     rx_found pat key
     \<or> (has_escapes key \<and>
        (case decoded_forms R key of (forms, settled) \<Rightarrow> \<not> settled \<or> list_ex (rx_found pat) forms))"

definition is_sensitive_key :: "pyrt \<Rightarrow> pystr \<Rightarrow> bool" where
  "is_sensitive_key R key = names_sensitive_data R key SENSITIVE_KEY"

definition is_sensitive_text_key :: "pyrt \<Rightarrow> pystr \<Rightarrow> bool" where
  "is_sensitive_text_key R key = names_sensitive_data R key SENSITIVE_TEXT_KEY"

section \<open>Repeated decoding reaches a fixed point or says so\<close>

lemma decoded_forms_loop_spec:
  assumes "decoded_forms_loop R n t = (fs, settled)"
  shows "length fs \<le> n
    \<and> (\<forall>i < length fs. fs ! i = decode_once R ((t # fs) ! i) \<and> fs ! i \<noteq> (t # fs) ! i
          \<and> length (fs ! i) \<le> MAX_VIEW_LENGTH)
    \<and> (settled \<longleftrightarrow> decode_once R (last (t # fs)) = last (t # fs))
    \<and> (\<not> settled \<longrightarrow> length fs = n \<or> MAX_VIEW_LENGTH < length (decode_once R (last (t # fs))))"
  using assms
proof (induction n arbitrary: t fs settled)
  case (Suc n)
  let ?d = "decode_once R t"
  show ?case
  proof (cases "?d = t \<or> MAX_VIEW_LENGTH < length ?d")
    case True
    with Suc.prems show ?thesis by (auto simp: Let_def split: if_splits)
  next
    case False
    then obtain fs' where fs: "fs = ?d # fs'" and rec: "decoded_forms_loop R n ?d = (fs', settled)"
      using Suc.prems by (auto simp: Let_def split: prod.splits)
    note IH = Suc.IH [OF rec]
    have last: "last (t # fs) = last (?d # fs')" using fs by simp
    have "fs ! i = decode_once R ((t # fs) ! i) \<and> fs ! i \<noteq> (t # fs) ! i \<and> length (fs ! i) \<le> MAX_VIEW_LENGTH"
      if "i < length fs" for i
      using that IH False fs by (cases i) auto
    moreover have "length fs \<le> Suc n" using IH fs by simp
    moreover have "length fs' = n \<Longrightarrow> length fs = Suc n" using fs by simp
    ultimately show ?thesis using IH unfolding last by blast
  qed
qed simp

text \<open>
  \<open>decoded_forms\<close> returns at most \<open>MAX_DECODE_ROUNDS\<close> forms, each the decoding of the one
  before and different from it; the flag says whether the last form is a fixed point of
  decoding, and it is \<open>False\<close> only after all the rounds or at a form that grew too long.
\<close>

theorem decoded_forms_correct:
  assumes "decoded_forms R t = (fs, settled)"
  shows "length fs \<le> MAX_DECODE_ROUNDS
    \<and> (\<forall>i < length fs. fs ! i = decode_once R ((t # fs) ! i) \<and> fs ! i \<noteq> (t # fs) ! i)
    \<and> (settled \<longleftrightarrow> decode_once R (last (t # fs)) = last (t # fs))
    \<and> (\<not> settled \<longrightarrow> length fs = MAX_DECODE_ROUNDS
          \<or> MAX_VIEW_LENGTH < length (decode_once R (last (t # fs))))"
  using decoded_forms_loop_spec [OF assms [unfolded decoded_forms_def]] by blast

section \<open>A key is classified however its characters are written\<close>

datatype spelling = AsIs | Percent | HexEscape | UnicodeEscape

definition hex_digit :: "nat \<Rightarrow> pychar" where
  "hex_digit n = (if n < 10 then 48 + n else 87 + n)"

fun spell :: "spelling \<Rightarrow> pychar \<Rightarrow> pystr" where
  "spell AsIs c = [c]"
| "spell Percent c = [c_percent, hex_digit (c div 16), hex_digit (c mod 16)]"
| "spell HexEscape c = [c_backslash, 120, hex_digit (c div 16), hex_digit (c mod 16)]"
| "spell UnicodeEscape c = [c_backslash, 117, 48, 48, hex_digit (c div 16), hex_digit (c mod 16)]"

definition spell_all :: "spelling list \<Rightarrow> pystr \<Rightarrow> pystr" where
  "spell_all ss k = concat (map2 spell ss k)"

text \<open>The characters whose plain spelling is not itself the start of an escape.\<close>

definition is_plain :: "pychar \<Rightarrow> bool" where
  "is_plain c \<longleftrightarrow> is_ascii c \<and> c \<noteq> c_percent \<and> c \<noteq> c_backslash \<and> c \<noteq> c_amp"

interpretation backslash_escape: scanner BACKSLASH_ESCAPE
  by unfold_locales (simp add: BACKSLASH_ESCAPE_def rx_ch_def)

lemma hex_digit_facts:
  "n < 16 \<Longrightarrow> is_hex (hex_digit n)" "n < 16 \<Longrightarrow> hex_val (hex_digit n) = n"
  "n < 16 \<Longrightarrow> is_ascii (hex_digit n)" "hex_digit n \<noteq> c_backslash \<or> n = 5"
  by (auto simp: hex_digit_def lit_eval hex_val_def)

lemma hex_value_digits: "c < 128 \<Longrightarrow> hex_value [hex_digit (c div 16), hex_digit (c mod 16)] = c"
  by (simp add: hex_value_def hex_digit_facts)

lemma hex_value_unicode:
  "c < 128 \<Longrightarrow> hex_value [48, 48, hex_digit (c div 16), hex_digit (c mod 16)] = c"
  by (simp add: hex_value_def hex_digit_facts hex_val_def [of 48] is_adigit_def)

text \<open>What the escape pattern matches at one position.\<close>

lemma escape_none: "i < length t \<Longrightarrow> t ! i \<noteq> c_backslash \<Longrightarrow> rx_match BACKSLASH_ESCAPE t i c = []"
  by (simp add: BACKSLASH_ESCAPE_def rx_ch_def)

lemma escape_hex:
  assumes "is_hex a" "is_hex b"
  shows "rx_match BACKSLASH_ESCAPE (p @ c_backslash # 120 # a # b # q) (length p) Map.empty
    = [(length p + 4, [2 \<mapsto> (length p + 2, length p + 4)])]"
proof -
  let ?t = "p @ c_backslash # 120 # a # b # q"
  have "rx_match (rx_rep (RxSet is_hex) 2 2) ?t (length p + 2) Map.empty = [(length p + 4, Map.empty)]"
    by (subst rx_match_set_exact) (use assms in \<open>simp_all add: slice_def numeral_eq_Suc\<close>)
  then show ?thesis by (simp add: BACKSLASH_ESCAPE_def rx_ch_def nth_append)
qed

lemma escape_unicode:
  assumes "is_hex a" "is_hex b" "is_hex d" "is_hex e"
  shows "rx_match BACKSLASH_ESCAPE (p @ c_backslash # 117 # a # b # d # e # q) (length p) Map.empty
    = [(length p + 6, [1 \<mapsto> (length p + 2, length p + 6)])]"
proof -
  let ?t = "p @ c_backslash # 117 # a # b # d # e # q"
  have "rx_match (rx_rep (RxSet is_hex) 4 4) ?t (length p + 2) Map.empty = [(length p + 6, Map.empty)]"
    by (subst rx_match_set_exact) (use assms in \<open>simp_all add: slice_def numeral_eq_Suc\<close>)
  then show ?thesis by (simp add: BACKSLASH_ESCAPE_def rx_ch_def nth_append)
qed

definition after_backslashes :: "spelling \<Rightarrow> spelling" where
  "after_backslashes s = (if s = Percent then Percent else AsIs)"

abbreviation unescape_from :: "pystr \<Rightarrow> nat \<Rightarrow> pystr" where
  "unescape_from t i \<equiv> rx_replace (unescape t) t i (rx_iterate BACKSLASH_ESCAPE t i)"

lemma unescape_from_plain:
  "list_all (\<lambda>c. c \<noteq> c_backslash) w \<Longrightarrow>
    unescape_from (p @ w @ q) (length p) = w @ unescape_from (p @ w @ q) (length (p @ w))"
proof (induction w arbitrary: p)
  case (Cons c w)
  have "unescape_from (p @ (c # w) @ q) (length p)
      = c # unescape_from ((p @ [c]) @ w @ q) (length (p @ [c]))"
    using Cons.prems by (subst backslash_escape.replace_skip) (simp_all add: escape_none nth_append)
  with Cons.IH [of "p @ [c]"] Cons.prems show ?case by simp
qed simp

lemma unescape_from_hex:
  assumes "c < 128"
  shows "unescape_from (p @ spell HexEscape c @ q) (length p)
    = c # unescape_from (p @ spell HexEscape c @ q) (length (p @ spell HexEscape c))"
proof -
  let ?t = "p @ spell HexEscape c @ q"
  have m: "rx_match BACKSLASH_ESCAPE ?t (length p) Map.empty
      = [(length p + 4, [2 \<mapsto> (length p + 2, length p + 4)])]"
    using assms escape_hex [of "hex_digit (c div 16)" "hex_digit (c mod 16)" p q]
    by (simp add: hex_digit_facts)
  have "slice ?t (length p + 2) (length p + 4) = [hex_digit (c div 16), hex_digit (c mod 16)]"
    by (simp add: slice_def)
  then have u: "unescape ?t \<lparr>m_start = length p, m_end = length p + 4,
      m_caps = [2 \<mapsto> (length p + 2, length p + 4)]\<rparr> = [c]"
    using assms by (simp add: unescape_def rx_group_def hex_value_digits)
  have l: "length (p @ spell HexEscape c) = length p + 4" by simp
  have "length p \<le> length ?t" by simp
  from backslash_escape.replace_hit [OF m this, of "unescape ?t", unfolded u] show ?thesis
    unfolding l by (simp only: append.simps)
qed

lemma unescape_from_unicode:
  assumes "c < 128"
  shows "unescape_from (p @ spell UnicodeEscape c @ q) (length p)
    = c # unescape_from (p @ spell UnicodeEscape c @ q) (length (p @ spell UnicodeEscape c))"
proof -
  let ?t = "p @ spell UnicodeEscape c @ q"
  have m: "rx_match BACKSLASH_ESCAPE ?t (length p) Map.empty
      = [(length p + 6, [1 \<mapsto> (length p + 2, length p + 6)])]"
    using assms escape_unicode [of 48 48 "hex_digit (c div 16)" "hex_digit (c mod 16)" p q]
    by (simp add: hex_digit_facts) (simp add: is_hex_def is_adigit_def)
  have "slice ?t (length p + 2) (length p + 6) = [48, 48, hex_digit (c div 16), hex_digit (c mod 16)]"
    by (simp add: slice_def)
  then have u: "unescape ?t \<lparr>m_start = length p, m_end = length p + 6,
      m_caps = [1 \<mapsto> (length p + 2, length p + 6)]\<rparr> = [c]"
    using assms by (simp add: unescape_def rx_group_def hex_value_unicode)
  have l: "length (p @ spell UnicodeEscape c) = length p + 6" by simp
  have "length p \<le> length ?t" by simp
  from backslash_escape.replace_hit [OF m this, of "unescape ?t", unfolded u] show ?thesis
    unfolding l by (simp only: append.simps)
qed

lemma unescape_spelled:
  assumes "length ss = length k" "list_all is_plain k"
  shows "unescape_from (p @ spell_all ss k) (length p) = spell_all (map after_backslashes ss) k"
  using assms
proof (induction ss k arbitrary: p rule: list_induct2)
  case Nil
  have "rx_search BACKSLASH_ESCAPE p (length p) = None"
    using backslash_escape.search_advances(2) [of p "length p"]
    by (cases "rx_search BACKSLASH_ESCAPE p (length p)") auto
  then show ?case by (simp add: spell_all_def backslash_escape.iterate_unfold)
next
  case (Cons s ss c k)
  let ?q = "spell_all ss k"
  have rest: "unescape_from (p @ spell s c @ ?q) (length (p @ spell s c))
      = spell_all (map after_backslashes ss) k"
    using Cons.IH [of "p @ spell s c"] Cons.prems by simp
  have c: "c < 128" "c \<noteq> c_backslash" "is_ascii c"
    using Cons.prems by (auto simp: is_plain_def is_ascii_def)
  have digits: "hex_digit (c div 16) \<noteq> c_backslash" "hex_digit (c mod 16) \<noteq> c_backslash"
    by (auto simp: hex_digit_def split: if_splits)
  have "unescape_from (p @ spell s c @ ?q) (length p)
      = spell (after_backslashes s) c @ unescape_from (p @ spell s c @ ?q) (length (p @ spell s c))"
  proof (cases s)
    case AsIs
    then show ?thesis using unescape_from_plain [of "[c]" p ?q] c
      by (simp add: after_backslashes_def)
  next
    case Percent
    then show ?thesis using unescape_from_plain [of "spell Percent c" p ?q] digits
      by (simp add: after_backslashes_def)
  next
    case HexEscape
    then show ?thesis using unescape_from_hex [OF c(1)] by (simp add: after_backslashes_def)
  next
    case UnicodeEscape
    then show ?thesis using unescape_from_unicode [OF c(1)] by (simp add: after_backslashes_def)
  qed
  with rest show ?case by (simp add: spell_all_def)
qed

text \<open>The percent pass over the same spelling.\<close>

lemma unquote_to_bytes_other: "c \<noteq> c_percent \<Longrightarrow> unquote_to_bytes (c # t) = c # unquote_to_bytes t"
  by (cases t rule: unquote_to_bytes.cases; cases "tl t") auto

lemma unquote_to_bytes_spelled:
  assumes "length ss = length k" "list_all is_plain k" "set ss \<subseteq> {AsIs, Percent}"
  shows "unquote_to_bytes (spell_all ss k) = k"
  using assms
proof (induction ss k rule: list_induct2)
  case (Cons s ss c k)
  then have "c < 128" "c \<noteq> c_percent" by (auto simp: is_plain_def is_ascii_def)
  with Cons show ?case
    by (cases s) (auto simp: spell_all_def unquote_to_bytes_other hex_digit_facts hex_value_digits)
qed (simp add: spell_all_def)

lemma utf8_decode_ascii: "list_all is_ascii t \<Longrightarrow> utf8_decode t = t"
  by (induction t) (auto simp: is_ascii_def)

lemma unquote_parts_ascii:
  "list_all is_ascii t \<Longrightarrow> unquote_parts run t = utf8_decode (unquote_to_bytes (rev run @ t))"
  by (induction t arbitrary: run) auto

lemma spell_ascii: "is_plain c \<Longrightarrow> list_all is_ascii (spell s c)"
  by (cases s) (auto simp: is_plain_def hex_digit_facts is_ascii_def hex_digit_def)

lemma spell_all_ascii:
  "length ss = length k \<Longrightarrow> list_all is_plain k \<Longrightarrow> list_all is_ascii (spell_all ss k)"
  by (induction ss k rule: list_induct2) (auto simp: spell_all_def spell_ascii)

lemma plain_ascii: "list_all is_plain k \<Longrightarrow> list_all is_ascii k"
  by (auto simp: list_all_iff is_plain_def)

lemma unquote_spelled:
  assumes "length ss = length k" "list_all is_plain k" "set ss \<subseteq> {AsIs, Percent}"
  shows "unquote (spell_all ss k) = k"
proof (cases "c_percent \<in> set (spell_all ss k)")
  case True
  with assms show ?thesis
    by (simp add: unquote_def unquote_parts_ascii spell_all_ascii unquote_to_bytes_spelled
        utf8_decode_ascii plain_ascii)
next
  case False
  with assms have "ss = replicate (length k) AsIs"
  proof (induction ss k rule: list_induct2)
    case (Cons s ss c k)
    then show ?case by (cases s) (auto simp: spell_all_def)
  qed simp
  moreover have "spell_all (replicate (length w) AsIs) w = w" for w
    by (induction w) (auto simp: spell_all_def)
  ultimately show ?thesis using False by (simp add: unquote_def)
qed

text \<open>One round of decoding recovers the plain spelling.\<close>

lemma decode_once_spelled:
  assumes "length ss = length k" "list_all is_plain k"
  shows "decode_once R (spell_all ss k) = k"
proof -
  let ?ss = "map after_backslashes ss"
  have "decode_backslashes (spell_all ss k) = spell_all ?ss k"
  proof (cases "c_backslash \<in> set (spell_all ss k)")
    case True
    then show ?thesis using unescape_spelled [OF assms, of "[]"]
      by (simp add: decode_backslashes_def rx_sub_def)
  next
    case False
    with assms have "?ss = ss"
    proof (induction ss k rule: list_induct2)
      case (Cons s ss c k)
      then show ?case by (cases s) (auto simp: spell_all_def after_backslashes_def)
    qed simp
    with False show ?thesis by (simp add: decode_backslashes_def)
  qed
  moreover have "unquote (spell_all ?ss k) = k"
    using assms by (intro unquote_spelled) (auto simp: after_backslashes_def)
  moreover have "c_amp \<notin> set k" using assms(2) by (auto simp: list_all_iff is_plain_def)
  ultimately show ?thesis using plain_ascii [OF assms(2)]
    by (simp add: decode_once_def decode_references_def decode_compatibility_def)
qed

text \<open>
  C35: A key that a pattern finds sensitive stays sensitive however its characters are written:
  each as itself, as a percent escape, as a \<open>\x\<close> or as a \<open>\u\<close> escape, in any mixture. The
  characters are ASCII and not themselves escape characters.
\<close>

theorem spelled_key_is_sensitive:
  assumes "names_sensitive_data R k pat" "list_all is_plain k" "length ss = length k"
  shows "names_sensitive_data R (spell_all ss k) pat"
proof -
  let ?e = "spell_all ss k"
  have "\<not> has_escapes k"
    using assms(2) by (auto simp: has_escapes_def list_all_iff is_plain_def)
  with assms(1) have found: "rx_found pat k" by (simp add: names_sensitive_data_def)
  have d: "decode_once R ?e = k" using assms by (intro decode_once_spelled)
  have no_escape: "?e = k" if "\<not> has_escapes ?e"
    using that d by (simp add: decode_once_def decode_backslashes_def unquote_def
        decode_references_def decode_compatibility_def has_escapes_def)
  have "k \<in> set forms" if "?e \<noteq> k" "decoded_forms R ?e = (forms, True)" for forms
    using that d by (auto simp: decoded_forms_def MAX_DECODE_ROUNDS_def numeral_eq_Suc Let_def
        split: if_splits prod.splits)
  with found no_escape show ?thesis
    by (cases "?e = k") (auto simp: names_sensitive_data_def list_ex_iff split: prod.splits bool.splits)
qed

theorem spelled_key_is_sensitive_witness:
  "names_sensitive_data ascii_runtime (lit ''p%77'' @ [c_backslash] @ lit ''x64'') SENSITIVE_TEXT_KEY"
proof -
  have "names_sensitive_data ascii_runtime (lit ''pwd'') SENSITIVE_TEXT_KEY" by code_simp
  moreover have "list_all is_plain (lit ''pwd'')" by code_simp
  moreover have "lit ''p%77'' @ [c_backslash] @ lit ''x64''
      = spell_all [AsIs, Percent, HexEscape] (lit ''pwd'')" by code_simp
  ultimately show ?thesis
    using spelled_key_is_sensitive [of ascii_runtime "lit ''pwd''" SENSITIVE_TEXT_KEY
        "[AsIs, Percent, HexEscape]"] by simp
qed

lemmas decode_eval =
  decode_once_def decode_backslashes_def decode_references_def decode_compatibility_def unquote_def
  hex_value_def hex_val_def

theorem decoded_forms_correct_witness:
  "decode_once ascii_runtime (lit ''A'') = lit ''A'' \<and> length (fst (decoded_forms ascii_runtime (lit ''%2541''))) = 2"
proof -
  have "decode_once ascii_runtime (lit ''%2541'') = lit ''%41''"
    "decode_once ascii_runtime (lit ''%41'') = lit ''A''"
    "decode_once ascii_runtime (lit ''A'') = lit ''A''"
    by (simp_all add: decode_eval lit_eval)
  then have "decoded_forms ascii_runtime (lit ''%2541'') = ([lit ''%41'', lit ''A''], True)"
    by (simp add: decoded_forms_def MAX_DECODE_ROUNDS_def MAX_VIEW_LENGTH_def MAX_STRING_LENGTH_def
        numeral_3_eq_3)
  with decoded_forms_correct [OF this] show ?thesis by simp
qed

end
