(* ===== verification/AlembicRevisions.thy ===== *)
theory AlembicRevisions
  imports MigrationGraph Decoding
begin

text \<open>
  The Alembic package \<open>docs/phase-05-database-design/5K/alembic\<close>: the helper
  \<open>_frozen_sql.py\<close>, \<open>get_url\<close> of \<open>env.py\<close>, and the 112 revision modules of \<open>versions/\<close>,
  one definition per module.

  A revision module is the version file that the static validation reads (\<open>MigrationGraph\<close>),
  extended by what its two functions do. The migrations directory is a map from file names to
  bytes; the database driver is a parameter (\<open>exec\<close>), which either fails or changes the
  database.
\<close>

section \<open>\<open>_frozen_sql.py\<close>\<close>

datatype 'e migration_error =
    FileNotFound pystr
  | NotUtf8
  | NotImplemented pystr
  | UndefinedName
  | DriverError 'e

text \<open>\<open>bytes.decode("utf-8")\<close>, strict.\<close>

definition utf8_strict :: "nat list \<Rightarrow> pystr option" where
  "utf8_strict bs = (let t = utf8_decode bs in if utf8_encode t = Some bs then Some t else None)"

text \<open>The newline translation of a file opened in text mode.\<close>

fun universal_newlines :: "pystr \<Rightarrow> pystr" where
  "universal_newlines [] = []"
| "universal_newlines (a # t) =
     (if a = c_cr then c_nl # (case t of [] \<Rightarrow> [] | b # u \<Rightarrow> if b = c_nl then universal_newlines u else universal_newlines t)
      else a # universal_newlines t)"

type_synonym directory = "pystr \<Rightarrow> nat list option"

definition read_frozen_sql :: "directory \<Rightarrow> pystr \<Rightarrow> 'e migration_error + pystr" where
  "read_frozen_sql fs filename =
     (case fs filename of
        None \<Rightarrow> Inl (FileNotFound filename)
      | Some bs \<Rightarrow> (case utf8_strict bs of None \<Rightarrow> Inl NotUtf8 | Some t \<Rightarrow> Inr (universal_newlines t)))"

definition run_frozen_sql ::
  "directory \<Rightarrow> (pystr \<Rightarrow> 'db \<Rightarrow> 'e + 'db) \<Rightarrow> pystr \<Rightarrow> 'db \<Rightarrow> 'e migration_error + 'db" where
  "run_frozen_sql fs exec filename db =
     (case read_frozen_sql fs filename of
        Inl e \<Rightarrow> Inl e
      | Inr sql \<Rightarrow> (case exec sql db of Inl e \<Rightarrow> Inl (DriverError e) | Inr db' \<Rightarrow> Inr db'))"

text \<open>The text that is executed is not always that of the file: line ends are translated.\<close>

lemma read_frozen_sql_translates:
  "read_frozen_sql [lit ''a.sql'' \<mapsto> [65, 13, 10, 66]] (lit ''a.sql'') = (Inr [65, 10, 66] :: nat migration_error + pystr)"
  by code_simp

section \<open>\<open>env.py\<close>\<close>

text \<open>\<open>os.environ.get("DATABASE_URL")\<close>; \<open>None\<close> is the \<open>RuntimeError\<close> of a missing or empty value.\<close>

definition get_url :: "(pystr \<Rightarrow> pystr option) \<Rightarrow> pystr option" where
  "get_url environ =
     (case environ (lit ''DATABASE_URL'') of
        None \<Rightarrow> None | Some url \<Rightarrow> if url = [] then None else Some url)"

section \<open>Revision modules\<close>

text \<open>
  The body of \<open>upgrade\<close>: \<open>run_frozen_sql(SQL_FILE)\<close>, directly or in an autocommit block. The
  block changes the transaction Alembic has opened, not what is executed.
\<close>

datatype upgrade_body = RunFrozenSql | RunFrozenSqlAutocommit

record revision_module = version_file +
  rm_upgrade :: upgrade_body
  rm_downgrade :: pystr  \<comment> \<open>the message of the \<open>NotImplementedError\<close>\<close>

text \<open>
  The common layout of a module: its docstring and three imports, the constants, and the two
  functions. The message of \<open>downgrade\<close> is given as its adjacent string literals.
\<close>

definition wrapper_body :: "literal \<Rightarrow> literal \<Rightarrow> literal \<Rightarrow> literal \<Rightarrow> literal \<Rightarrow> stmt list" where
  "wrapper_body ident down branch_labels depends_on sql =
     [OtherStmt, OtherStmt, OtherStmt, OtherStmt,
      AnnAssign (TName (lit ''revision'')) (Some ident),
      AnnAssign (TName (lit ''down_revision'')) (Some down),
      AnnAssign (TName (lit ''branch_labels'')) (Some branch_labels),
      AnnAssign (TName (lit ''depends_on'')) (Some depends_on),
      Assign [TName (lit ''SQL_FILE'')] sql, OtherStmt, OtherStmt]"

definition wrapper ::
  "pystr \<Rightarrow> literal \<Rightarrow> literal \<Rightarrow> literal \<Rightarrow> literal \<Rightarrow> literal \<Rightarrow> pystr list \<Rightarrow> revision_module" where
  "wrapper stem ident down branch_labels depends_on sql message =
     \<lparr>vf_name = stem @ lit ''.py'', vf_stem = stem,
      vf_body = wrapper_body ident down branch_labels depends_on sql,
      rm_upgrade = RunFrozenSql, rm_downgrade = concat message\<rparr>"

text \<open>The global name \<open>SQL_FILE\<close> of a module, and its two functions.\<close>

definition sql_file :: "revision_module \<Rightarrow> pystr option" where
  "sql_file m =
     (case module_constants (vf_body m) \<lparr>k_revision = None, k_down_revision = None, k_sql_file = None\<rparr> of
        Inr k \<Rightarrow> (case k_sql_file k of Some (LitStr s) \<Rightarrow> Some s | _ \<Rightarrow> None)
      | Inl _ \<Rightarrow> None)"

definition upgrade ::
  "directory \<Rightarrow> (pystr \<Rightarrow> 'db \<Rightarrow> 'e + 'db) \<Rightarrow> revision_module \<Rightarrow> 'db \<Rightarrow> 'e migration_error + 'db" where
  "upgrade fs exec m db =
     (case sql_file m of None \<Rightarrow> Inl UndefinedName | Some s \<Rightarrow> run_frozen_sql fs exec s db)"

definition downgrade :: "revision_module \<Rightarrow> 'db \<Rightarrow> 'e migration_error + 'db" where
  "downgrade m db = Inl (NotImplemented (rm_downgrade m))"

section \<open>The modules of \<open>versions/\<close>\<close>

definition revision_001_5B :: revision_module where
  "revision_001_5B = wrapper (lit ''001_5B'')
     (LitStr (lit ''001_5B'')) LitNone LitNone LitNone (LitStr (lit ''001_5B.sql''))
     [lit ''Migration 001_5B is part of the frozen, forward-only 5K SQL '',
      lit ''package (5K/migrations/001_5B.sql). No rollback DDL exists for '',
      lit ''it and none is authored here, to avoid creating schema changes '',
      lit ''outside the canonical migration files. To revert, restore from '',
      lit ''a database backup taken before this revision was applied.'']"

definition revision_002_5B :: revision_module where
  "revision_002_5B = wrapper (lit ''002_5B'')
     (LitStr (lit ''002_5B'')) (LitStr (lit ''001_5B'')) LitNone LitNone (LitStr (lit ''002_5B.sql''))
     [lit ''Migration 002_5B is part of the frozen, forward-only 5K SQL '',
      lit ''package (5K/migrations/002_5B.sql). No rollback DDL exists for '',
      lit ''it and none is authored here, to avoid creating schema changes '',
      lit ''outside the canonical migration files. To revert, restore from '',
      lit ''a database backup taken before this revision was applied.'']"

definition revision_003_5B :: revision_module where
  "revision_003_5B = wrapper (lit ''003_5B'')
     (LitStr (lit ''003_5B'')) (LitStr (lit ''002_5B'')) LitNone LitNone (LitStr (lit ''003_5B.sql''))
     [lit ''Migration 003_5B is part of the frozen, forward-only 5K SQL '',
      lit ''package (5K/migrations/003_5B.sql). No rollback DDL exists for '',
      lit ''it and none is authored here, to avoid creating schema changes '',
      lit ''outside the canonical migration files. To revert, restore from '',
      lit ''a database backup taken before this revision was applied.'']"

definition revision_004_5B :: revision_module where
  "revision_004_5B = wrapper (lit ''004_5B'')
     (LitStr (lit ''004_5B'')) (LitStr (lit ''003_5B'')) LitNone LitNone (LitStr (lit ''004_5B.sql''))
     [lit ''Migration 004_5B is part of the frozen, forward-only 5K SQL '',
      lit ''package (5K/migrations/004_5B.sql). No rollback DDL exists for '',
      lit ''it and none is authored here, to avoid creating schema changes '',
      lit ''outside the canonical migration files. To revert, restore from '',
      lit ''a database backup taken before this revision was applied.'']"

definition revision_005_5B :: revision_module where
  "revision_005_5B = wrapper (lit ''005_5B'')
     (LitStr (lit ''005_5B'')) (LitStr (lit ''004_5B'')) LitNone LitNone (LitStr (lit ''005_5B.sql''))
     [lit ''Migration 005_5B is part of the frozen, forward-only 5K SQL '',
      lit ''package (5K/migrations/005_5B.sql). No rollback DDL exists for '',
      lit ''it and none is authored here, to avoid creating schema changes '',
      lit ''outside the canonical migration files. To revert, restore from '',
      lit ''a database backup taken before this revision was applied.'']"

definition revision_006_5B :: revision_module where
  "revision_006_5B = wrapper (lit ''006_5B'')
     (LitStr (lit ''006_5B'')) (LitStr (lit ''005_5B'')) LitNone LitNone (LitStr (lit ''006_5B.sql''))
     [lit ''Migration 006_5B is part of the frozen, forward-only 5K SQL '',
      lit ''package (5K/migrations/006_5B.sql). No rollback DDL exists for '',
      lit ''it and none is authored here, to avoid creating schema changes '',
      lit ''outside the canonical migration files. To revert, restore from '',
      lit ''a database backup taken before this revision was applied.'']"

definition revision_007_5B :: revision_module where
  "revision_007_5B = wrapper (lit ''007_5B'')
     (LitStr (lit ''007_5B'')) (LitStr (lit ''006_5B'')) LitNone LitNone (LitStr (lit ''007_5B.sql''))
     [lit ''Migration 007_5B is part of the frozen, forward-only 5K SQL '',
      lit ''package (5K/migrations/007_5B.sql). No rollback DDL exists for '',
      lit ''it and none is authored here, to avoid creating schema changes '',
      lit ''outside the canonical migration files. To revert, restore from '',
      lit ''a database backup taken before this revision was applied.'']"

definition revision_008_5B :: revision_module where
  "revision_008_5B = wrapper (lit ''008_5B'')
     (LitStr (lit ''008_5B'')) (LitStr (lit ''007_5B'')) LitNone LitNone (LitStr (lit ''008_5B.sql''))
     [lit ''Migration 008_5B is part of the frozen, forward-only 5K SQL '',
      lit ''package (5K/migrations/008_5B.sql). No rollback DDL exists for '',
      lit ''it and none is authored here, to avoid creating schema changes '',
      lit ''outside the canonical migration files. To revert, restore from '',
      lit ''a database backup taken before this revision was applied.'']"

definition revision_009_5C :: revision_module where
  "revision_009_5C = wrapper (lit ''009_5C'')
     (LitStr (lit ''009_5C'')) (LitStr (lit ''008_5B'')) LitNone LitNone (LitStr (lit ''009_5C.sql''))
     [lit ''Migration 009_5C is part of the frozen, forward-only 5K SQL '',
      lit ''package (5K/migrations/009_5C.sql). No rollback DDL exists for '',
      lit ''it and none is authored here, to avoid creating schema changes '',
      lit ''outside the canonical migration files. To revert, restore from '',
      lit ''a database backup taken before this revision was applied.'']"

definition revision_010_5C :: revision_module where
  "revision_010_5C = wrapper (lit ''010_5C'')
     (LitStr (lit ''010_5C'')) (LitStr (lit ''009_5C'')) LitNone LitNone (LitStr (lit ''010_5C.sql''))
     [lit ''Migration 010_5C is part of the frozen, forward-only 5K SQL '',
      lit ''package (5K/migrations/010_5C.sql). No rollback DDL exists for '',
      lit ''it and none is authored here, to avoid creating schema changes '',
      lit ''outside the canonical migration files. To revert, restore from '',
      lit ''a database backup taken before this revision was applied.'']"

definition revision_011_5C :: revision_module where
  "revision_011_5C = wrapper (lit ''011_5C'')
     (LitStr (lit ''011_5C'')) (LitStr (lit ''010_5C'')) LitNone LitNone (LitStr (lit ''011_5C.sql''))
     [lit ''Migration 011_5C is part of the frozen, forward-only 5K SQL '',
      lit ''package (5K/migrations/011_5C.sql). No rollback DDL exists for '',
      lit ''it and none is authored here, to avoid creating schema changes '',
      lit ''outside the canonical migration files. To revert, restore from '',
      lit ''a database backup taken before this revision was applied.'']"

definition revision_012_5C :: revision_module where
  "revision_012_5C = wrapper (lit ''012_5C'')
     (LitStr (lit ''012_5C'')) (LitStr (lit ''011_5C'')) LitNone LitNone (LitStr (lit ''012_5C.sql''))
     [lit ''Migration 012_5C is part of the frozen, forward-only 5K SQL '',
      lit ''package (5K/migrations/012_5C.sql). No rollback DDL exists for '',
      lit ''it and none is authored here, to avoid creating schema changes '',
      lit ''outside the canonical migration files. To revert, restore from '',
      lit ''a database backup taken before this revision was applied.'']"

definition revision_013_5C :: revision_module where
  "revision_013_5C = wrapper (lit ''013_5C'')
     (LitStr (lit ''013_5C'')) (LitStr (lit ''012_5C'')) LitNone LitNone (LitStr (lit ''013_5C.sql''))
     [lit ''Migration 013_5C is part of the frozen, forward-only 5K SQL '',
      lit ''package (5K/migrations/013_5C.sql). No rollback DDL exists for '',
      lit ''it and none is authored here, to avoid creating schema changes '',
      lit ''outside the canonical migration files. To revert, restore from '',
      lit ''a database backup taken before this revision was applied.'']"

definition revision_014_5C :: revision_module where
  "revision_014_5C = wrapper (lit ''014_5C'')
     (LitStr (lit ''014_5C'')) (LitStr (lit ''013_5C'')) LitNone LitNone (LitStr (lit ''014_5C.sql''))
     [lit ''Migration 014_5C is part of the frozen, forward-only 5K SQL '',
      lit ''package (5K/migrations/014_5C.sql). No rollback DDL exists for '',
      lit ''it and none is authored here, to avoid creating schema changes '',
      lit ''outside the canonical migration files. To revert, restore from '',
      lit ''a database backup taken before this revision was applied.'']"

definition revision_015_5C :: revision_module where
  "revision_015_5C = wrapper (lit ''015_5C'')
     (LitStr (lit ''015_5C'')) (LitStr (lit ''014_5C'')) LitNone LitNone (LitStr (lit ''015_5C.sql''))
     [lit ''Migration 015_5C is part of the frozen, forward-only 5K SQL '',
      lit ''package (5K/migrations/015_5C.sql). No rollback DDL exists for '',
      lit ''it and none is authored here, to avoid creating schema changes '',
      lit ''outside the canonical migration files. To revert, restore from '',
      lit ''a database backup taken before this revision was applied.'']"

definition revision_016_5C :: revision_module where
  "revision_016_5C = wrapper (lit ''016_5C'')
     (LitStr (lit ''016_5C'')) (LitStr (lit ''015_5C'')) LitNone LitNone (LitStr (lit ''016_5C.sql''))
     [lit ''Migration 016_5C is part of the frozen, forward-only 5K SQL '',
      lit ''package (5K/migrations/016_5C.sql). No rollback DDL exists for '',
      lit ''it and none is authored here, to avoid creating schema changes '',
      lit ''outside the canonical migration files. To revert, restore from '',
      lit ''a database backup taken before this revision was applied.'']"

definition revision_017_5C :: revision_module where
  "revision_017_5C = wrapper (lit ''017_5C'')
     (LitStr (lit ''017_5C'')) (LitStr (lit ''016_5C'')) LitNone LitNone (LitStr (lit ''017_5C.sql''))
     [lit ''Migration 017_5C is part of the frozen, forward-only 5K SQL '',
      lit ''package (5K/migrations/017_5C.sql). No rollback DDL exists for '',
      lit ''it and none is authored here, to avoid creating schema changes '',
      lit ''outside the canonical migration files. To revert, restore from '',
      lit ''a database backup taken before this revision was applied.'']"

definition revision_018_5C :: revision_module where
  "revision_018_5C = wrapper (lit ''018_5C'')
     (LitStr (lit ''018_5C'')) (LitStr (lit ''017_5C'')) LitNone LitNone (LitStr (lit ''018_5C.sql''))
     [lit ''Migration 018_5C is part of the frozen, forward-only 5K SQL '',
      lit ''package (5K/migrations/018_5C.sql). No rollback DDL exists for '',
      lit ''it and none is authored here, to avoid creating schema changes '',
      lit ''outside the canonical migration files. To revert, restore from '',
      lit ''a database backup taken before this revision was applied.'']"

definition revision_019_5D :: revision_module where
  "revision_019_5D = wrapper (lit ''019_5D'')
     (LitStr (lit ''019_5D'')) (LitStr (lit ''018_5C'')) LitNone LitNone (LitStr (lit ''019_5D.sql''))
     [lit ''Migration 019_5D is part of the frozen, forward-only 5K SQL '',
      lit ''package (5K/migrations/019_5D.sql). No rollback DDL exists for '',
      lit ''it and none is authored here, to avoid creating schema changes '',
      lit ''outside the canonical migration files. To revert, restore from '',
      lit ''a database backup taken before this revision was applied.'']"

definition revision_020_5D :: revision_module where
  "revision_020_5D = wrapper (lit ''020_5D'')
     (LitStr (lit ''020_5D'')) (LitStr (lit ''019_5D'')) LitNone LitNone (LitStr (lit ''020_5D.sql''))
     [lit ''Migration 020_5D is part of the frozen, forward-only 5K SQL '',
      lit ''package (5K/migrations/020_5D.sql). No rollback DDL exists for '',
      lit ''it and none is authored here, to avoid creating schema changes '',
      lit ''outside the canonical migration files. To revert, restore from '',
      lit ''a database backup taken before this revision was applied.'']"

definition revision_021_5D :: revision_module where
  "revision_021_5D = wrapper (lit ''021_5D'')
     (LitStr (lit ''021_5D'')) (LitStr (lit ''020_5D'')) LitNone LitNone (LitStr (lit ''021_5D.sql''))
     [lit ''Migration 021_5D is part of the frozen, forward-only 5K SQL '',
      lit ''package (5K/migrations/021_5D.sql). No rollback DDL exists for '',
      lit ''it and none is authored here, to avoid creating schema changes '',
      lit ''outside the canonical migration files. To revert, restore from '',
      lit ''a database backup taken before this revision was applied.'']"

definition revision_022_5D :: revision_module where
  "revision_022_5D = wrapper (lit ''022_5D'')
     (LitStr (lit ''022_5D'')) (LitStr (lit ''021_5D'')) LitNone LitNone (LitStr (lit ''022_5D.sql''))
     [lit ''Migration 022_5D is part of the frozen, forward-only 5K SQL '',
      lit ''package (5K/migrations/022_5D.sql). No rollback DDL exists for '',
      lit ''it and none is authored here, to avoid creating schema changes '',
      lit ''outside the canonical migration files. To revert, restore from '',
      lit ''a database backup taken before this revision was applied.'']"

definition revision_023_5D :: revision_module where
  "revision_023_5D = wrapper (lit ''023_5D'')
     (LitStr (lit ''023_5D'')) (LitStr (lit ''022_5D'')) LitNone LitNone (LitStr (lit ''023_5D.sql''))
     [lit ''Migration 023_5D is part of the frozen, forward-only 5K SQL '',
      lit ''package (5K/migrations/023_5D.sql). No rollback DDL exists for '',
      lit ''it and none is authored here, to avoid creating schema changes '',
      lit ''outside the canonical migration files. To revert, restore from '',
      lit ''a database backup taken before this revision was applied.'']"

definition revision_024_5D :: revision_module where
  "revision_024_5D = wrapper (lit ''024_5D'')
     (LitStr (lit ''024_5D'')) (LitStr (lit ''023_5D'')) LitNone LitNone (LitStr (lit ''024_5D.sql''))
     [lit ''Migration 024_5D is part of the frozen, forward-only 5K SQL '',
      lit ''package (5K/migrations/024_5D.sql). No rollback DDL exists for '',
      lit ''it and none is authored here, to avoid creating schema changes '',
      lit ''outside the canonical migration files. To revert, restore from '',
      lit ''a database backup taken before this revision was applied.'']"

definition revision_025_5D :: revision_module where
  "revision_025_5D = wrapper (lit ''025_5D'')
     (LitStr (lit ''025_5D'')) (LitStr (lit ''024_5D'')) LitNone LitNone (LitStr (lit ''025_5D.sql''))
     [lit ''Migration 025_5D is part of the frozen, forward-only 5K SQL '',
      lit ''package (5K/migrations/025_5D.sql). No rollback DDL exists for '',
      lit ''it and none is authored here, to avoid creating schema changes '',
      lit ''outside the canonical migration files. To revert, restore from '',
      lit ''a database backup taken before this revision was applied.'']"

definition revision_026_5D :: revision_module where
  "revision_026_5D = wrapper (lit ''026_5D'')
     (LitStr (lit ''026_5D'')) (LitStr (lit ''025_5D'')) LitNone LitNone (LitStr (lit ''026_5D.sql''))
     [lit ''Migration 026_5D is part of the frozen, forward-only 5K SQL '',
      lit ''package (5K/migrations/026_5D.sql). No rollback DDL exists for '',
      lit ''it and none is authored here, to avoid creating schema changes '',
      lit ''outside the canonical migration files. To revert, restore from '',
      lit ''a database backup taken before this revision was applied.'']"

definition revision_027_5E :: revision_module where
  "revision_027_5E = wrapper (lit ''027_5E'')
     (LitStr (lit ''027_5E'')) (LitStr (lit ''026_5D'')) LitNone LitNone (LitStr (lit ''027_5E.sql''))
     [lit ''Migration 027_5E is part of the frozen, forward-only 5K SQL '',
      lit ''package (5K/migrations/027_5E.sql). No rollback DDL exists for '',
      lit ''it and none is authored here, to avoid creating schema changes '',
      lit ''outside the canonical migration files. To revert, restore from '',
      lit ''a database backup taken before this revision was applied.'']"

definition revision_028_5E :: revision_module where
  "revision_028_5E = wrapper (lit ''028_5E'')
     (LitStr (lit ''028_5E'')) (LitStr (lit ''027_5E'')) LitNone LitNone (LitStr (lit ''028_5E.sql''))
     [lit ''Migration 028_5E is part of the frozen, forward-only 5K SQL '',
      lit ''package (5K/migrations/028_5E.sql). No rollback DDL exists for '',
      lit ''it and none is authored here, to avoid creating schema changes '',
      lit ''outside the canonical migration files. To revert, restore from '',
      lit ''a database backup taken before this revision was applied.'']"

definition revision_029_5E :: revision_module where
  "revision_029_5E = wrapper (lit ''029_5E'')
     (LitStr (lit ''029_5E'')) (LitStr (lit ''028_5E'')) LitNone LitNone (LitStr (lit ''029_5E.sql''))
     [lit ''Migration 029_5E is part of the frozen, forward-only 5K SQL '',
      lit ''package (5K/migrations/029_5E.sql). No rollback DDL exists for '',
      lit ''it and none is authored here, to avoid creating schema changes '',
      lit ''outside the canonical migration files. To revert, restore from '',
      lit ''a database backup taken before this revision was applied.'']"

definition revision_030_5E :: revision_module where
  "revision_030_5E = wrapper (lit ''030_5E'')
     (LitStr (lit ''030_5E'')) (LitStr (lit ''029_5E'')) LitNone LitNone (LitStr (lit ''030_5E.sql''))
     [lit ''Migration 030_5E is part of the frozen, forward-only 5K SQL '',
      lit ''package (5K/migrations/030_5E.sql). No rollback DDL exists for '',
      lit ''it and none is authored here, to avoid creating schema changes '',
      lit ''outside the canonical migration files. To revert, restore from '',
      lit ''a database backup taken before this revision was applied.'']"

definition revision_031_5E :: revision_module where
  "revision_031_5E = wrapper (lit ''031_5E'')
     (LitStr (lit ''031_5E'')) (LitStr (lit ''030_5E'')) LitNone LitNone (LitStr (lit ''031_5E.sql''))
     [lit ''Migration 031_5E is part of the frozen, forward-only 5K SQL '',
      lit ''package (5K/migrations/031_5E.sql). No rollback DDL exists for '',
      lit ''it and none is authored here, to avoid creating schema changes '',
      lit ''outside the canonical migration files. To revert, restore from '',
      lit ''a database backup taken before this revision was applied.'']"

definition revision_032_5E :: revision_module where
  "revision_032_5E = wrapper (lit ''032_5E'')
     (LitStr (lit ''032_5E'')) (LitStr (lit ''031_5E'')) LitNone LitNone (LitStr (lit ''032_5E.sql''))
     [lit ''Migration 032_5E is part of the frozen, forward-only 5K SQL '',
      lit ''package (5K/migrations/032_5E.sql). No rollback DDL exists for '',
      lit ''it and none is authored here, to avoid creating schema changes '',
      lit ''outside the canonical migration files. To revert, restore from '',
      lit ''a database backup taken before this revision was applied.'']"

definition revision_033_5E :: revision_module where
  "revision_033_5E = wrapper (lit ''033_5E'')
     (LitStr (lit ''033_5E'')) (LitStr (lit ''032_5E'')) LitNone LitNone (LitStr (lit ''033_5E.sql''))
     [lit ''Migration 033_5E is part of the frozen, forward-only 5K SQL '',
      lit ''package (5K/migrations/033_5E.sql). No rollback DDL exists for '',
      lit ''it and none is authored here, to avoid creating schema changes '',
      lit ''outside the canonical migration files. To revert, restore from '',
      lit ''a database backup taken before this revision was applied.'']"

definition revision_034_5F :: revision_module where
  "revision_034_5F = wrapper (lit ''034_5F'')
     (LitStr (lit ''034_5F'')) (LitStr (lit ''033_5E'')) LitNone LitNone (LitStr (lit ''034_5F.sql''))
     [lit ''Migration 034_5F is part of the frozen, forward-only 5K SQL '',
      lit ''package (5K/migrations/034_5F.sql). No rollback DDL exists for '',
      lit ''it and none is authored here, to avoid creating schema changes '',
      lit ''outside the canonical migration files. To revert, restore from '',
      lit ''a database backup taken before this revision was applied.'']"

definition revision_035_5F :: revision_module where
  "revision_035_5F = wrapper (lit ''035_5F'')
     (LitStr (lit ''035_5F'')) (LitStr (lit ''034_5F'')) LitNone LitNone (LitStr (lit ''035_5F.sql''))
     [lit ''Migration 035_5F is part of the frozen, forward-only 5K SQL '',
      lit ''package (5K/migrations/035_5F.sql). No rollback DDL exists for '',
      lit ''it and none is authored here, to avoid creating schema changes '',
      lit ''outside the canonical migration files. To revert, restore from '',
      lit ''a database backup taken before this revision was applied.'']"

definition revision_036_5F :: revision_module where
  "revision_036_5F = wrapper (lit ''036_5F'')
     (LitStr (lit ''036_5F'')) (LitStr (lit ''035_5F'')) LitNone LitNone (LitStr (lit ''036_5F.sql''))
     [lit ''Migration 036_5F is part of the frozen, forward-only 5K SQL '',
      lit ''package (5K/migrations/036_5F.sql). No rollback DDL exists for '',
      lit ''it and none is authored here, to avoid creating schema changes '',
      lit ''outside the canonical migration files. To revert, restore from '',
      lit ''a database backup taken before this revision was applied.'']"

definition revision_037_5F :: revision_module where
  "revision_037_5F = wrapper (lit ''037_5F'')
     (LitStr (lit ''037_5F'')) (LitStr (lit ''036_5F'')) LitNone LitNone (LitStr (lit ''037_5F.sql''))
     [lit ''Migration 037_5F is part of the frozen, forward-only 5K SQL '',
      lit ''package (5K/migrations/037_5F.sql). No rollback DDL exists for '',
      lit ''it and none is authored here, to avoid creating schema changes '',
      lit ''outside the canonical migration files. To revert, restore from '',
      lit ''a database backup taken before this revision was applied.'']"

definition revision_038_5F :: revision_module where
  "revision_038_5F = wrapper (lit ''038_5F'')
     (LitStr (lit ''038_5F'')) (LitStr (lit ''037_5F'')) LitNone LitNone (LitStr (lit ''038_5F.sql''))
     [lit ''Migration 038_5F is part of the frozen, forward-only 5K SQL '',
      lit ''package (5K/migrations/038_5F.sql). No rollback DDL exists for '',
      lit ''it and none is authored here, to avoid creating schema changes '',
      lit ''outside the canonical migration files. To revert, restore from '',
      lit ''a database backup taken before this revision was applied.'']"

definition revision_039_5G :: revision_module where
  "revision_039_5G = wrapper (lit ''039_5G'')
     (LitStr (lit ''039_5G'')) (LitStr (lit ''038_5F'')) LitNone LitNone (LitStr (lit ''039_5G.sql''))
     [lit ''Migration 039_5G is part of the frozen, forward-only 5K SQL '',
      lit ''package (5K/migrations/039_5G.sql). No rollback DDL exists for '',
      lit ''it and none is authored here, to avoid creating schema changes '',
      lit ''outside the canonical migration files. To revert, restore from '',
      lit ''a database backup taken before this revision was applied.'']"

definition revision_040_5G :: revision_module where
  "revision_040_5G = wrapper (lit ''040_5G'')
     (LitStr (lit ''040_5G'')) (LitStr (lit ''039_5G'')) LitNone LitNone (LitStr (lit ''040_5G.sql''))
     [lit ''Migration 040_5G is part of the frozen, forward-only 5K SQL '',
      lit ''package (5K/migrations/040_5G.sql). No rollback DDL exists for '',
      lit ''it and none is authored here, to avoid creating schema changes '',
      lit ''outside the canonical migration files. To revert, restore from '',
      lit ''a database backup taken before this revision was applied.'']"

definition revision_041_5G :: revision_module where
  "revision_041_5G = wrapper (lit ''041_5G'')
     (LitStr (lit ''041_5G'')) (LitStr (lit ''040_5G'')) LitNone LitNone (LitStr (lit ''041_5G.sql''))
     [lit ''Migration 041_5G is part of the frozen, forward-only 5K SQL '',
      lit ''package (5K/migrations/041_5G.sql). No rollback DDL exists for '',
      lit ''it and none is authored here, to avoid creating schema changes '',
      lit ''outside the canonical migration files. To revert, restore from '',
      lit ''a database backup taken before this revision was applied.'']"

definition revision_042_5G :: revision_module where
  "revision_042_5G = wrapper (lit ''042_5G'')
     (LitStr (lit ''042_5G'')) (LitStr (lit ''041_5G'')) LitNone LitNone (LitStr (lit ''042_5G.sql''))
     [lit ''Migration 042_5G is part of the frozen, forward-only 5K SQL '',
      lit ''package (5K/migrations/042_5G.sql). No rollback DDL exists for '',
      lit ''it and none is authored here, to avoid creating schema changes '',
      lit ''outside the canonical migration files. To revert, restore from '',
      lit ''a database backup taken before this revision was applied.'']"

definition revision_043_5F :: revision_module where
  "revision_043_5F = wrapper (lit ''043_5F'')
     (LitStr (lit ''043_5F'')) (LitStr (lit ''042_5G'')) LitNone LitNone (LitStr (lit ''043_5F.sql''))
     [lit ''Migration 043_5F is part of the frozen, forward-only 5K SQL '',
      lit ''package (5K/migrations/043_5F.sql). No rollback DDL exists for '',
      lit ''it and none is authored here, to avoid creating schema changes '',
      lit ''outside the canonical migration files. To revert, restore from '',
      lit ''a database backup taken before this revision was applied.'']"

definition revision_044_5F :: revision_module where
  "revision_044_5F = wrapper (lit ''044_5F'')
     (LitStr (lit ''044_5F'')) (LitStr (lit ''043_5F'')) LitNone LitNone (LitStr (lit ''044_5F.sql''))
     [lit ''Migration 044_5F is part of the frozen, forward-only 5K SQL '',
      lit ''package (5K/migrations/044_5F.sql). No rollback DDL exists for '',
      lit ''it and none is authored here, to avoid creating schema changes '',
      lit ''outside the canonical migration files. To revert, restore from '',
      lit ''a database backup taken before this revision was applied.'']"

definition revision_045_5G :: revision_module where
  "revision_045_5G = wrapper (lit ''045_5G'')
     (LitStr (lit ''045_5G'')) (LitStr (lit ''044_5F'')) LitNone LitNone (LitStr (lit ''045_5G.sql''))
     [lit ''Migration 045_5G is part of the frozen, forward-only 5K SQL '',
      lit ''package (5K/migrations/045_5G.sql). No rollback DDL exists for '',
      lit ''it and none is authored here, to avoid creating schema changes '',
      lit ''outside the canonical migration files. To revert, restore from '',
      lit ''a database backup taken before this revision was applied.'']"

definition revision_046_5G :: revision_module where
  "revision_046_5G = wrapper (lit ''046_5G'')
     (LitStr (lit ''046_5G'')) (LitStr (lit ''045_5G'')) LitNone LitNone (LitStr (lit ''046_5G.sql''))
     [lit ''Migration 046_5G is part of the frozen, forward-only 5K SQL '',
      lit ''package (5K/migrations/046_5G.sql). No rollback DDL exists for '',
      lit ''it and none is authored here, to avoid creating schema changes '',
      lit ''outside the canonical migration files. To revert, restore from '',
      lit ''a database backup taken before this revision was applied.'']"

definition revision_047_5H :: revision_module where
  "revision_047_5H = wrapper (lit ''047_5H'')
     (LitStr (lit ''047_5H'')) (LitStr (lit ''046_5G'')) LitNone LitNone (LitStr (lit ''047_5H.sql''))
     [lit ''Migration 047_5H is part of the frozen, forward-only 5K SQL '',
      lit ''package (5K/migrations/047_5H.sql). No rollback DDL exists for '',
      lit ''it and none is authored here, to avoid creating schema changes '',
      lit ''outside the canonical migration files. To revert, restore from '',
      lit ''a database backup taken before this revision was applied.'']"

definition revision_048_5H :: revision_module where
  "revision_048_5H = wrapper (lit ''048_5H'')
     (LitStr (lit ''048_5H'')) (LitStr (lit ''047_5H'')) LitNone LitNone (LitStr (lit ''048_5H.sql''))
     [lit ''Migration 048_5H is part of the frozen, forward-only 5K SQL '',
      lit ''package (5K/migrations/048_5H.sql). No rollback DDL exists for '',
      lit ''it and none is authored here, to avoid creating schema changes '',
      lit ''outside the canonical migration files. To revert, restore from '',
      lit ''a database backup taken before this revision was applied.'']"

definition revision_049_5H :: revision_module where
  "revision_049_5H = wrapper (lit ''049_5H'')
     (LitStr (lit ''049_5H'')) (LitStr (lit ''048_5H'')) LitNone LitNone (LitStr (lit ''049_5H.sql''))
     [lit ''Migration 049_5H is part of the frozen, forward-only 5K SQL '',
      lit ''package (5K/migrations/049_5H.sql). No rollback DDL exists for '',
      lit ''it and none is authored here, to avoid creating schema changes '',
      lit ''outside the canonical migration files. To revert, restore from '',
      lit ''a database backup taken before this revision was applied.'']"

definition revision_050_5H :: revision_module where
  "revision_050_5H = wrapper (lit ''050_5H'')
     (LitStr (lit ''050_5H'')) (LitStr (lit ''049_5H'')) LitNone LitNone (LitStr (lit ''050_5H.sql''))
     [lit ''Migration 050_5H is part of the frozen, forward-only 5K SQL '',
      lit ''package (5K/migrations/050_5H.sql). No rollback DDL exists for '',
      lit ''it and none is authored here, to avoid creating schema changes '',
      lit ''outside the canonical migration files. To revert, restore from '',
      lit ''a database backup taken before this revision was applied.'']"

definition revision_051_5H :: revision_module where
  "revision_051_5H = wrapper (lit ''051_5H'')
     (LitStr (lit ''051_5H'')) (LitStr (lit ''050_5H'')) LitNone LitNone (LitStr (lit ''051_5H.sql''))
     [lit ''Migration 051_5H is part of the frozen, forward-only 5K SQL '',
      lit ''package (5K/migrations/051_5H.sql). No rollback DDL exists for '',
      lit ''it and none is authored here, to avoid creating schema changes '',
      lit ''outside the canonical migration files. To revert, restore from '',
      lit ''a database backup taken before this revision was applied.'']"

definition revision_052_5H :: revision_module where
  "revision_052_5H = wrapper (lit ''052_5H'')
     (LitStr (lit ''052_5H'')) (LitStr (lit ''051_5H'')) LitNone LitNone (LitStr (lit ''052_5H.sql''))
     [lit ''Migration 052_5H is part of the frozen, forward-only 5K SQL '',
      lit ''package (5K/migrations/052_5H.sql). No rollback DDL exists for '',
      lit ''it and none is authored here, to avoid creating schema changes '',
      lit ''outside the canonical migration files. To revert, restore from '',
      lit ''a database backup taken before this revision was applied.'']"

definition revision_053_5H :: revision_module where
  "revision_053_5H = wrapper (lit ''053_5H'')
     (LitStr (lit ''053_5H'')) (LitStr (lit ''052_5H'')) LitNone LitNone (LitStr (lit ''053_5H.sql''))
     [lit ''Migration 053_5H is part of the frozen, forward-only 5K SQL '',
      lit ''package (5K/migrations/053_5H.sql). No rollback DDL exists for '',
      lit ''it and none is authored here, to avoid creating schema changes '',
      lit ''outside the canonical migration files. To revert, restore from '',
      lit ''a database backup taken before this revision was applied.'']"

definition revision_054_5H :: revision_module where
  "revision_054_5H = wrapper (lit ''054_5H'')
     (LitStr (lit ''054_5H'')) (LitStr (lit ''053_5H'')) LitNone LitNone (LitStr (lit ''054_5H.sql''))
     [lit ''Migration 054_5H is part of the frozen, forward-only 5K SQL '',
      lit ''package (5K/migrations/054_5H.sql). No rollback DDL exists for '',
      lit ''it and none is authored here, to avoid creating schema changes '',
      lit ''outside the canonical migration files. To revert, restore from '',
      lit ''a database backup taken before this revision was applied.'']"

definition revision_055_5H :: revision_module where
  "revision_055_5H = wrapper (lit ''055_5H'')
     (LitStr (lit ''055_5H'')) (LitStr (lit ''054_5H'')) LitNone LitNone (LitStr (lit ''055_5H.sql''))
     [lit ''Migration 055_5H is part of the frozen, forward-only 5K SQL '',
      lit ''package (5K/migrations/055_5H.sql). No rollback DDL exists for '',
      lit ''it and none is authored here, to avoid creating schema changes '',
      lit ''outside the canonical migration files. To revert, restore from '',
      lit ''a database backup taken before this revision was applied.'']"

definition revision_056_5H :: revision_module where
  "revision_056_5H = wrapper (lit ''056_5H'')
     (LitStr (lit ''056_5H'')) (LitStr (lit ''055_5H'')) LitNone LitNone (LitStr (lit ''056_5H.sql''))
     [lit ''Migration 056_5H is part of the frozen, forward-only 5K SQL '',
      lit ''package (5K/migrations/056_5H.sql). No rollback DDL exists for '',
      lit ''it and none is authored here, to avoid creating schema changes '',
      lit ''outside the canonical migration files. To revert, restore from '',
      lit ''a database backup taken before this revision was applied.'']"

definition revision_057_5H :: revision_module where
  "revision_057_5H = wrapper (lit ''057_5H'')
     (LitStr (lit ''057_5H'')) (LitStr (lit ''056_5H'')) LitNone LitNone (LitStr (lit ''057_5H.sql''))
     [lit ''Migration 057_5H is part of the frozen, forward-only 5K SQL '',
      lit ''package (5K/migrations/057_5H.sql). No rollback DDL exists for '',
      lit ''it and none is authored here, to avoid creating schema changes '',
      lit ''outside the canonical migration files. To revert, restore from '',
      lit ''a database backup taken before this revision was applied.'']"

definition revision_058_5H :: revision_module where
  "revision_058_5H = wrapper (lit ''058_5H'')
     (LitStr (lit ''058_5H'')) (LitStr (lit ''057_5H'')) LitNone LitNone (LitStr (lit ''058_5H.sql''))
     [lit ''Migration 058_5H is part of the frozen, forward-only 5K SQL '',
      lit ''package (5K/migrations/058_5H.sql). No rollback DDL exists for '',
      lit ''it and none is authored here, to avoid creating schema changes '',
      lit ''outside the canonical migration files. To revert, restore from '',
      lit ''a database backup taken before this revision was applied.'']"

definition revision_059_5I :: revision_module where
  "revision_059_5I = wrapper (lit ''059_5I'')
     (LitStr (lit ''059_5I'')) (LitStr (lit ''058_5H'')) LitNone LitNone (LitStr (lit ''059_5I.sql''))
     [lit ''Migration 059_5I is part of the frozen, forward-only 5K SQL '',
      lit ''package (5K/migrations/059_5I.sql). No rollback DDL exists for '',
      lit ''it and none is authored here, to avoid creating schema changes '',
      lit ''outside the canonical migration files. To revert, restore from '',
      lit ''a database backup taken before this revision was applied.'']"

definition revision_060_5I :: revision_module where
  "revision_060_5I = wrapper (lit ''060_5I'')
     (LitStr (lit ''060_5I'')) (LitStr (lit ''059_5I'')) LitNone LitNone (LitStr (lit ''060_5I.sql''))
     [lit ''Migration 060_5I is part of the frozen, forward-only 5K SQL '',
      lit ''package (5K/migrations/060_5I.sql). No rollback DDL exists for '',
      lit ''it and none is authored here, to avoid creating schema changes '',
      lit ''outside the canonical migration files. To revert, restore from '',
      lit ''a database backup taken before this revision was applied.'']"

definition revision_061_5I :: revision_module where
  "revision_061_5I = wrapper (lit ''061_5I'')
     (LitStr (lit ''061_5I'')) (LitStr (lit ''060_5I'')) LitNone LitNone (LitStr (lit ''061_5I.sql''))
     [lit ''Migration 061_5I is part of the frozen, forward-only 5K SQL '',
      lit ''package (5K/migrations/061_5I.sql). No rollback DDL exists for '',
      lit ''it and none is authored here, to avoid creating schema changes '',
      lit ''outside the canonical migration files. To revert, restore from '',
      lit ''a database backup taken before this revision was applied.'']"

definition revision_062_5I :: revision_module where
  "revision_062_5I = wrapper (lit ''062_5I'')
     (LitStr (lit ''062_5I'')) (LitStr (lit ''061_5I'')) LitNone LitNone (LitStr (lit ''062_5I.sql''))
     [lit ''Migration 062_5I is part of the frozen, forward-only 5K SQL '',
      lit ''package (5K/migrations/062_5I.sql). No rollback DDL exists for '',
      lit ''it and none is authored here, to avoid creating schema changes '',
      lit ''outside the canonical migration files. To revert, restore from '',
      lit ''a database backup taken before this revision was applied.'']"

definition revision_063_5I :: revision_module where
  "revision_063_5I = wrapper (lit ''063_5I'')
     (LitStr (lit ''063_5I'')) (LitStr (lit ''062_5I'')) LitNone LitNone (LitStr (lit ''063_5I.sql''))
     [lit ''Migration 063_5I is part of the frozen, forward-only 5K SQL '',
      lit ''package (5K/migrations/063_5I.sql). No rollback DDL exists for '',
      lit ''it and none is authored here, to avoid creating schema changes '',
      lit ''outside the canonical migration files. To revert, restore from '',
      lit ''a database backup taken before this revision was applied.'']"

definition revision_064_5I :: revision_module where
  "revision_064_5I = wrapper (lit ''064_5I'')
     (LitStr (lit ''064_5I'')) (LitStr (lit ''063_5I'')) LitNone LitNone (LitStr (lit ''064_5I.sql''))
     [lit ''Migration 064_5I is part of the frozen, forward-only 5K SQL '',
      lit ''package (5K/migrations/064_5I.sql). No rollback DDL exists for '',
      lit ''it and none is authored here, to avoid creating schema changes '',
      lit ''outside the canonical migration files. To revert, restore from '',
      lit ''a database backup taken before this revision was applied.'']"

definition revision_065_5I :: revision_module where
  "revision_065_5I = wrapper (lit ''065_5I'')
     (LitStr (lit ''065_5I'')) (LitStr (lit ''064_5I'')) LitNone LitNone (LitStr (lit ''065_5I.sql''))
     [lit ''Migration 065_5I is part of the frozen, forward-only 5K SQL '',
      lit ''package (5K/migrations/065_5I.sql). No rollback DDL exists for '',
      lit ''it and none is authored here, to avoid creating schema changes '',
      lit ''outside the canonical migration files. To revert, restore from '',
      lit ''a database backup taken before this revision was applied.'']"

definition revision_066_5I :: revision_module where
  "revision_066_5I = wrapper (lit ''066_5I'')
     (LitStr (lit ''066_5I'')) (LitStr (lit ''065_5I'')) LitNone LitNone (LitStr (lit ''066_5I.sql''))
     [lit ''Migration 066_5I is part of the frozen, forward-only 5K SQL '',
      lit ''package (5K/migrations/066_5I.sql). No rollback DDL exists for '',
      lit ''it and none is authored here, to avoid creating schema changes '',
      lit ''outside the canonical migration files. To revert, restore from '',
      lit ''a database backup taken before this revision was applied.'']"

definition revision_067_5J :: revision_module where
  "revision_067_5J = wrapper (lit ''067_5J'')
     (LitStr (lit ''067_5J'')) (LitStr (lit ''066_5I'')) LitNone LitNone (LitStr (lit ''067_5J.sql''))
     [lit ''Migration 067_5J is part of the frozen, forward-only 5K SQL '',
      lit ''package (5K/migrations/067_5J.sql). No rollback DDL exists for '',
      lit ''it and none is authored here, to avoid creating schema changes '',
      lit ''outside the canonical migration files. To revert, restore from '',
      lit ''a database backup taken before this revision was applied.'']"

definition revision_068_5J :: revision_module where
  "revision_068_5J = wrapper (lit ''068_5J'')
     (LitStr (lit ''068_5J'')) (LitStr (lit ''067_5J'')) LitNone LitNone (LitStr (lit ''068_5J.sql''))
     [lit ''Migration 068_5J is part of the frozen, forward-only 5K SQL '',
      lit ''package (5K/migrations/068_5J.sql). No rollback DDL exists for '',
      lit ''it and none is authored here, to avoid creating schema changes '',
      lit ''outside the canonical migration files. To revert, restore from '',
      lit ''a database backup taken before this revision was applied.'']"

definition revision_069_5J :: revision_module where
  "revision_069_5J = wrapper (lit ''069_5J'')
     (LitStr (lit ''069_5J'')) (LitStr (lit ''068_5J'')) LitNone LitNone (LitStr (lit ''069_5J.sql''))
     [lit ''Migration 069_5J is part of the frozen, forward-only 5K SQL '',
      lit ''package (5K/migrations/069_5J.sql). No rollback DDL exists for '',
      lit ''it and none is authored here, to avoid creating schema changes '',
      lit ''outside the canonical migration files. To revert, restore from '',
      lit ''a database backup taken before this revision was applied.'']"

definition revision_070_5J :: revision_module where
  "revision_070_5J = wrapper (lit ''070_5J'')
     (LitStr (lit ''070_5J'')) (LitStr (lit ''069_5J'')) LitNone LitNone (LitStr (lit ''070_5J.sql''))
     [lit ''Migration 070_5J is part of the frozen, forward-only 5K SQL '',
      lit ''package (5K/migrations/070_5J.sql). No rollback DDL exists for '',
      lit ''it and none is authored here, to avoid creating schema changes '',
      lit ''outside the canonical migration files. To revert, restore from '',
      lit ''a database backup taken before this revision was applied.'']"

definition revision_071_5J :: revision_module where
  "revision_071_5J = wrapper (lit ''071_5J'')
     (LitStr (lit ''071_5J'')) (LitStr (lit ''070_5J'')) LitNone LitNone (LitStr (lit ''071_5J.sql''))
     [lit ''Migration 071_5J is part of the frozen, forward-only 5K SQL '',
      lit ''package (5K/migrations/071_5J.sql). No rollback DDL exists for '',
      lit ''it and none is authored here, to avoid creating schema changes '',
      lit ''outside the canonical migration files. To revert, restore from '',
      lit ''a database backup taken before this revision was applied.'']"

definition revision_072_5J :: revision_module where
  "revision_072_5J = wrapper (lit ''072_5J'')
     (LitStr (lit ''072_5J'')) (LitStr (lit ''071_5J'')) LitNone LitNone (LitStr (lit ''072_5J.sql''))
     [lit ''Migration 072_5J is part of the frozen, forward-only 5K SQL '',
      lit ''package (5K/migrations/072_5J.sql). No rollback DDL exists for '',
      lit ''it and none is authored here, to avoid creating schema changes '',
      lit ''outside the canonical migration files. To revert, restore from '',
      lit ''a database backup taken before this revision was applied.'']"

definition revision_073_5J :: revision_module where
  "revision_073_5J = wrapper (lit ''073_5J'')
     (LitStr (lit ''073_5J'')) (LitStr (lit ''072_5J'')) LitNone LitNone (LitStr (lit ''073_5J.sql''))
     [lit ''Migration 073_5J is part of the frozen, forward-only 5K SQL '',
      lit ''package (5K/migrations/073_5J.sql). No rollback DDL exists for '',
      lit ''it and none is authored here, to avoid creating schema changes '',
      lit ''outside the canonical migration files. To revert, restore from '',
      lit ''a database backup taken before this revision was applied.'']"

definition revision_074_5J :: revision_module where
  "revision_074_5J = wrapper (lit ''074_5J'')
     (LitStr (lit ''074_5J'')) (LitStr (lit ''073_5J'')) LitNone LitNone (LitStr (lit ''074_5J.sql''))
     [lit ''Migration 074_5J is part of the frozen, forward-only 5K SQL '',
      lit ''package (5K/migrations/074_5J.sql). No rollback DDL exists for '',
      lit ''it and none is authored here, to avoid creating schema changes '',
      lit ''outside the canonical migration files. To revert, restore from '',
      lit ''a database backup taken before this revision was applied.'']"

definition revision_075_5J :: revision_module where
  "revision_075_5J = wrapper (lit ''075_5J'')
     (LitStr (lit ''075_5J'')) (LitStr (lit ''074_5J'')) LitNone LitNone (LitStr (lit ''075_5J.sql''))
     [lit ''Migration 075_5J is part of the frozen, forward-only 5K SQL '',
      lit ''package (5K/migrations/075_5J.sql). No rollback DDL exists for '',
      lit ''it and none is authored here, to avoid creating schema changes '',
      lit ''outside the canonical migration files. To revert, restore from '',
      lit ''a database backup taken before this revision was applied.'']"

definition revision_076_5K1 :: revision_module where
  "revision_076_5K1 = wrapper (lit ''076_5K1'')
     (LitStr (lit ''076_5K1'')) (LitStr (lit ''075_5J'')) LitNone LitNone (LitStr (lit ''076_5K1.sql''))
     [lit ''Migration 076_5K1 is part of the frozen, forward-only 5K SQL '',
      lit ''package (5K/migrations/076_5K1.sql). No rollback DDL exists for '',
      lit ''it and none is authored here, to avoid creating schema changes '',
      lit ''outside the canonical migration files. To revert, restore from '',
      lit ''a database backup taken before this revision was applied.'']"

definition revision_077_5J1 :: revision_module where
  "revision_077_5J1 = wrapper (lit ''077_5J1'')
     (LitStr (lit ''077_5J1'')) (LitStr (lit ''076_5K1'')) LitNone LitNone (LitStr (lit ''077_5J1.sql''))
     [lit ''Migration 077_5J1 is part of the frozen, forward-only 5K SQL '',
      lit ''package (5K/migrations/077_5J1.sql). No rollback DDL exists for '',
      lit ''it and none is authored here, to avoid creating schema changes '',
      lit ''outside the canonical migration files. To revert, restore from '',
      lit ''a database backup taken before this revision was applied. '',
      lit ''(This revision only adds new objects '' @ [8212] @ lit '' audit.domain_event_outbox '',
      lit ''and three new functions '' @ [8212] @ lit '' so a manual DROP is also low-risk if '',
      lit ''no rows have been written yet: DROP TABLE audit.domain_event_outbox '',
      lit ''CASCADE; DROP FUNCTION audit.fn_claim_outbox_events, '',
      lit ''audit.fn_mark_outbox_published, audit.fn_mark_outbox_failed, '',
      lit ''audit.fn_outbox_tenant_check; '' @ [8212] @ lit '' but this is an operational '',
      lit ''runbook note, not an Alembic-managed downgrade.)'']"

definition revision_078_5F1 :: revision_module where
  "revision_078_5F1 = wrapper (lit ''078_5F1'')
     (LitStr (lit ''078_5F1'')) (LitStr (lit ''077_5J1'')) LitNone LitNone (LitStr (lit ''078_5F1.sql''))
     [lit ''Migration 078_5F1 is part of the frozen, forward-only 5K SQL '',
      lit ''package (5K/migrations/078_5F1.sql). No rollback DDL exists for '',
      lit ''it and none is authored here, to avoid creating schema changes '',
      lit ''outside the canonical migration files. To revert, restore from '',
      lit ''a database backup taken before this revision was applied. '',
      lit ''(Operational runbook note, not an Alembic-managed downgrade: '',
      lit ''restoring the pre-078 fn_docver_publish body from 034_5F.sql '',
      lit ''and re-granting table-level UPDATE on knowledge.documents to '',
      lit ''app_api/app_worker would reverse this revision's effects, but '',
      lit ''reintroduces the DEP-6F-16 gap this revision closes.)'']"

definition revision_079_5F2 :: revision_module where
  "revision_079_5F2 = wrapper (lit ''079_5F2'')
     (LitStr (lit ''079_5F2'')) (LitStr (lit ''078_5F1'')) LitNone LitNone (LitStr (lit ''079_5F2.sql''))
     [lit ''Migration 079_5F2 is part of the frozen, forward-only 5K SQL '',
      lit ''package. No rollback DDL is authored here; restore from a '',
      lit ''database backup taken before this revision if needed. '',
      lit ''(Low-risk manual reversal: this revision only adds a new '',
      lit ''function, knowledge.fn_docver_rollback() '' @ [8212] @ lit '' '',
      lit ''DROP FUNCTION knowledge.fn_docver_rollback(UUID, UUID, UUID);)'']"

definition revision_080_5F3 :: revision_module where
  "revision_080_5F3 = wrapper (lit ''080_5F3'')
     (LitStr (lit ''080_5F3'')) (LitStr (lit ''079_5F2'')) LitNone LitNone (LitStr (lit ''080_5F3.sql''))
     [lit ''Migration 080_5F3 is part of the frozen, forward-only 5K SQL '',
      lit ''package. No rollback DDL is authored here; restore from a '',
      lit ''database backup taken before this revision if needed. '',
      lit ''(Low-risk manual reversal: this revision only adds a new '',
      lit ''function, knowledge.fn_docver_mark_failed() '' @ [8212] @ lit '' '',
      lit ''DROP FUNCTION knowledge.fn_docver_mark_failed(UUID, UUID, TEXT);)'']"

definition revision_081_5F4 :: revision_module where
  "revision_081_5F4 = wrapper (lit ''081_5F4'')
     (LitStr (lit ''081_5F4'')) (LitStr (lit ''080_5F3'')) LitNone LitNone (LitStr (lit ''081_5F4.sql''))
     [lit ''Migration 081_5F4 is part of the frozen, forward-only 5K SQL '',
      lit ''package. No rollback DDL is authored here; restore from a '',
      lit ''database backup taken before this revision if needed. GDPR '',
      lit ''erasure is inherently irreversible by design '' @ [8212] @ lit '' a downgrade '',
      lit ''cannot and must not attempt to un-erase data even if the '',
      lit ''functions themselves were dropped.'']"

definition revision_082_5F5 :: revision_module where
  "revision_082_5F5 = wrapper (lit ''082_5F5'')
     (LitStr (lit ''082_5F5'')) (LitStr (lit ''081_5F4'')) LitNone LitNone (LitStr (lit ''082_5F5.sql''))
     [lit ''Migration 082_5F5 is part of the frozen, forward-only 5K SQL '',
      lit ''package. No rollback DDL is authored here; restore from a '',
      lit ''database backup taken before this revision if needed. This '',
      lit ''revision adds a NOT NULL column with a FK and replaces a unique '',
      lit ''index '' @ [8212] @ lit '' a manual reversal is nontrivial (would need to restore '',
      lit ''the old document-scoped uq_dv_content_hash and drop the new '',
      lit ''column/FK/trigger) and is not attempted here.'']"

definition revision_083_5F6 :: revision_module where
  "revision_083_5F6 = wrapper (lit ''083_5F6'')
     (LitStr (lit ''083_5F6'')) (LitStr (lit ''082_5F5'')) LitNone LitNone (LitStr (lit ''083_5F6.sql''))
     [lit ''Migration 083_5F6 is part of the frozen, forward-only 5K SQL '',
      lit ''package. No rollback DDL is authored here; restore from a '',
      lit ''database backup taken before this revision if needed.'']"

definition revision_084_5F7 :: revision_module where
  "revision_084_5F7 = wrapper (lit ''084_5F7'')
     (LitStr (lit ''084_5F7'')) (LitStr (lit ''083_5F6'')) LitNone LitNone (LitStr (lit ''084_5F7.sql''))
     [lit ''Migration 084_5F7 is part of the frozen, forward-only 5K SQL '',
      lit ''package. No rollback DDL is authored here; restore from a '',
      lit ''database backup taken before this revision if needed.'']"

definition revision_085_5D1 :: revision_module where
  "revision_085_5D1 = wrapper (lit ''085_5D1'')
     (LitStr (lit ''085_5D1'')) (LitStr (lit ''084_5F7'')) LitNone LitNone (LitStr (lit ''085_5D1.sql''))
     [lit ''Migration 085_5D1 is part of the frozen, forward-only 5K SQL '',
      lit ''package. No rollback DDL is authored here; restore from a '',
      lit ''database backup taken before this revision if needed. '',
      lit ''(Low-risk manual reversal: DROP INDEX crm.uq_sup_active;)'']"

definition revision_086_5H1 :: revision_module where
  "revision_086_5H1 = wrapper (lit ''086_5H1'')
     (LitStr (lit ''086_5H1'')) (LitStr (lit ''085_5D1'')) LitNone LitNone (LitStr (lit ''086_5H1.sql''))
     [lit ''Migration 086_5H1 is part of the frozen, forward-only 5K SQL '',
      lit ''package. No rollback DDL is authored here; restore from a '',
      lit ''database backup taken before this revision if needed. '',
      lit ''(Low-risk manual reversal: GRANT INSERT ON billing.billing_adjustments '',
      lit ''TO app_worker; DROP FUNCTION billing.fn_create_billing_adjustment'',
      lit ''(UUID, UUID, TEXT, TEXT, NUMERIC, CHAR, TEXT); '' @ [8212] @ lit '' but this '',
      lit ''reintroduces the direct-INSERT financial-control gap this '',
      lit ''revision closes.)'']"

definition revision_087_5B1 :: revision_module where
  "revision_087_5B1 = wrapper (lit ''087_5B1'')
     (LitStr (lit ''087_5B1'')) (LitStr (lit ''086_5H1'')) LitNone LitNone (LitStr (lit ''087_5B1.sql''))
     [lit ''Migration 087_5B1 is part of the frozen, forward-only 5K SQL '',
      lit ''package. No rollback DDL is authored here; restore from a '',
      lit ''database backup taken before this revision if needed. '',
      lit ''(Low-risk manual reversal if no rows have been written yet: '',
      lit ''DROP TABLE organization.break_glass_grants CASCADE; '',
      lit ''DROP FUNCTION organization.fn_break_glass_grant(UUID, UUID, TEXT, INTEGER, TEXT), '',
      lit ''organization.fn_break_glass_release(UUID, UUID), '',
      lit ''organization.prevent_bgg_immutable_field_mutation();)'']"

definition revision_088_5F8 :: revision_module where
  "revision_088_5F8 = wrapper (lit ''088_5F8'')
     (LitStr (lit ''088_5F8'')) (LitStr (lit ''087_5B1'')) LitNone LitNone (LitStr (lit ''088_5F8.sql''))
     [lit ''Migration 088_5F8 is part of the frozen, forward-only 5K SQL '',
      lit ''package. No rollback DDL is authored here; restore from a '',
      lit ''database backup taken before this revision if needed.'']"

definition revision_089_5F9 :: revision_module where
  "revision_089_5F9 = wrapper (lit ''089_5F9'')
     (LitStr (lit ''089_5F9'')) (LitStr (lit ''088_5F8'')) LitNone LitNone (LitStr (lit ''089_5F9.sql''))
     [lit ''Migration 089_5F9 is part of the frozen, forward-only 5K SQL '',
      lit ''package. No rollback DDL is authored here; restore from a '',
      lit ''database backup taken before this revision if needed.'']"

definition revision_090_5F10 :: revision_module where
  "revision_090_5F10 = wrapper (lit ''090_5F10'')
     (LitStr (lit ''090_5F10'')) (LitStr (lit ''089_5F9'')) LitNone LitNone (LitStr (lit ''090_5F10.sql''))
     [lit ''Migration 090_5F10 is part of the frozen, forward-only 5K SQL '',
      lit ''package. No rollback DDL is authored here; restore from a '',
      lit ''database backup taken before this revision if needed. '',
      lit ''(Low-risk manual reversal: GRANT UPDATE (knowledge_base_id, '',
      lit ''organization_id, source_type, created_by, created_at) ON '',
      lit ''knowledge.documents TO app_api, app_worker; '' @ [8212] @ lit '' but this '',
      lit ''reintroduces the KB/tenant-drift gap this revision closes.)'']"

definition revision_091_5F11 :: revision_module where
  "revision_091_5F11 = wrapper (lit ''091_5F11'')
     (LitStr (lit ''091_5F11'')) (LitStr (lit ''090_5F10'')) LitNone LitNone (LitStr (lit ''091_5F11.sql''))
     [lit ''Migration 091_5F11 is part of the frozen, forward-only 5K SQL '',
      lit ''package. No rollback DDL is authored here; restore from a '',
      lit ''database backup taken before this revision if needed. '',
      lit ''(Low-risk manual reversal: DROP INDEX knowledge.idx_dc_kb_language;)'']"

definition revision_092_5F12 :: revision_module where
  "revision_092_5F12 = wrapper (lit ''092_5F12'')
     (LitStr (lit ''092_5F12'')) (LitStr (lit ''091_5F11'')) LitNone LitNone (LitStr (lit ''092_5F12.sql''))
     [lit ''Migration 092_5F12 is part of the frozen, forward-only 5K SQL '',
      lit ''package. No rollback DDL is authored here; restore from a '',
      lit ''database backup taken before this revision if needed.'']"

definition revision_093_5D2 :: revision_module where
  "revision_093_5D2 = wrapper (lit ''093_5D2'')
     (LitStr (lit ''093_5D2'')) (LitStr (lit ''092_5F12'')) LitNone LitNone (LitStr (lit ''093_5D2.sql''))
     [lit ''Migration 093_5D2 is part of the frozen, forward-only 5K SQL '',
      lit ''package. No rollback DDL is authored here; restore from a '',
      lit ''database backup taken before this revision if needed. (This '',
      lit ''revision only adds new columns/triggers/functions to '',
      lit ''crm.contacts and one new function each '' @ [8212] @ lit '' a manual rollback, if '',
      lit ''ever needed with no rows yet written, would be: DROP FUNCTION '',
      lit ''crm.fn_merge_contacts, crm.prevent_remerge, '',
      lit ''crm.prevent_cross_tenant_merge CASCADE; ALTER TABLE crm.contacts '',
      lit ''DROP COLUMN merged_into_contact_id, DROP COLUMN merged_at; '' @ [8212] @ lit '' an '',
      lit ''operational runbook note, not an Alembic-managed downgrade.)'']"

definition revision_094_5D3 :: revision_module where
  "revision_094_5D3 = wrapper (lit ''094_5D3'')
     (LitStr (lit ''094_5D3'')) (LitStr (lit ''093_5D2'')) LitNone LitNone (LitStr (lit ''094_5D3.sql''))
     [lit ''Migration 094_5D3 is part of the frozen, forward-only 5K SQL '',
      lit ''package. No rollback DDL is authored here; restore from a '',
      lit ''database backup taken before this revision if needed. (This '',
      lit ''revision only adds one new table and one new function '' @ [8212] @ lit '' a '',
      lit ''manual rollback, if ever needed with no rows yet written, would '',
      lit ''be: DROP FUNCTION crm.fn_claim_event; DROP TABLE '',
      lit ''crm.event_consumer_dedup CASCADE; '' @ [8212] @ lit '' an operational runbook '',
      lit ''note, not an Alembic-managed downgrade.)'']"

definition revision_095_5D4 :: revision_module where
  "revision_095_5D4 = wrapper (lit ''095_5D4'')
     (LitStr (lit ''095_5D4'')) (LitStr (lit ''094_5D3'')) LitNone LitNone (LitStr (lit ''095_5D4.sql''))
     [lit ''Migration 095_5D4 is part of the frozen, forward-only 5K SQL '',
      lit ''package. No rollback DDL is authored here. (This revision only '',
      lit ''adds one new function '' @ [8212] @ lit '' a manual rollback, if ever needed, '',
      lit ''would be: DROP FUNCTION crm.fn_apply_lead_score; '' @ [8212] @ lit '' an '',
      lit ''operational runbook note, not an Alembic-managed downgrade.)'']"

definition revision_096_5B2 :: revision_module where
  "revision_096_5B2 = wrapper (lit ''096_5B2'')
     (LitStr (lit ''096_5B2'')) (LitStr (lit ''095_5D4'')) LitNone LitNone (LitStr (lit ''096_5B2.sql''))
     [lit ''Migration 096_5B2 is part of the frozen, forward-only 5K SQL '',
      lit ''package. No rollback DDL is authored here. (Manual rollback, if '',
      lit ''ever needed: DELETE FROM organization.role_permissions WHERE '',
      lit ''permission_id = (SELECT id FROM organization.permissions WHERE '',
      lit ''name = 'crm_field:manage'); DELETE FROM organization.permissions '',
      lit ''WHERE name = 'crm_field:manage'; '' @ [8212] @ lit '' an operational runbook note, '',
      lit ''not an Alembic-managed downgrade.)'']"

definition revision_097_5D5 :: revision_module where
  "revision_097_5D5 = wrapper (lit ''097_5D5'')
     (LitStr (lit ''097_5D5'')) (LitStr (lit ''096_5B2'')) LitNone LitNone (LitStr (lit ''097_5D5.sql''))
     [lit ''Migration 097_5D5 is part of the frozen, forward-only 5K SQL '',
      lit ''package. No rollback DDL is authored here. (This revision only '',
      lit ''replaces one function's body via CREATE OR REPLACE '' @ [8212] @ lit '' a manual '',
      lit ''rollback, if ever needed, would re-apply 093_5D2.sql's original '',
      lit ''CREATE OR REPLACE FUNCTION crm.fn_merge_contacts(...) block, '',
      lit ''which would restore the PII-leaking payload; not recommended. '',
      lit ''An operational runbook note, not an Alembic-managed downgrade.)'']"

definition revision_098_5E1 :: revision_module where
  "revision_098_5E1 = wrapper (lit ''098_5E1'')
     (LitStr (lit ''098_5E1'')) (LitStr (lit ''097_5D5'')) LitNone LitNone (LitStr (lit ''098_5E1.sql''))
     [lit ''Migration 098_5E1 is part of the frozen, forward-only 5K SQL '',
      lit ''package. No rollback DDL is authored here. To revert, restore '',
      lit ''from a database backup taken before this revision was applied '',
      lit ''(campaign.campaign_contact_identities and its three new '',
      lit ''functions would need to be dropped, in dependency order: '',
      lit ''fn_reserve_dispatch, fn_enqueue_contact, fn_new_uuid_v7, then '',
      lit ''the table '' @ [8212] @ lit '' an operational runbook note, not an Alembic-managed '',
      lit ''downgrade).'']"

definition revision_099_5C1 :: revision_module where
  "revision_099_5C1 = wrapper (lit ''099_5C1'')
     (LitStr (lit ''099_5C1'')) (LitStr (lit ''098_5E1'')) LitNone LitNone (LitStr (lit ''099_5C1.sql''))
     [lit ''Migration 099_5C1 is part of the frozen, forward-only 5K SQL '',
      lit ''package. No rollback DDL is authored here. To revert, restore '',
      lit ''from a database backup taken before this revision was applied '',
      lit ''(the ten new voice.fn_* functions would need to be dropped, '',
      lit ''then voice.call_dispatch_keys itself, then the app_voice_reconciler '',
      lit ''role '' @ [8212] @ lit '' an operational runbook note, not an Alembic-managed '',
      lit ''downgrade).'']"

definition revision_100_5G1 :: revision_module where
  "revision_100_5G1 = wrapper (lit ''100_5G1'')
     (LitStr (lit ''100_5G1'')) (LitStr (lit ''099_5C1'')) LitNone LitNone (LitStr (lit ''100_5G1.sql''))
     [lit ''Migration 100_5G1 is part of the frozen, forward-only 5K SQL '',
      lit ''package. No rollback DDL is authored here. To revert, restore '',
      lit ''from a database backup taken before this revision was applied '',
      lit ''(workflow.node_execution_claims and its five functions would '',
      lit ''need to be dropped; workflow.workflow_executions.checkpoint_seq '',
      lit ''and its CHECK constraint would need to be dropped; '',
      lit ''fn_start_workflow_execution/fn_checkpoint_workflow_execution/'',
      lit ''fn_complete_workflow_execution/fn_fail_workflow_execution would '',
      lit ''need to be reverted to their 041_5G.sql-era shape; fn_publish_'',
      lit ''workflow/fn_archive_workflow would need to be dropped and the '',
      lit ''original 039_5G.sql fn_workflow_publish() restored; the INSERT/'',
      lit ''UPDATE grants on workflow_versions/workflow_definitions would '',
      lit ''need to be reverted to their pre-100_5G1 shape; the '',
      lit ''immutability/archived-terminal trigger functions would need '',
      lit ''reverting/dropping; fn_record_node_failed would need reverting '',
      lit ''to its earlier BOOLEAN-returning, SUBMITTING-permitting shape; '',
      lit ''and app_platform_admin's EXECUTE grant on '',
      lit ''fn_start_workflow_execution would need re-GRANTing '' @ [8212] @ lit '' an '',
      lit ''operational runbook note, not an Alembic-managed downgrade, '',
      lit ''matching every other revision in this package).'']"

definition revision_101_5I1 :: revision_module where
  "revision_101_5I1 = wrapper (lit ''101_5I1'')
     (LitStr (lit ''101_5I1'')) (LitStr (lit ''100_5G1'')) LitNone LitNone (LitStr (lit ''101_5I1.sql''))
     [lit ''Migration 101_5I1 is part of the frozen, forward-only 5K SQL '',
      lit ''package (5K/migrations/101_5I1.sql). No rollback DDL exists for '',
      lit ''it and none is authored here, to avoid creating schema changes '',
      lit ''outside the canonical migration files. To revert, restore from '',
      lit ''a database backup taken before this revision was applied. '',
      lit ''(This revision only adds new objects, widens EXECUTE grants, and '',
      lit ''CREATE-OR-REPLACEs pre-existing function bodies with an additive '',
      lit ''guard clause '' @ [8212] @ lit '' it narrows nothing and drops nothing '' @ [8212] @ lit '' so a manual '',
      lit ''reversal is also low-risk if no rows have been written to the new '',
      lit ''columns yet: REVOKE the 5 widened grants; DROP FUNCTION '',
      lit ''integrations.fn_activate_integration_connection, '',
      lit ''integrations.fn_fail_integration_connection, '',
      lit ''integrations.fn_degrade_integration_connection, '',
      lit ''integrations.fn_disconnect_integration_connection, '',
      lit ''integrations.fn_update_integration_connection_config, '',
      lit ''integrations.fn_record_integration_sync_result, '',
      lit ''integrations.fn_redeem_oauth_callback_state, '',
      lit ''integrations.fn_fail_oauth_callback_state, '',
      lit ''integrations.fn_record_oauth_exchange_failure, '',
      lit ''plugins.fn_suspend_plugin_installation, '',
      lit ''plugins.fn_reactivate_plugin_installation, '',
      lit ''plugins.fn_update_plugin_installation_config, '',
      lit ''plugins.fn_rotate_plugin_installation_credential, '',
      lit ''webhooks.fn_rotate_webhook_secret; '',
      lit ''ALTER TABLE integrations.oauth_attempts DROP COLUMN connection_id, '',
      lit ''DROP COLUMN failure_reason, DROP COLUMN exchange_failed_at; '',
      lit ''ALTER TABLE webhooks.webhook_endpoints DROP COLUMN '',
      lit ''previous_signing_secret_ref, DROP COLUMN previous_secret_expires_at; '',
      lit ''restore fn_create_integration_connection, '',
      lit ''fn_rotate_integration_credential, fn_redeem_oauth_attempt, '',
      lit ''fn_create_plugin_installation, fn_activate_plugin, '',
      lit ''fn_uninstall_plugin, fn_upgrade_plugin, '',
      lit ''fn_replay_webhook_delivery to their 059-066 bodies (CREATE OR '',
      lit ''REPLACE with those files' exact text) '' @ [8212] @ lit '' but this is an operational '',
      lit ''runbook note, not an Alembic-managed downgrade.)'']"

definition revision_102_5H2 :: revision_module where
  "revision_102_5H2 = wrapper (lit ''102_5H2'')
     (LitStr (lit ''102_5H2'')) (LitStr (lit ''101_5I1'')) LitNone LitNone (LitStr (lit ''102_5H2.sql''))
     [lit ''Migration 102_5H2 is part of the frozen, forward-only 5K SQL '',
      lit ''package (same forward-only policy as every revision since '',
      lit ''001_5B). No rollback DDL is authored here; restore from a '',
      lit ''database backup taken before this revision if needed. '',
      lit ''(Low-risk manual reversal, in dependency order: ALTER TABLE '',
      lit ''billing.payment_webhook_receipts DROP CONSTRAINT trg_pwr_event_kind_'',
      lit ''immutable (drop the trigger, not a constraint -- DROP TRIGGER '',
      lit ''trg_pwr_event_kind_immutable ON billing.payment_webhook_receipts), '',
      lit ''DROP FUNCTION billing.fn_pwr_event_kind_immutable(), DROP CONSTRAINT '',
      lit ''chk_pwr_success_requires_settlement_fields, DROP CONSTRAINT '',
      lit ''chk_pwr_event_kind, DROP COLUMN provider_failure_code, DROP COLUMN '',
      lit ''normalized_event_kind (re-opens FINAL-6K-F01 through F05, the '',
      lit ''amount/currency-bypass and no-durable-event-kind BLOCKERs -- not '',
      lit ''recommended); ALTER TABLE '',
      lit ''billing.commercial_pricing_agreements DROP CONSTRAINT '',
      lit ''uq_cpa_org_plan, ADD CONSTRAINT uq_cpa_org UNIQUE (organization_id) '',
      lit ''(only safe if no organization has more than one agreement row -- '',
      lit ''re-opens the cross-plan-family SIGNIFICANT finding if truly '',
      lit ''reverting, not recommended); DROP FUNCTION '',
      lit ''billing.fn_apply_successful_payment_webhook_receipt(UUID) (re-opens '',
      lit ''the settlement-atomicity BLOCKER FINAL-6K-C03 -- not recommended); '',
      lit ''ALTER TABLE billing.payment_webhook_receipts DROP CONSTRAINT '',
      lit ''chk_pwr_retry_scheduling, DROP CONSTRAINT chk_pwr_settled_currency, '',
      lit ''DROP COLUMN next_retry_at, DROP COLUMN event_occurred_at, DROP '',
      lit ''COLUMN settled_currency, DROP COLUMN settled_amount, DROP COLUMN '',
      lit ''provider_transaction_id (re-opens FINAL-6K-C01/C02, the '',
      lit ''convergence and durable-recovery BLOCKERs -- not recommended); '',
      lit ''ALTER TABLE billing.payment_webhook_receipts DROP CONSTRAINT '',
      lit ''chk_pwr_processed_requires_correlation (re-opens the webhook '',
      lit ''processing integrity BLOCKER if truly reverting -- not '',
      lit ''recommended; the fn_process_payment_webhook_receipt fail-closed '',
      lit ''checks would also need reverting to their pre-fifth-pass form '',
      lit ''for this to matter in practice); ALTER TABLE '',
      lit ''billing.usage_events DROP CONSTRAINT chk_ue_source_quantity_seconds '',
      lit ''(re-add the original non-negative-only version if truly reverting '',
      lit ''-- not recommended, re-opens FINAL-6K-02); GRANT INSERT, UPDATE, '',
      lit ''DELETE ON billing.payment_webhook_receipts TO app_platform_admin '',
      lit ''if truly reverting (re-opens FREEZE-6K-01 -- not recommended); '',
      lit ''REVOKE EXECUTE ON '',
      lit ''FUNCTION billing.fn_record_payment_webhook_receipt(TEXT, TEXT, '',
      lit ''CHAR, TEXT, NUMERIC, CHAR, TIMESTAMPTZ) '',
      lit ''FROM app_billing_webhook_ingress; DROP ROLE app_billing_webhook_'',
      lit ''ingress (only if no other object references it); GRANT back the '',
      lit ''REVOKEd frozen-file grants (payment_attempts/usage_events/'',
      lit ''cost_entries/invoice_lines/tax_lines/credits/credit_ledger_entries/'',
      lit ''refunds INSERT, per the SQL file's own Part G) if truly reverting; '',
      lit ''ALTER TABLE billing.usage_events DROP CONSTRAINT '',
      lit ''chk_ue_source_quantity_seconds, DROP COLUMN '',
      lit ''source_quantity_seconds; DROP FUNCTION '',
      lit ''billing.fn_create_payment_attempt(UUID, TEXT); DROP FUNCTION '',
      lit ''billing.fn_record_payment_webhook_receipt(TEXT, TEXT, CHAR); '',
      lit ''GRANT back commercial_pricing_agreements/...agreement_versions/'',
      lit ''...metrics INSERT/UPDATE/DELETE to app_platform_admin if truly '',
      lit ''reverting (re-opens FB-6K-01/02 '' @ [8212] @ lit '' not recommended); DROP FUNCTION '',
      lit ''billing.fn_create_late_usage_billing_adjustment(UUID, UUID, TEXT, '',
      lit ''NUMERIC, CHAR, TEXT, UUID, TEXT, JSONB); ALTER TABLE '',
      lit ''billing.billing_adjustments DROP COLUMN late_usage_provenance, '',
      lit ''DROP COLUMN late_usage_metric, DROP COLUMN '',
      lit ''late_usage_billing_period_id; DROP FUNCTION '',
      lit ''billing.fn_process_payment_webhook_receipt(UUID, TEXT, TEXT, '',
      lit ''TEXT); DROP TABLE billing.payment_webhook_receipts; ALTER TABLE '',
      lit ''billing.payment_attempts DROP CONSTRAINT chk_pa_method_kind, DROP '',
      lit ''COLUMN payment_method_kind; ALTER TABLE billing.payment_attempts '',
      lit ''ALTER COLUMN provider_transaction_id SET NOT NULL (only safe if '',
      lit ''no NULL rows exist); ALTER TABLE billing.invoice_lines DROP '',
      lit ''CONSTRAINT fk_il_cpav, DROP CONSTRAINT chk_il_pricing_provenance, '',
      lit ''DROP CONSTRAINT chk_il_included_qty_source, DROP CONSTRAINT '',
      lit ''chk_il_unit_price_source, DROP COLUMN '',
      lit ''commercial_pricing_agreement_version_id, DROP COLUMN '',
      lit ''included_quantity_source, DROP COLUMN unit_price_source; DROP '',
      lit ''TRIGGER trg_sub_agreement_plan_consistency ON billing.subscriptions; '',
      lit ''DROP TRIGGER trg_bp_agreement_plan_consistency ON '',
      lit ''billing.billing_periods; DROP FUNCTION '',
      lit ''billing.fn_bp_agreement_plan_consistency(); ALTER TABLE '',
      lit ''billing.billing_periods DROP CONSTRAINT fk_bp_cpav, DROP COLUMN '',
      lit ''commercial_pricing_agreement_version_id; ALTER TABLE '',
      lit ''billing.subscriptions DROP CONSTRAINT fk_sub_cpav, DROP COLUMN '',
      lit ''commercial_pricing_agreement_version_id; DROP FUNCTION '',
      lit ''billing.fn_expire_commercial_pricing_agreement_version(UUID, UUID, '',
      lit ''TEXT); DROP FUNCTION '',
      lit ''billing.fn_activate_commercial_pricing_agreement_version(UUID, '',
      lit ''UUID); DROP FUNCTION '',
      lit ''billing.fn_create_commercial_pricing_agreement_version(UUID, UUID, '',
      lit ''UUID, CHAR, NUMERIC, CHAR, DATE, DATE, TEXT, TEXT, TEXT, TEXT, '',
      lit ''JSONB); DROP FUNCTION '',
      lit ''billing.fn_create_commercial_pricing_agreement(UUID, UUID, TEXT, '',
      lit ''TEXT); DROP TABLE billing.commercial_pricing_metrics; DROP TABLE '',
      lit ''billing.commercial_pricing_agreement_versions; DROP TABLE '',
      lit ''billing.commercial_pricing_agreements '' @ [8212] @ lit '' but this reintroduces '',
      lit ''every gap this revision closes.)'']"

definition revision_103_5J2 :: revision_module where
  "revision_103_5J2 = wrapper (lit ''103_5J2'')
     (LitStr (lit ''103_5J2'')) (LitStr (lit ''102_5H2'')) LitNone LitNone (LitStr (lit ''103_5J2.sql''))
     [lit ''Migration 103_5J2 is part of the frozen, forward-only 5K SQL '',
      lit ''package (same forward-only policy as every revision since '',
      lit ''001_5B). No rollback DDL is authored here; restore from a '',
      lit ''database backup taken before this revision if needed. '',
      lit ''(Low-risk manual reversal, in dependency order: ALTER TABLE '',
      lit ''analytics.billing_revenue_monthly DROP CONSTRAINT '',
      lit ''chk_brm_margin_pct_requires_amount, DROP CONSTRAINT '',
      lit ''chk_brm_margin_requires_normalization, DROP COLUMN '',
      lit ''gross_margin_pct, DROP COLUMN gross_margin_amount, DROP COLUMN '',
      lit ''provider_cost_fx_rate_captured_at, DROP COLUMN '',
      lit ''provider_cost_fx_rate_source, DROP COLUMN '',
      lit ''provider_cost_fx_rate_used, DROP COLUMN '',
      lit ''provider_cost_amount_org_currency; ALTER TABLE '',
      lit ''analytics.roi_by_campaign DROP CONSTRAINT '',
      lit ''chk_rbc_roi_requires_normalization, DROP CONSTRAINT '',
      lit ''chk_rbc_revenue_normalization_present, DROP CONSTRAINT '',
      lit ''chk_rbc_cost_normalization_present, DROP CONSTRAINT '',
      lit ''chk_rbc_org_currency_code, DROP COLUMN '',
      lit ''estimated_revenue_fx_rate_captured_at, DROP COLUMN '',
      lit ''estimated_revenue_fx_rate_source, DROP COLUMN '',
      lit ''estimated_revenue_fx_rate_used, DROP COLUMN '',
      lit ''estimated_revenue_amount_org_currency, DROP COLUMN '',
      lit ''total_cost_fx_rate_captured_at, DROP COLUMN '',
      lit ''total_cost_fx_rate_source, DROP COLUMN total_cost_fx_rate_used, '',
      lit ''DROP COLUMN total_cost_amount_org_currency, DROP COLUMN '',
      lit ''org_currency -- but this reintroduces SCHEMA-GAP-6L-01, the '',
      lit ''cross-currency ROI/margin defect this revision closes; not '',
      lit ''recommended.)'']"

definition revision_104_5B3 :: revision_module where
  "revision_104_5B3 = wrapper (lit ''104_5B3'')
     (LitStr (lit ''104_5B3'')) (LitStr (lit ''103_5J2'')) LitNone LitNone (LitStr (lit ''104_5B3.sql''))
     [lit ''Migration 104_5B3 is part of the frozen, forward-only 5K SQL '',
      lit ''package (same forward-only policy as every revision since '',
      lit ''001_5B). No rollback DDL is authored here; restore from a '',
      lit ''database backup taken before this revision if needed. '',
      lit ''(Low-risk manual reversal: DELETE FROM organization.role_'',
      lit ''permissions WHERE permission_id IN (SELECT id FROM '',
      lit ''organization.permissions WHERE name IN ('recording:access_media', '',
      lit '''transcript:access_content')); DELETE FROM organization.permissions '',
      lit ''WHERE name IN ('recording:access_media', 'transcript:access_content'); '',
      lit ''UPDATE organization.permissions SET display_name = 'Access '',
      lit ''Recordings' WHERE name = 'recording:read'; UPDATE organization.'',
      lit ''permissions SET display_name = 'View Transcripts' WHERE name = '',
      lit '''transcript:read' -- but this reintroduces the confirmed RBAC '',
      lit ''contradiction this revision closes (MEMBER/VIEWER would again '',
      lit ''have no way to be excluded from sensitive recording playback / '',
      lit ''transcript content by default); not recommended.)'']"

definition revision_105_5B4 :: revision_module where
  "revision_105_5B4 = wrapper (lit ''105_5B4'')
     (LitStr (lit ''105_5B4'')) (LitStr (lit ''104_5B3'')) LitNone LitNone (LitStr (lit ''105_5B4.sql''))
     [lit ''Migration 105_5B4 is part of the frozen, forward-only 5K SQL '',
      lit ''package (same forward-only policy as every revision since '',
      lit ''001_5B). No rollback DDL is authored here; restore from a '',
      lit ''database backup taken before this revision if needed. '',
      lit ''(Low-risk manual reversal, in order: GRANT INSERT, UPDATE, '',
      lit ''DELETE ON organization.organizations TO app_platform_admin; '',
      lit ''DROP FUNCTION IF EXISTS organization.fn_platform_reactivate_'',
      lit ''organization(UUID, UUID, TEXT); DROP FUNCTION IF EXISTS '',
      lit ''organization.fn_platform_suspend_organization(UUID, UUID, TEXT); '',
      lit ''DROP FUNCTION IF EXISTS organization.fn_break_glass_check(UUID, '',
      lit ''UUID, UUID, TEXT, TEXT); restore fn_break_glass_grant to its '',
      lit ''087_5B1.sql 5-argument form; ALTER TABLE organization.break_glass_'',
      lit ''grants DROP CONSTRAINT chk_bgg_purposes_no_wildcard, DROP '',
      lit ''CONSTRAINT chk_bgg_purposes_allowed, DROP CONSTRAINT chk_bgg_'',
      lit ''purposes_nonempty, DROP COLUMN purposes -- but this reopens the '',
      lit ''6M SS10-11 blocker (generic break-glass alone would again be '',
      lit ''sufficient for sensitive-media access) and removes the only '',
      lit ''guarded platform-admin org lifecycle path; not recommended '',
      lit ''outside of restoring a pre-105 backup.)'']"

definition revision_106_5H3 :: revision_module where
  "revision_106_5H3 = wrapper (lit ''106_5H3'')
     (LitStr (lit ''106_5H3'')) (LitStr (lit ''105_5B4'')) LitNone LitNone (LitStr (lit ''106_5H3.sql''))
     [lit ''Migration 106_5H3 is part of the frozen, forward-only 5K SQL '',
      lit ''package (same forward-only policy as every revision since '',
      lit ''001_5B). No rollback DDL is authored here; restore from a '',
      lit ''database backup taken before this revision if needed. '',
      lit ''(Low-risk manual reversal, in order: GRANT INSERT, UPDATE, '',
      lit ''DELETE ON billing.payment_attempts, billing.refunds, billing.'',
      lit ''quota_configs TO app_platform_admin; DROP FUNCTION IF EXISTS '',
      lit ''billing.fn_platform_fail_refund(UUID, UUID, TEXT); DROP FUNCTION '',
      lit ''IF EXISTS billing.fn_platform_settle_refund(UUID, UUID, TEXT); '',
      lit ''DROP FUNCTION IF EXISTS billing.fn_platform_reserve_refund(UUID, '',
      lit ''UUID, UUID, NUMERIC, CHAR(3), TEXT); ALTER TABLE billing.refunds '',
      lit ''DROP CONSTRAINT chk_ref_failure_reason_len, DROP CONSTRAINT chk_ref_'',
      lit ''provider_refund_id_when_succeeded, DROP COLUMN failure_reason; '',
      lit ''ALTER TABLE billing.refunds ALTER COLUMN provider_refund_id SET '',
      lit ''NOT NULL -- only safe if no PENDING row with a NULL provider_'',
      lit ''refund_id exists; DROP FUNCTION IF EXISTS billing.fn_platform_'',
      lit ''set_quota_override(UUID, UUID, TEXT, NUMERIC, NUMERIC, TEXT, '',
      lit ''TIMESTAMPTZ, TEXT); ALTER TABLE billing.quota_configs DROP CONSTRAINT '',
      lit ''chk_qc_expires_after_effective, DROP COLUMN updated_by, DROP '',
      lit ''COLUMN expires_at, DROP COLUMN effective_from -- but this '',
      lit ''reopens the fn_validate_refund_amount double-refund race and '',
      lit ''removes the only guarded platform-admin quota-override path; '',
      lit ''not recommended outside of restoring a pre-106 backup.)'']"

definition revision_107_5B5 :: revision_module where
  "revision_107_5B5 = wrapper (lit ''107_5B5'')
     (LitStr (lit ''107_5B5'')) (LitStr (lit ''106_5H3'')) LitNone LitNone (LitStr (lit ''107_5B5.sql''))
     [lit ''Migration 107_5B5 is part of the frozen, forward-only 5K SQL '',
      lit ''package (same forward-only policy as every revision since '',
      lit ''001_5B). No rollback DDL is authored here; restore from a '',
      lit ''database backup taken before this revision if needed. '',
      lit ''(Manual reversal would require, in order, and is NOT '',
      lit ''recommended outside of restoring a pre-107 backup because it '',
      lit ''reopens every defect this migration closes: DROP FUNCTION IF '',
      lit ''EXISTS voice.fn_platform_access_transcript(UUID, UUID, UUID, '',
      lit ''TEXT, UUID); DROP FUNCTION IF EXISTS voice.fn_platform_access_'',
      lit ''recording(UUID, UUID, UUID, TEXT, UUID); re-issue GRANT SELECT, '',
      lit ''INSERT, UPDATE, DELETE ON voice.recordings, voice.transcripts, '',
      lit ''voice.transcript_segments, voice.conversations, voice.turns TO '',
      lit ''app_platform_admin (restoring 018_5C.sql's original blanket '',
      lit ''grant, including unrestricted access to storage_ref/text/'',
      lit ''summary_text/utterance_text/response_text -- this recreates '',
      lit ''the P0 raw sensitive-media defect); REVOKE EXECUTE ON FUNCTION '',
      lit ''billing.fn_platform_settle_refund(UUID, UUID, TEXT), billing.'',
      lit ''fn_platform_fail_refund(UUID, UUID, TEXT) FROM app_billing_'',
      lit ''reconciler and GRANT EXECUTE ... TO app_api, app_platform_admin '',
      lit ''(restoring 106_5H3.sql's original grants and the is_platform_'',
      lit ''admin()-based check in both function bodies -- this recreates '',
      lit ''the P1 refund-fabrication defect); DROP ROLE IF EXISTS app_'',
      lit ''billing_reconciler (only after revoking its schema/function '',
      lit ''grants and confirming no live connections); revert billing.fn_'',
      lit ''platform_reserve_refund, billing.fn_platform_set_quota_'',
      lit ''override, organization.fn_platform_suspend_organization, '',
      lit ''organization.fn_platform_reactivate_organization, organization.'',
      lit ''fn_break_glass_release, and both organization.fn_break_glass_'',
      lit ''grant overloads to their pre-107 bodies (dropping the internal '',
      lit ''audit.fn_insert_audit_event calls and the set_config('app.'',
      lit ''tenant_id', ...) calls -- this recreates the P1 non-atomic-'',
      lit ''audit defect) and re-issue GRANT EXECUTE ... TO app_api on all '',
      lit ''of them; GRANT EXECUTE ON FUNCTION organization.fn_break_glass_'',
      lit ''check(UUID, UUID, UUID, TEXT, TEXT) TO app_api; finally CREATE '',
      lit ''OR REPLACE FUNCTION organization.is_platform_admin() reverting '',
      lit ''to the 106_5H3 COALESCE-only body (dropping the session_user = '',
      lit '''app_platform_admin' check -- this recreates the P0 self-'',
      lit ''forgery defect, and must be done LAST since every other '',
      lit ''function above depends on is_platform_admin() for its own '',
      lit ''authorization check during the window it is being reverted).)'']"

definition revision_108_5B6 :: revision_module where
  "revision_108_5B6 = wrapper (lit ''108_5B6'')
     (LitStr (lit ''108_5B6'')) (LitStr (lit ''107_5B5'')) LitNone LitNone (LitStr (lit ''108_5B6.sql''))
     [lit ''Migration 108_5B6 is part of the frozen, forward-only 5K SQL '',
      lit ''package (same forward-only policy as every revision since '',
      lit ''001_5B). No rollback DDL is authored here; restore from a '',
      lit ''database backup taken before this revision if needed. '',
      lit ''(Manual reversal would require re-issuing GRANT SELECT, '',
      lit ''INSERT, UPDATE, DELETE ON voice.transcript_segments_2026_09, '',
      lit ''voice.transcript_segments_2026_10, voice.transcript_segments_'',
      lit ''2026_11, voice.transcript_segments_2026_12, voice.'',
      lit ''transcript_segments_default TO app_platform_admin for each '',
      lit ''existing partition -- this recreates finding F-26-1, the '',
      lit ''child-partition sensitive-content bypass this migration '',
      lit ''closes, and is NOT recommended outside of restoring a '',
      lit ''pre-108 backup.)'']"

definition revision_109_5B7 :: revision_module where
  "revision_109_5B7 = wrapper (lit ''109_5B7'')
     (LitStr (lit ''109_5B7'')) (LitStr (lit ''108_5B6'')) LitNone LitNone (LitStr (lit ''109_5B7.sql''))
     [lit ''Migration 109_5B7 is part of the frozen, forward-only 5K SQL '',
      lit ''package (same forward-only policy as every revision since '',
      lit ''001_5B). No rollback DDL is authored here; restore from a '',
      lit ''database backup taken before this revision if needed. '',
      lit ''(Manual reversal would require: dropping the 14 new '',
      lit ''fn_platform_* guarded functions and identity.'',
      lit ''fn_platform_revoke_all_sessions; dropping the 3 new views '',
      lit ''identity.v_platform_safe_users/v_platform_safe_sessions/'',
      lit ''v_platform_safe_api_keys; and re-issuing GRANT INSERT, UPDATE, '',
      lit ''DELETE (as applicable) TO app_platform_admin on billing.credits, '',
      lit ''billing.credit_ledger_entries, billing.billing_adjustments, '',
      lit ''billing.plans, billing.plan_versions, billing.plan_prices, '',
      lit ''billing.tax_categories, billing.tax_rules, and GRANT SELECT, '',
      lit ''INSERT, UPDATE, DELETE TO app_platform_admin on identity.users, '',
      lit ''identity.sessions, identity.api_keys, plus re-issuing GRANT '',
      lit ''INSERT, UPDATE, DELETE TO app_platform_admin on webhooks.'',
      lit ''webhook_deliveries and each of its existing child partitions, '',
      lit ''and re-issuing GRANT EXECUTE TO app_platform_admin on the six '',
      lit ''raw functions this migration narrowed (billing.'',
      lit ''fn_billing_apply_credit, billing.fn_create_billing_adjustment, '',
      lit ''billing.fn_create_commercial_pricing_agreement[_version], '',
      lit ''billing.fn_activate_commercial_pricing_agreement_version, '',
      lit ''billing.fn_expire_commercial_pricing_agreement_version) -- this '',
      lit ''recreates every over-broad Platform Admin grant Phase 6M's '',
      lit ''closure pass exists to remove, and is NOT recommended outside '',
      lit ''of restoring a pre-109 backup.)'']"

definition revision_110_5C2 :: revision_module where
  "revision_110_5C2 = wrapper (lit ''110_5C2'')
     (LitStr (lit ''110_5C2'')) (LitStr (lit ''109_5B7'')) LitNone LitNone (LitStr (lit ''110_5C2.sql''))
     [lit ''Migration 110_5C2 is part of the frozen, forward-only 5K SQL '',
      lit ''package (same forward-only policy as every revision since '',
      lit ''001_5B). No rollback DDL is authored here; restore from a '',
      lit ''database backup taken before this revision if needed. '',
      lit ''(Manual reversal would require: dropping trigger '',
      lit ''trg_agents_mutation_guard and the functions '',
      lit ''voice.fn_agents_mutation_guard, voice.fn_create_agent, '',
      lit ''voice.fn_clone_agent, voice.fn_assert_agent_actor and '',
      lit ''voice.fn_assert_agent_quota_admission, and re-issuing GRANT '',
      lit ''INSERT ON voice.agents TO app_api, app_worker, '',
      lit ''app_platform_admin -- this reopens both the raw Agent INSERT '',
      lit ''bypass and the counted-set re-entry bypass that defeat the '',
      lit ''hard ACTIVE_AGENTS quota invariant owner decision FAR-OD-01 '',
      lit ''exists to enforce, and is NOT recommended outside of restoring '',
      lit ''a pre-110 backup.)'']"

definition revision_111_5H4 :: revision_module where
  "revision_111_5H4 = wrapper (lit ''111_5H4'')
     (LitStr (lit ''111_5H4'')) (LitStr (lit ''110_5C2'')) LitNone LitNone (LitStr (lit ''111_5H4.sql''))
     [lit ''Migration 111_5H4 is part of the frozen, forward-only 5K SQL '',
      lit ''package (same forward-only policy as every revision since '',
      lit ''001_5B). No rollback DDL is authored here; restore from a '',
      lit ''database backup taken before this revision if needed. '',
      lit ''(Manual reversal would require: dropping table '',
      lit ''billing.quota_overrides, dropping '',
      lit ''billing.fn_resolve_effective_quota and '',
      lit ''billing.fn_is_canonical_usage_metric, and restoring the 107_5B5 '',
      lit ''bodies of billing.fn_platform_set_quota_override and the 110_5C2 '',
      lit ''body of voice.fn_assert_agent_quota_admission -- this destroys '',
      lit ''the Platform Admin override history that 6M section 18 reports '',
      lit ''and that the QUOTA_OVERRIDE_SET audit trail references, and '',
      lit ''reinstates both the metric-vocabulary regression FAR-P1-04 and '',
      lit ''the base-quota overwrite / expiry-to-unlimited defect FAR-P1-05 '',
      lit ''that owner decision FAR-OD-02 exists to close. It is NOT '',
      lit ''recommended outside of restoring a pre-111 backup.)'']"

definition revision_112_5H5 :: revision_module where
  "revision_112_5H5 = wrapper (lit ''112_5H5'')
     (LitStr (lit ''112_5H5'')) (LitStr (lit ''111_5H4'')) LitNone LitNone (LitStr (lit ''112_5H5.sql''))
     [lit ''Migration 112_5H5 is part of the frozen, forward-only 5K SQL '',
      lit ''package (same forward-only policy as every revision since '',
      lit ''001_5B). No rollback DDL is authored here; restore from a '',
      lit ''database backup taken before this revision if needed. '',
      lit ''(Manual reversal would require: dropping table '',
      lit ''billing.capacity_quota_overrides, dropping '',
      lit ''billing.fn_resolve_effective_capacity_quota and '',
      lit ''billing.fn_is_canonical_capacity_quota_metric, and restoring the '',
      lit ''111_5H4 bodies of billing.fn_platform_set_quota_override and '',
      lit ''billing.fn_is_canonical_usage_metric -- this destroys the '',
      lit ''Platform Admin capacity override history that 6M section 18 '',
      lit ''reports and that the QUOTA_OVERRIDE_SET audit trail references, '',
      lit ''reinstates the NULL-metric fail-open defect FAR-P2-08, and '',
      lit ''reinstates the CONCURRENT_CALLS quota contradiction FAR-P1-06 '',
      lit ''that owner decision FAR-OD-03 exists to close, leaving SRS '',
      lit ''FR-TEN-005 with no representable quota dimension again. It is '',
      lit ''NOT recommended outside of restoring a pre-112 backup.)'']"

definition repository_modules :: "revision_module list" where
  "repository_modules = [
     revision_001_5B, revision_002_5B, revision_003_5B, revision_004_5B,
     revision_005_5B, revision_006_5B, revision_007_5B, revision_008_5B,
     revision_009_5C, revision_010_5C, revision_011_5C, revision_012_5C,
     revision_013_5C, revision_014_5C, revision_015_5C, revision_016_5C,
     revision_017_5C, revision_018_5C, revision_019_5D, revision_020_5D,
     revision_021_5D, revision_022_5D, revision_023_5D, revision_024_5D,
     revision_025_5D, revision_026_5D, revision_027_5E, revision_028_5E,
     revision_029_5E, revision_030_5E, revision_031_5E, revision_032_5E,
     revision_033_5E, revision_034_5F, revision_035_5F, revision_036_5F,
     revision_037_5F, revision_038_5F, revision_039_5G, revision_040_5G,
     revision_041_5G, revision_042_5G, revision_043_5F, revision_044_5F,
     revision_045_5G, revision_046_5G, revision_047_5H, revision_048_5H,
     revision_049_5H, revision_050_5H, revision_051_5H, revision_052_5H,
     revision_053_5H, revision_054_5H, revision_055_5H, revision_056_5H,
     revision_057_5H, revision_058_5H, revision_059_5I, revision_060_5I,
     revision_061_5I, revision_062_5I, revision_063_5I, revision_064_5I,
     revision_065_5I, revision_066_5I, revision_067_5J, revision_068_5J,
     revision_069_5J, revision_070_5J, revision_071_5J, revision_072_5J,
     revision_073_5J, revision_074_5J, revision_075_5J, revision_076_5K1,
     revision_077_5J1, revision_078_5F1, revision_079_5F2, revision_080_5F3,
     revision_081_5F4, revision_082_5F5, revision_083_5F6, revision_084_5F7,
     revision_085_5D1, revision_086_5H1, revision_087_5B1, revision_088_5F8,
     revision_089_5F9, revision_090_5F10, revision_091_5F11, revision_092_5F12,
     revision_093_5D2, revision_094_5D3, revision_095_5D4, revision_096_5B2,
     revision_097_5D5, revision_098_5E1, revision_099_5C1, revision_100_5G1,
     revision_101_5I1, revision_102_5H2, revision_103_5J2, revision_104_5B3,
     revision_105_5B4, revision_106_5H3, revision_107_5B5, revision_108_5B6,
     revision_109_5B7, revision_110_5C2, revision_111_5H4, revision_112_5H5]"

end
