(* ===== verification/AlembicPackage.thy ===== *)
theory AlembicPackage
  imports AlembicRevisions
begin

text \<open>
  Facts about the 112 revision modules: the package they make passes the static validation of
  \<open>MigrationGraph\<close>, and each module runs exactly its own SQL file.
\<close>

section \<open>The repository's own package\<close>

text \<open>The file names of \<open>versions/\<close> without their suffix, in file order.\<close>

definition frozen_ids :: "pystr list" where
  "frozen_ids = [
     lit ''001_5B'', lit ''002_5B'', lit ''003_5B'', lit ''004_5B'', lit ''005_5B'', lit ''006_5B'', lit ''007_5B'', lit ''008_5B'',
     lit ''009_5C'', lit ''010_5C'', lit ''011_5C'', lit ''012_5C'', lit ''013_5C'', lit ''014_5C'', lit ''015_5C'', lit ''016_5C'',
     lit ''017_5C'', lit ''018_5C'', lit ''019_5D'', lit ''020_5D'', lit ''021_5D'', lit ''022_5D'', lit ''023_5D'', lit ''024_5D'',
     lit ''025_5D'', lit ''026_5D'', lit ''027_5E'', lit ''028_5E'', lit ''029_5E'', lit ''030_5E'', lit ''031_5E'', lit ''032_5E'',
     lit ''033_5E'', lit ''034_5F'', lit ''035_5F'', lit ''036_5F'', lit ''037_5F'', lit ''038_5F'', lit ''039_5G'', lit ''040_5G'',
     lit ''041_5G'', lit ''042_5G'', lit ''043_5F'', lit ''044_5F'', lit ''045_5G'', lit ''046_5G'', lit ''047_5H'', lit ''048_5H'',
     lit ''049_5H'', lit ''050_5H'', lit ''051_5H'', lit ''052_5H'', lit ''053_5H'', lit ''054_5H'', lit ''055_5H'', lit ''056_5H'',
     lit ''057_5H'', lit ''058_5H'', lit ''059_5I'', lit ''060_5I'', lit ''061_5I'', lit ''062_5I'', lit ''063_5I'', lit ''064_5I'',
     lit ''065_5I'', lit ''066_5I'', lit ''067_5J'', lit ''068_5J'', lit ''069_5J'', lit ''070_5J'', lit ''071_5J'', lit ''072_5J'',
     lit ''073_5J'', lit ''074_5J'', lit ''075_5J'', lit ''076_5K1'', lit ''077_5J1'', lit ''078_5F1'', lit ''079_5F2'', lit ''080_5F3'',
     lit ''081_5F4'', lit ''082_5F5'', lit ''083_5F6'', lit ''084_5F7'', lit ''085_5D1'', lit ''086_5H1'', lit ''087_5B1'', lit ''088_5F8'',
     lit ''089_5F9'', lit ''090_5F10'', lit ''091_5F11'', lit ''092_5F12'', lit ''093_5D2'', lit ''094_5D3'', lit ''095_5D4'', lit ''096_5B2'',
     lit ''097_5D5'', lit ''098_5E1'', lit ''099_5C1'', lit ''100_5G1'', lit ''101_5I1'', lit ''102_5H2'', lit ''103_5J2'', lit ''104_5B3'',
     lit ''105_5B4'', lit ''106_5H3'', lit ''107_5B5'', lit ''108_5B6'', lit ''109_5B7'', lit ''110_5C2'', lit ''111_5H4'', lit ''112_5H5'']"

text \<open>A module's version file, and the package: the content hash is that of \<open>files\<close>.\<close>

definition frozen_version :: "pystr \<Rightarrow> pystr option \<Rightarrow> version_file" where
  "frozen_version i d =
     \<lparr>vf_name = i @ lit ''.py'', vf_stem = i,
      vf_body = wrapper_body (LitStr i) (case d of None \<Rightarrow> LitNone | Some x \<Rightarrow> LitStr x) LitNone LitNone
        (LitStr (sql_name i))\<rparr>"

definition repository_package :: "package_file list \<Rightarrow> package" where
  "repository_package files =
     \<lparr>pk_versions_dir = True, pk_migrations_dir = True,
      pk_versions = map version_file.truncate repository_modules,
      pk_sql = map sql_name frozen_ids, pk_files = files\<rparr>"

lemmas repository_defs =
  revision_001_5B_def revision_002_5B_def revision_003_5B_def revision_004_5B_def
  revision_005_5B_def revision_006_5B_def revision_007_5B_def revision_008_5B_def
  revision_009_5C_def revision_010_5C_def revision_011_5C_def revision_012_5C_def
  revision_013_5C_def revision_014_5C_def revision_015_5C_def revision_016_5C_def
  revision_017_5C_def revision_018_5C_def revision_019_5D_def revision_020_5D_def
  revision_021_5D_def revision_022_5D_def revision_023_5D_def revision_024_5D_def
  revision_025_5D_def revision_026_5D_def revision_027_5E_def revision_028_5E_def
  revision_029_5E_def revision_030_5E_def revision_031_5E_def revision_032_5E_def
  revision_033_5E_def revision_034_5F_def revision_035_5F_def revision_036_5F_def
  revision_037_5F_def revision_038_5F_def revision_039_5G_def revision_040_5G_def
  revision_041_5G_def revision_042_5G_def revision_043_5F_def revision_044_5F_def
  revision_045_5G_def revision_046_5G_def revision_047_5H_def revision_048_5H_def
  revision_049_5H_def revision_050_5H_def revision_051_5H_def revision_052_5H_def
  revision_053_5H_def revision_054_5H_def revision_055_5H_def revision_056_5H_def
  revision_057_5H_def revision_058_5H_def revision_059_5I_def revision_060_5I_def
  revision_061_5I_def revision_062_5I_def revision_063_5I_def revision_064_5I_def
  revision_065_5I_def revision_066_5I_def revision_067_5J_def revision_068_5J_def
  revision_069_5J_def revision_070_5J_def revision_071_5J_def revision_072_5J_def
  revision_073_5J_def revision_074_5J_def revision_075_5J_def revision_076_5K1_def
  revision_077_5J1_def revision_078_5F1_def revision_079_5F2_def revision_080_5F3_def
  revision_081_5F4_def revision_082_5F5_def revision_083_5F6_def revision_084_5F7_def
  revision_085_5D1_def revision_086_5H1_def revision_087_5B1_def revision_088_5F8_def
  revision_089_5F9_def revision_090_5F10_def revision_091_5F11_def revision_092_5F12_def
  revision_093_5D2_def revision_094_5D3_def revision_095_5D4_def revision_096_5B2_def
  revision_097_5D5_def revision_098_5E1_def revision_099_5C1_def revision_100_5G1_def
  revision_101_5I1_def revision_102_5H2_def revision_103_5J2_def revision_104_5B3_def
  revision_105_5B4_def revision_106_5H3_def revision_107_5B5_def revision_108_5B6_def
  revision_109_5B7_def revision_110_5C2_def revision_111_5H4_def revision_112_5H5_def

lemma truncate_wrapper:
  "version_file.truncate (wrapper i a b c d e ms) =
     \<lparr>vf_name = i @ lit ''.py'', vf_stem = i, vf_body = wrapper_body a b c d e\<rparr>"
  by (simp add: wrapper_def version_file.truncate_def)

lemma repository_versions:
  "map version_file.truncate repository_modules =
     map2 frozen_version frozen_ids (None # map Some (butlast frozen_ids))"
  unfolding repository_modules_def list.map repository_defs truncate_wrapper
  by (simp add: frozen_ids_def frozen_version_def sql_name_def lit_def)

text \<open>The three digits of an identifier, for any tables of the runtime.\<close>

lemma ordinal_ascii:
  assumes "is_adigit a" "is_adigit b" "is_adigit c"
  shows "ordinal R (a # b # c # c_under # ds) = int (100 * (a - 48) + 10 * (b - 48) + (c - 48))"
proof -
  let ?t = "a # b # c # c_under # ds"
  have asc: "is_ascii a" "is_ascii b" "is_ascii c"
    using assms by (auto simp: is_adigit_def is_ascii_def)
  have "rx_match (ordinal_rx R) ?t 0 Map.empty = [(4, [1 \<mapsto> (0, 3)])]"
    using assms asc
    by (simp add: ordinal_rx_def rx_ch_def rx_iter.simps is_digit_def Let_def eval_nat_numeral)
  then show ?thesis using assms asc
    by (simp add: ordinal_def rx_at_def rx_group_def slice_def int_value_def digit_val_def)
qed

lemma frozen_ordinals: "map (ordinal R) frozen_ids = map int [1 ..< 113]"
  unfolding frozen_ids_def
  by (simp add: lit_eval ordinal_ascii is_adigit_def upt_rec_numeral upt_rec [of 1 113]
      del: One_nat_def)

lemma frozen_ids_facts:
  "distinct frozen_ids" "length frozen_ids = 112" "hd frozen_ids = lit ''001_5B''"
  "last frozen_ids = lit ''112_5H5''" "frozen_ids \<noteq> []"
proof -
  have "distinct (map (ordinal undefined) frozen_ids)"
    unfolding frozen_ordinals by (simp add: distinct_map inj_on_def)
  then show "distinct frozen_ids" by (simp add: distinct_map)
  show "length frozen_ids = 112" "hd frozen_ids = lit ''001_5B''" "frozen_ids \<noteq> []"
    "last frozen_ids = lit ''112_5H5''"
    by (simp_all add: frozen_ids_def)
qed

definition frozen_revisions :: "revision list" where
  "frozen_revisions = map2 (\<lambda>i d. \<lparr>rev_id = i, rev_down = d, rev_sql = Some (sql_name i)\<rparr>)
     frozen_ids (None # map Some (butlast frozen_ids))"

lemma read_revision_frozen:
  "read_revision (frozen_version i d)
    = Inr (Some \<lparr>rev_id = i, rev_down = d, rev_sql = Some (sql_name i)\<rparr>, [])"
  by (cases d) (simp_all add: read_revision_def frozen_version_def wrapper_body_def store_constant_def)

lemma read_revisions_in_frozen:
  "length ds = length ids \<Longrightarrow> read_revisions_in (map2 frozen_version ids ds)
    = Inr (map2 (\<lambda>i d. \<lparr>rev_id = i, rev_down = d, rev_sql = Some (sql_name i)\<rparr>) ids ds, [])"
  by (induction ids ds rule: list_induct2') (simp_all add: read_revision_frozen)

lemma frozen_names_sorted: "sorted (map (\<lambda>i. i @ lit ''.py'') frozen_ids)"
  unfolding frozen_ids_def by (simp add: lit_eval sorted2_simps del: sorted_wrt.simps)

lemma read_revisions_frozen:
  "read_revisions (map version_file.truncate repository_modules) = Inr (frozen_revisions, [])"
proof -
  have len: "length (None # map Some (butlast frozen_ids)) = length frozen_ids"
    using frozen_ids_facts(5) by simp
  have "map vf_name (map2 frozen_version ids ds) = map (\<lambda>i. i @ lit ''.py'') ids"
    if "length ds = length ids" for ids ds
    using that by (induction ids ds rule: list_induct2') (simp_all add: frozen_version_def)
  from this [OF len]
  have "map vf_name (map version_file.truncate repository_modules) = map (\<lambda>i. i @ lit ''.py'') frozen_ids"
    by (simp add: repository_versions)
  then have "sort_key vf_name (map version_file.truncate repository_modules) = map version_file.truncate repository_modules"
    using frozen_names_sorted by (simp add: sort_key_id_if_sorted)
  then show ?thesis using read_revisions_in_frozen [OF len]
    by (simp add: read_revisions_def repository_versions frozen_revisions_def)
qed

lemma frozen_is_linear: "is_linear_chain frozen_revisions frozen_ids"
proof -
  let ?rev = "\<lambda>i d. \<lparr>rev_id = i, rev_down = d, rev_sql = Some (sql_name i)\<rparr>"
  have "map rev_id (map2 ?rev ids ds) = ids \<and> map rev_down (map2 ?rev ids ds) = ds"
    if "length ds = length ids" for ids ds
    using that by (induction ids ds rule: list_induct2') simp_all
  from this [of "None # map Some (butlast frozen_ids)" frozen_ids] frozen_ids_facts(5)
  have "map rev_id frozen_revisions = frozen_ids"
    "map rev_down frozen_revisions = None # map Some (butlast frozen_ids)"
    unfolding frozen_revisions_def by simp_all
  moreover have "frozen_revisions \<noteq> []" using calculation(2) by force
  ultimately show ?thesis unfolding is_linear_chain_def by (intro exI [of _ frozen_revisions] conjI) auto
qed


lemma repository_accepted:
  "\<exists>rp. validate_frozen_baseline R (\<lambda>_. FROZEN_MIGRATION_PACKAGE_SHA256) (repository_package [])
     = Some (Inr rp) \<and> rp_chain rp = frozen_ids"
proof -
  have "map rev_sql frozen_revisions = map (\<lambda>r. Some (sql_name (rev_id r))) frozen_revisions"
    by (simp add: frozen_revisions_def split_def)
  moreover have "compute_package_digest (\<lambda>_. FROZEN_MIGRATION_PACKAGE_SHA256) []
      = Some FROZEN_MIGRATION_PACKAGE_SHA256"
    by (simp add: compute_package_digest_def)
  ultimately show ?thesis
    using read_revisions_frozen frozen_is_linear frozen_ids_facts frozen_ordinals
    by (intro frozen_history_accepted) (auto simp: is_frozen_history_def repository_package_def)
qed

definition frozen_report :: "pystr \<Rightarrow> report" where
  "frozen_report h =
     \<lparr>rp_revision_count = 112, rp_sql_file_count = 112, rp_roots = [lit ''001_5B''],
      rp_heads = [lit ''112_5H5''], rp_chain = frozen_ids, rp_sha256 = h, rp_defects = []\<rparr>"

lemma inspect_repository:
  "inspect_migration_package R sha (repository_package files) =
     Some (case compute_package_digest sha files of
       None \<Rightarrow> Inl PathNotEncodable | Some h \<Rightarrow> Inr (frozen_report h))"
proof -
  from repository_accepted [of R] obtain rp where
    v: "validate_frozen_baseline R (\<lambda>_. FROZEN_MIGRATION_PACKAGE_SHA256) (repository_package []) = Some (Inr rp)"
    and chain: "rp_chain rp = frozen_ids" by blast
  then have "inspect_migration_package R (\<lambda>_. FROZEN_MIGRATION_PACKAGE_SHA256) (repository_package []) = Some (Inr rp)"
    and "find_baseline_violations rp = []"
    by (auto simp: validate_frozen_baseline_def split: option.splits sum.splits list.splits)
  with chain have "walk_chain frozen_revisions (roots_of frozen_revisions) = Some frozen_ids"
    "graph_defects R frozen_revisions (map sql_name frozen_ids) frozen_ids = []"
    "length frozen_revisions = 112" "roots_of frozen_revisions = [lit ''001_5B'']"
    "heads_of frozen_revisions = [lit ''112_5H5'']"
    using read_revisions_frozen
    by (auto simp: inspect_migration_package_def repository_package_def find_baseline_violations_Nil
        EXPECTED_SCHEMA_ROOT_def EXPECTED_SCHEMA_HEAD_def EXPECTED_REVISION_COUNT_def
        split: option.splits)
  then show ?thesis using read_revisions_frozen frozen_ids_facts(2)
    by (simp add: inspect_migration_package_def repository_package_def frozen_report_def split: option.split)
qed

text \<open>
  C38: the repository's own package, whatever the bytes of its files: the validation of the
  frozen baseline accepts it, with the 112 revisions in file order as its chain, exactly when
  its content has the frozen hash; otherwise the content is the only violation.
\<close>

theorem repository_accepted_iff_frozen:
  "validate_frozen_baseline R sha (repository_package files) = Some
     (case compute_package_digest sha files of
        None \<Rightarrow> Inl (Unreadable PathNotEncodable)
      | Some h \<Rightarrow> if h = FROZEN_MIGRATION_PACKAGE_SHA256 then Inr (frozen_report h)
          else Inl (NotFrozenBaseline [ContentDiffers h]))"
  by (simp add: validate_frozen_baseline_def inspect_repository frozen_report_def find_baseline_violations_def
      EXPECTED_SCHEMA_ROOT_def EXPECTED_SCHEMA_HEAD_def EXPECTED_REVISION_COUNT_def split: option.split)

section \<open>What the modules do\<close>

lemma sql_file_wrapper: "sql_file (wrapper i (LitStr a) d LitNone LitNone (LitStr s) ms) = (if d = NotLiteral then None else Some s)"
  by (simp add: sql_file_def wrapper_def wrapper_body_def store_constant_def)

lemma repository_sql_files: "map sql_file repository_modules = map (\<lambda>i. Some (sql_name i)) frozen_ids"
  unfolding repository_modules_def list.map repository_defs sql_file_wrapper
  by (simp add: frozen_ids_def sql_name_def lit_def)

text \<open>
  the functions of the 112 modules, in file order: \<open>upgrade\<close> runs the SQL file that has the
  name of the revision, and no other.
\<close>

theorem repository_upgrades:
  "map (upgrade fs exec) repository_modules = map (\<lambda>i. run_frozen_sql fs exec (sql_name i)) frozen_ids"
proof -
  have "map (upgrade fs exec) ms = map (\<lambda>i. run_frozen_sql fs exec (sql_name i)) ids"
    if "map sql_file ms = map (\<lambda>i. Some (sql_name i)) ids" for ms ids
    using that by (induction ms arbitrary: ids) (auto simp: upgrade_def fun_eq_iff)
  from this [OF repository_sql_files] show ?thesis .
qed

end
