(* ===== verification/TokenRules.thy ===== *)
theory TokenRules
  imports Decoding
begin

text \<open>
  \<open>_scrub_tokens\<close> of \<open>redaction.py\<close>: PEM private keys, bearer, digest and token credentials,
  and JSON Web Tokens.
\<close>

section \<open>Substitutions\<close>

definition mask_pem :: "pystr \<Rightarrow> pystr" where
  "mask_pem t = (if py_in (lit ''PRIVATE KEY-----'') t then rx_sub PEM (\<lambda>_. REDACTED) t else t)"

text \<open>The replacement \<open>\g<scheme> [REDACTED]\<close>.\<close>

definition keep_scheme :: "pystr \<Rightarrow> rxm \<Rightarrow> pystr" where
  "keep_scheme t m = (case rx_group t m 1 of None \<Rightarrow> [] | Some s \<Rightarrow> s) @ [c_space] @ REDACTED"

definition mask_bearer :: "pyrt \<Rightarrow> pystr \<Rightarrow> pystr" where
  "mask_bearer R t = rx_sub (BEARER R) (keep_scheme t) t"

definition mask_digest :: "pyrt \<Rightarrow> pystr \<Rightarrow> pystr" where
  "mask_digest R t = rx_sub (DIGEST R) (keep_scheme t) t"

definition mask_token_value :: "pyrt \<Rightarrow> pystr \<Rightarrow> pystr" where
  "mask_token_value R t = rx_sub (TOKEN_VALUE R) (keep_scheme t) t"

text \<open>\<open>mask_jwt\<close>: the loop over the candidates of one run.\<close>

definition jwt_mark :: pystr where
  "jwt_mark = lit ''eyJ''"

function mask_jwt_from :: "pystr \<Rightarrow> nat \<Rightarrow> pystr" where
  "mask_jwt_from run start =
     (case py_find run jwt_mark start (length run) of
        None \<Rightarrow> run
      | Some i \<Rightarrow>
          (if i = 0 \<or> run ! (i - 1) = c_dash \<or> run ! (i - 1) = c_dot then
             (if count_list (drop i run) c_dot < 2 then run else take i run @ REDACTED)
           else mask_jwt_from run (i + 1)))"
  by pat_completeness auto
termination
proof (relation "measure (\<lambda>(run, start). length run - start)")
  fix run :: pystr and start i
  assume "py_find run jwt_mark start (length run) = Some i"
  from py_find_SomeD [OF this] have "start \<le> i" "i < length run" by (auto simp: jwt_mark_def)
  then show "((run, i + 1), run, start) \<in> measure (\<lambda>(run, start). length run - start)" by simp
qed simp

declare mask_jwt_from.simps [simp del]

definition mask_jwt :: "pystr \<Rightarrow> pystr" where
  "mask_jwt run = mask_jwt_from run 0"

definition mask_jwts :: "pystr \<Rightarrow> pystr" where
  "mask_jwts t = (if py_in jwt_mark t then rx_sub JWT_RUN (\<lambda>m. mask_jwt (rx_text t m)) t else t)"

definition scrub_tokens :: "pyrt \<Rightarrow> pystr \<Rightarrow> pystr" where
  "scrub_tokens R t = mask_jwts (mask_token_value R (mask_digest R (mask_bearer R (mask_pem t))))"

interpretation pem: scanner PEM
  by unfold_locales (simp add: PEM_def pem_label_def rx_ch_def lit_eval)

interpretation bearer: scanner "BEARER R" for R
  by unfold_locales (simp add: BEARER_def spaces1_def lit_eval)

interpretation digest: scanner "DIGEST R" for R
  by unfold_locales (simp add: DIGEST_def spaces1_def lit_eval)

interpretation token_value: scanner "TOKEN_VALUE R" for R
  by unfold_locales (simp add: TOKEN_VALUE_def spaces1_def lit_eval)

interpretation jwt_run: scanner JWT_RUN
  by unfold_locales (simp add: JWT_RUN_def)

section \<open>JSON Web Tokens\<close>

text \<open>
  A candidate is \<open>eyJ\<close> at the start of a segment; it is a token when two more segments
  follow.
\<close>

definition jwt_candidate :: "pystr \<Rightarrow> nat \<Rightarrow> bool" where
  "jwt_candidate run i \<longleftrightarrow> starts_at run jwt_mark i
     \<and> (i = 0 \<or> run ! (i - 1) = c_dash \<or> run ! (i - 1) = c_dot)"

definition jwt_at :: "pystr \<Rightarrow> nat \<Rightarrow> bool" where
  "jwt_at run i \<longleftrightarrow> jwt_candidate run i \<and> 2 \<le> count_list (drop i run) c_dot"

lemma count_list_drop_mono: "i \<le> j \<Longrightarrow> count_list (drop j xs) a \<le> count_list (drop i xs) a"
proof -
  assume "i \<le> j"
  then have "drop i xs = take (j - i) (drop i xs) @ drop j xs"
    by (metis append_take_drop_id drop_drop le_add_diff_inverse2)
  then show ?thesis by (metis count_list_append le_add2)
qed

lemma mask_jwt_from_spec:
  "mask_jwt_from run start =
     (if \<exists>i \<ge> start. jwt_at run i then take (LEAST i. start \<le> i \<and> jwt_candidate run i) run @ REDACTED else run)"
proof (induction "length run - start" arbitrary: start rule: less_induct)
  case less
  have nonempty: "jwt_mark \<noteq> []" by (simp add: jwt_mark_def lit_def)
  show ?case
  proof (cases "py_find run jwt_mark start (length run)")
    case None
    then have "\<not> (\<exists>i \<ge> start. jwt_at run i)"
      using starts_at_found [OF _ _ nonempty, of run] by (fastforce simp: jwt_at_def jwt_candidate_def)
    moreover have "mask_jwt_from run start = run"
      using None by (simp add: mask_jwt_from.simps [of run start])
    ultimately show ?thesis by auto
  next
    case (Some i)
    note i = py_find_SomeD [OF Some]
    have below: "\<not> jwt_candidate run j" if "start \<le> j" "j < i" for j
      using py_find_least [OF Some that] by (simp add: jwt_candidate_def)
    show ?thesis
    proof (cases "jwt_candidate run i")
      case True
      then have least: "(LEAST j. start \<le> j \<and> jwt_candidate run j) = i"
        using i(2) below by (intro Least_equality) (auto intro: leI)
      have "(\<exists>j \<ge> start. jwt_at run j) \<longleftrightarrow> 2 \<le> count_list (drop i run) c_dot"
      proof
        assume "\<exists>j \<ge> start. jwt_at run j"
        then obtain j where j: "start \<le> j" "jwt_at run j" by blast
        with below have "i \<le> j" by (meson jwt_at_def linorder_not_le)
        with j count_list_drop_mono [of i j run c_dot] show "2 \<le> count_list (drop i run) c_dot"
          by (simp add: jwt_at_def)
      qed (use True i(2) in \<open>auto simp: jwt_at_def\<close>)
      moreover have "mask_jwt_from run start
          = (if count_list (drop i run) c_dot < 2 then run else take i run @ REDACTED)"
        using Some True by (simp add: mask_jwt_from.simps [of run start] jwt_candidate_def)
      ultimately show ?thesis unfolding least by (simp add: not_less)
    next
      case False
      have shift: "start \<le> j \<and> jwt_candidate run j \<longleftrightarrow> i + 1 \<le> j \<and> jwt_candidate run j" for j
      proof (cases "j < i + 1")
        case True
        then have "j < i \<or> j = i" by linarith
        with True below False show ?thesis by auto
      qed (use i(2) in auto)
      have "0 < length jwt_mark" using nonempty by simp
      with i(3) have "i < length run" by linarith
      then have "mask_jwt_from run (i + 1) =
          (if \<exists>j \<ge> i + 1. jwt_at run j then take (LEAST j. i + 1 \<le> j \<and> jwt_candidate run j) run @ REDACTED else run)"
        using i(2) by (intro less) linarith
      moreover have "(\<exists>j \<ge> start. jwt_at run j) \<longleftrightarrow> (\<exists>j \<ge> i + 1. jwt_at run j)"
        using shift unfolding jwt_at_def by blast
      moreover have "mask_jwt_from run start = mask_jwt_from run (i + 1)"
        using Some False i(1) by (simp add: mask_jwt_from.simps [of run start] jwt_candidate_def)
      ultimately show ?thesis unfolding shift by simp
    qed
  qed
qed

text \<open>
  The loop of \<open>mask_jwt\<close>, which gives up at the first candidate with too few dots, is right to:
  a run that holds a token anywhere is cut at its first candidate, and any other run is
  kept.
\<close>

theorem mask_jwt_correct:
  "mask_jwt run = (if \<exists>i. jwt_at run i then take (LEAST i. jwt_candidate run i) run @ REDACTED else run)"
  using mask_jwt_from_spec [of run 0] by (simp add: mask_jwt_def)

section \<open>Bearer credentials\<close>

lemma bearer_elsewhere: "\<not> (i < length t \<and> ci_eq 98 (t ! i)) \<Longrightarrow> rx_match (BEARER R) t i c = []"
  by (auto simp: BEARER_def lit_eval)

lemma bearer_here:
  assumes "list_all2 ci_eq (lit ''bearer'') scheme" "pre = [] \<or> \<not> is_word R (last pre)"
    "sp \<noteq> []" "list_all is_space sp" "tok \<noteq> []" "list_all (\<lambda>c. \<not> is_space c) tok"
    "suf = [] \<or> is_space (hd suf)"
  shows "\<exists>xs. rx_match (BEARER R) (pre @ scheme @ sp @ tok @ suf) (length pre) Map.empty
    = (length pre + 6 + length sp + length tok, [1 \<mapsto> (length pre, length pre + 6)]) # xs"
proof -
  let ?t = "pre @ scheme @ sp @ tok @ suf"
  have len: "length scheme = 6" using list_all2_lengthD [OF assms(1)] by simp
  have word: "is_word R (hd scheme)" "scheme \<noteq> []"
  proof -
    from assms(1) have "\<exists>c s. scheme = c # s \<and> ci_eq 98 c" by (auto simp: lit_eval list_all2_Cons1)
    then show "is_word R (hd scheme)" "scheme \<noteq> []"
      by (auto simp: ci_eq_def is_alower_def is_aupper_def is_word_def lit_eval)
  qed
  then have "rx_bound_at (is_word R) ?t (length pre)"
    using assms(2) by (cases "pre = []") (auto simp: rx_bound_at_def nth_append last_conv_nth hd_conv_nth)
  moreover have "rx_match (rx_ilit (lit ''bearer'')) ?t (length pre) Map.empty = [(length pre + 6, Map.empty)]"
    using rx_match_ilit [OF assms(1), of pre "sp @ tok @ suf"] len by simp
  moreover have S: "\<exists>xs. rx_match spaces1 ?t (length pre + 6) c = (length pre + 6 + length sp, c) # xs" for c
    using rx_match_set_plus_run [of sp is_space "tok @ suf" "pre @ scheme" c] assms len
    by (cases tok) (auto simp: spaces1_def)
  moreover have N: "\<exists>xs. rx_match (rx_plus (RxSet (\<lambda>c. \<not> is_space c))) ?t (length pre + 6 + length sp) c
      = (length pre + 6 + length sp + length tok, c) # xs" for c
    using rx_match_set_plus_run [of tok "\<lambda>c. \<not> is_space c" suf "pre @ scheme @ sp" c] assms len
    by (simp add: add.assoc)
  ultimately have
    w: "rx_match (RxWordBound (is_word R)) ?t (length pre) Map.empty = [(length pre, Map.empty)]"
    and g: "rx_match (RxGroup 1 (rx_ilit (lit ''bearer''))) ?t (length pre) Map.empty
      = [(length pre + 6, [1 \<mapsto> (length pre, length pre + 6)])]"
    by simp_all
  from S obtain xs where s: "rx_match spaces1 ?t (length pre + 6) [1 \<mapsto> (length pre, length pre + 6)]
      = (length pre + 6 + length sp, [1 \<mapsto> (length pre, length pre + 6)]) # xs" by blast
  from N obtain ys where n: "rx_match (rx_plus (RxSet (\<lambda>c. \<not> is_space c))) ?t (length pre + 6 + length sp)
        [1 \<mapsto> (length pre, length pre + 6)]
      = (length pre + 6 + length sp + length tok, [1 \<mapsto> (length pre, length pre + 6)]) # ys" by blast
  from rx_match_seq_first [OF s n] obtain zs where
    "rx_match (RxSeq spaces1 (rx_plus (RxSet (\<lambda>c. \<not> is_space c)))) ?t (length pre + 6)
        [1 \<mapsto> (length pre, length pre + 6)]
      = (length pre + 6 + length sp + length tok, [1 \<mapsto> (length pre, length pre + 6)]) # zs" by blast
  from rx_match_seq_first [OF g this] obtain zs' where
    "rx_match (RxSeq (RxGroup 1 (rx_ilit (lit ''bearer'')))
        (RxSeq spaces1 (rx_plus (RxSet (\<lambda>c. \<not> is_space c))))) ?t (length pre) Map.empty
      = (length pre + 6 + length sp + length tok, [1 \<mapsto> (length pre, length pre + 6)]) # zs'" by blast
  from rx_match_seq_first [OF w this] show ?thesis by (simp only: BEARER_def rx_seq.simps)
qed

lemma bearer_replace_skip:
  "list_all (\<lambda>c. \<not> ci_eq 98 c) w \<Longrightarrow>
    rx_replace f (p @ w @ q) (length p) (rx_iterate (BEARER R) (p @ w @ q) (length p))
    = w @ rx_replace f (p @ w @ q) (length (p @ w)) (rx_iterate (BEARER R) (p @ w @ q) (length (p @ w)))"
proof (induction w arbitrary: p)
  case (Cons c w)
  have "rx_replace f (p @ (c # w) @ q) (length p) (rx_iterate (BEARER R) (p @ (c # w) @ q) (length p))
      = c # rx_replace f ((p @ [c]) @ w @ q) (length (p @ [c]))
          (rx_iterate (BEARER R) ((p @ [c]) @ w @ q) (length (p @ [c])))"
    using Cons.prems by (subst bearer.replace_skip) (simp_all add: bearer_elsewhere nth_append)
  with Cons.IH [of "p @ [c]"] Cons.prems show ?case by simp
qed simp

text \<open>
  A bearer credential is replaced whole, whatever its characters, the spelling of the
  scheme and the white space between them; what surrounds it is kept. (The surrounding
  text holds no \<open>b\<close>, so that no other occurrence of the scheme begins in it.)
\<close>

theorem mask_bearer_hides_credential:
  assumes "list_all2 ci_eq (lit ''bearer'') scheme" "pre = [] \<or> \<not> is_word R (last pre)"
    "sp \<noteq> []" "list_all is_space sp" "tok \<noteq> []" "list_all (\<lambda>c. \<not> is_space c) tok"
    "suf = [] \<or> is_space (hd suf)" "list_all (\<lambda>c. \<not> ci_eq 98 c) pre" "list_all (\<lambda>c. \<not> ci_eq 98 c) suf"
  shows "mask_bearer R (pre @ scheme @ sp @ tok @ suf) = pre @ scheme @ [c_space] @ REDACTED @ suf"
proof -
  let ?t = "pre @ scheme @ sp @ tok @ suf"
  let ?go = "\<lambda>i. rx_replace (keep_scheme ?t) ?t i (rx_iterate (BEARER R) ?t i)"
  have len: "length scheme = 6" using list_all2_lengthD [OF assms(1)] by simp
  let ?e = "length (pre @ scheme @ sp @ tok)"
  from bearer_here [OF assms(1-7)] obtain xs where
    m: "rx_match (BEARER R) ?t (length pre) Map.empty
      = (?e, [1 \<mapsto> (length pre, length pre + 6)]) # xs" using len by (auto simp: add.assoc)
  have "?go 0 = pre @ ?go (length pre)"
    using bearer_replace_skip [OF assms(8), of "keep_scheme ?t" "[]" "scheme @ sp @ tok @ suf" R] by simp
  also have "?go (length pre) = scheme @ [c_space] @ REDACTED @ ?go ?e"
    by (subst bearer.replace_hit [OF m]) (simp_all add: keep_scheme_def rx_group_def slice_def len)
  also have "?go ?e = suf @ ?go (length ?t)"
    using bearer_replace_skip [OF assms(9), of "keep_scheme ?t" "pre @ scheme @ sp @ tok" "[]" R] by simp
  also have "?go (length ?t) = []"
  proof -
    have "rx_search (BEARER R) ?t (length ?t) = None"
      by (simp add: rx_search_None bearer_elsewhere)
    then show ?thesis by (simp add: bearer.iterate_unfold)
  qed
  finally show ?thesis by (simp add: mask_bearer_def rx_sub_def)
qed

theorem mask_bearer_hides_credential_witness:
  "mask_bearer ascii_runtime (lit ''h: Bearer s3cret x'') = lit ''h: Bearer [REDACTED] x''"
proof -
  have "mask_bearer ascii_runtime (lit ''h: '' @ lit ''Bearer'' @ lit '' '' @ lit ''s3cret'' @ lit '' x'')
      = lit ''h: '' @ lit ''Bearer'' @ [c_space] @ REDACTED @ lit '' x''"
    by (rule mask_bearer_hides_credential)
      (simp_all add: lit_eval is_space_def ci_eq_def is_word_def ascii_runtime_def)
  then show ?thesis by (simp add: lit_eval REDACTED_def)
qed

end
