(* ===== verification/Spans.thy ===== *)
theory Spans
  imports RedactionPatterns "HOL-Library.Product_Lexorder"
begin

text \<open>
  \<open>_replace_spans\<close> of \<open>redaction.py\<close>, and its specification: a text in which every maximal
  run of positions covered by some span is replaced by one mask, and every other position
  is kept. Also the search for one character of a class in a region, which is what the
  scanners of the URL and pair rules use compiled one-character patterns for.
\<close>

section \<open>Searching for a character of a class\<close>

text \<open>\<open>pattern.search(text, a, b)\<close> for a pattern that is one character class.\<close>

definition find_in :: "(pychar \<Rightarrow> bool) \<Rightarrow> pystr \<Rightarrow> nat \<Rightarrow> nat \<Rightarrow> nat option" where
  "find_in p t a b = List.find (\<lambda>i. p (t ! i)) [a ..< min b (length t)]"

text \<open>Its position, or a default when there is no match.\<close>

definition find_or :: "nat \<Rightarrow> nat option \<Rightarrow> nat" where
  "find_or d f = (case f of Some i \<Rightarrow> i | None \<Rightarrow> d)"

lemma find_or_Some [simp]: "find_or d (Some i) = i" and find_or_None [simp]: "find_or d None = d"
  by (simp_all add: find_or_def)

lemma find_in_SomeD [scan_bounds]:
  assumes "find_in p t a b = Some i"
  shows "a \<le> i" "i < b" "i < length t" "p (t ! i)" "\<And>j. a \<le> j \<Longrightarrow> j < i \<Longrightarrow> \<not> p (t ! j)"
  using find_Some_least [OF assms [unfolded find_in_def]] by auto

lemma find_in_None: "find_in p t a b = None \<longleftrightarrow> (\<forall>i. a \<le> i \<and> i < b \<and> i < length t \<longrightarrow> \<not> p (t ! i))"
  by (auto simp: find_in_def find_None_upt)

lemma find_or_bounds:
  assumes "a \<le> d" "d \<le> b"
  shows "a \<le> find_or d (find_in p t a b)" "find_or d (find_in p t a b) \<le> b"
  using assms find_in_SomeD [of p t a b] by (auto simp: find_or_def split: option.splits)

section \<open>Replacing spans\<close>

type_synonym span = "nat \<times> nat"

text \<open>One round of the merging loop; the list is \<open>merged\<close>, last element first.\<close>

definition merge_step :: "span list \<Rightarrow> span \<Rightarrow> span list" where
  "merge_step merged sp =
     (case sp of (s, e) \<Rightarrow>
        if e \<le> s then merged
        else (case merged of
            [] \<Rightarrow> [(s, e)]
          | (a, b) # rest \<Rightarrow> if s \<le> b then (a, max b e) # rest else (s, e) # merged))"

fun cut_spans :: "pystr \<Rightarrow> nat \<Rightarrow> span list \<Rightarrow> pystr" where
  "cut_spans t copied [] = drop copied t"
| "cut_spans t copied ((s, e) # sps) = slice t copied s @ REDACTED @ cut_spans t e sps"

definition replace_spans :: "pystr \<Rightarrow> span list \<Rightarrow> pystr" where
  "replace_spans t sps = (if sps = [] then t else cut_spans t 0 (rev (foldl merge_step [] (sort sps))))"

section \<open>Specification\<close>

definition covered :: "span list \<Rightarrow> nat \<Rightarrow> bool" where
  "covered sps i \<longleftrightarrow> (\<exists>(s, e) \<in> set sps. s \<le> i \<and> i < e)"

text \<open>A covered position shows nothing, except the first of a run, which shows the mask.\<close>

definition masked_at :: "(nat \<Rightarrow> bool) \<Rightarrow> pystr \<Rightarrow> nat \<Rightarrow> pystr" where
  "masked_at c t i = (if \<not> c i then [t ! i] else if 0 < i \<and> c (i - 1) then [] else REDACTED)"

definition mask_covered :: "(nat \<Rightarrow> bool) \<Rightarrow> pystr \<Rightarrow> pystr" where
  "mask_covered c t = concat (map (masked_at c t) [0 ..< length t])"

text \<open>Non-empty spans in ascending order that do not touch, the first at \<open>lo\<close> or later.\<close>

fun separated :: "nat \<Rightarrow> span list \<Rightarrow> bool" where
  "separated lo [] \<longleftrightarrow> True"
| "separated lo ((s, e) # sps) \<longleftrightarrow> lo \<le> s \<and> s < e \<and> separated (Suc e) sps"

lemma separated_mono: "separated lo sps \<Longrightarrow> lo' \<le> lo \<Longrightarrow> separated lo' sps"
  by (cases sps) auto

lemma separated_starts: "separated lo sps \<Longrightarrow> (s, e) \<in> set sps \<Longrightarrow> lo \<le> s \<and> s < e"
proof (induction sps arbitrary: lo)
  case (Cons sp sps)
  then show ?case by (cases sp) (fastforce dest: separated_mono)
qed simp

lemma separated_snoc:
  "separated lo (sps @ [(s, e)]) \<longleftrightarrow>
     separated lo sps \<and> s < e \<and> lo \<le> s \<and> (\<forall>(a, b) \<in> set sps. b < s)"
proof (induction sps arbitrary: lo)
  case (Cons sp sps)
  obtain a b where "sp = (a, b)" by (cases sp)
  with Cons show ?case by auto
qed auto

lemma uncovered_below: "separated lo sps \<Longrightarrow> i < lo \<Longrightarrow> \<not> covered sps i"
  using separated_starts by (fastforce simp: covered_def)

lemma covered_Cons: "covered ((s, e) # sps) i \<longleftrightarrow> (s \<le> i \<and> i < e) \<or> covered sps i"
  by (auto simp: covered_def)

text \<open>Cutting separated spans out of a text masks the positions they cover.\<close>

lemma mask_uncovered:
  "\<forall>i. a \<le> i \<and> i < b \<longrightarrow> \<not> c i \<Longrightarrow> b \<le> length t \<Longrightarrow>
     concat (map (masked_at c t) [a ..< b]) = slice t a b"
proof (induction "b - a" arbitrary: a)
  case (Suc n)
  then have "a < b" "a < length t" by auto
  moreover from Suc.hyps(2) have "n = b - Suc a" by simp
  ultimately show ?case using Suc.hyps(1) [of "Suc a"] Suc.prems
    by (simp add: upt_conv_Cons masked_at_def slice_def Cons_nth_drop_Suc [symmetric] Suc_diff_le
        Suc_le_eq take_Cons')
qed (simp add: slice_def)

lemma mask_run:
  assumes "s < e" "\<forall>i. s \<le> i \<and> i < e \<longrightarrow> c i" "0 < s \<Longrightarrow> \<not> c (s - 1)"
  shows "concat (map (masked_at c t) [s ..< e]) = REDACTED"
proof -
  have "masked_at c t i = []" if "Suc s \<le> i" "i < e" for i
  proof -
    have "c i" "c (i - 1)" using that assms(2) by (simp, cases i) auto
    with that show ?thesis by (simp add: masked_at_def)
  qed
  then have "concat (map (masked_at c t) [Suc s ..< e]) = []" by simp
  moreover have "masked_at c t s = REDACTED" using assms by (auto simp: masked_at_def)
  ultimately show ?thesis using assms(1) by (simp add: upt_conv_Cons del: concat_eq_Nil_conv)
qed

lemma cut_spans_masks:
  assumes "separated lo sps" "k < lo \<or> k = 0" "\<forall>(s, e) \<in> set sps. e \<le> length t"
    "\<forall>i. k \<le> i \<longrightarrow> c i = covered sps i"
  shows "cut_spans t k sps = concat (map (masked_at c t) [k ..< length t])"
  using assms
proof (induction sps arbitrary: k lo)
  case Nil
  have "concat (map (masked_at c t) [k ..< length t]) = slice t k (length t)"
    using Nil.prems(4) by (intro mask_uncovered) (auto simp: covered_def)
  then show ?case by (simp add: slice_to_end)
next
  case (Cons sp sps)
  obtain s e where sp: "sp = (s, e)" by (cases sp)
  with Cons.prems have se: "lo \<le> s" "s < e" "e \<le> length t" "separated (Suc e) sps" by auto
  note below = uncovered_below [OF se(4)]
  have c: "c i \<longleftrightarrow> (s \<le> i \<and> i < e) \<or> covered sps i" if "k \<le> i" for i
    using that Cons.prems(4) sp by (simp add: covered_Cons)
  have "concat (map (masked_at c t) [k ..< s]) = slice t k s"
    by (rule mask_uncovered) (use c below se in auto)
  moreover have "concat (map (masked_at c t) [s ..< e]) = REDACTED"
  proof (rule mask_run)
    show "\<not> c (s - 1)" if "0 < s"
      using Cons.prems(2) se(1,2) that c [of "s - 1"] below [of "s - 1"] by (cases s) auto
  qed (use se c Cons.prems(2) in auto)
  moreover have "cut_spans t e sps = concat (map (masked_at c t) [e ..< length t])"
    by (rule Cons.IH [OF se(4)]) (use Cons.prems(2,3) se c in auto)
  moreover have "[k ..< length t] = [k ..< s] @ [s ..< e] @ [e ..< length t]"
    using se Cons.prems(2) upt_split [of k s "length t"] upt_split [of s e "length t"] by auto
  ultimately show ?case using sp by simp
qed

text \<open>The merging loop keeps the covered positions and separates the spans.\<close>

lemma merge_step_covered:
  assumes "\<forall>(a, b) \<in> set merged. a \<le> s"
  shows "covered (merge_step merged (s, e)) i \<longleftrightarrow> covered merged i \<or> (s \<le> i \<and> i < e)"
  using assms by (cases merged) (auto simp: merge_step_def covered_Cons split: if_splits)

lemma merge_step_separated:
  assumes "separated 0 (rev merged)" "\<forall>(a, b) \<in> set merged. a \<le> s"
  shows "separated 0 (rev (merge_step merged (s, e)))"
proof (cases merged)
  case (Cons ab rest)
  obtain a b where ab: "ab = (a, b)" by (cases ab)
  with assms Cons have sep: "separated 0 (rev rest)" "a < b" "\<forall>(x, y) \<in> set rest. y < a" "a \<le> s"
    by (auto simp: separated_snoc)
  have "\<forall>(x, y) \<in> set ((a, b) # rest). y < s" if "\<not> s \<le> b" using sep that by fastforce
  with sep assms(1) Cons ab separated_snoc [of 0 "rev merged" s e] show ?thesis
    by (auto simp: merge_step_def separated_snoc split_beta)
qed (simp add: merge_step_def)

lemma merge_step_bounds:
  assumes "\<forall>(a, b) \<in> set merged. a \<le> s \<and> b \<le> n" "s \<le> s'" "e \<le> n"
  shows "\<forall>(a, b) \<in> set (merge_step merged (s, e)). a \<le> s' \<and> b \<le> n"
  using assms by (cases merged) (fastforce simp: merge_step_def split: if_splits)+

lemma merge_spans:
  assumes "sorted sps" "\<forall>(s, e) \<in> set sps. e \<le> n"
    "separated 0 (rev merged)" "\<forall>(a, b) \<in> set merged. b \<le> n \<and> (\<forall>(s, e) \<in> set sps. a \<le> s)"
  shows "separated 0 (rev (foldl merge_step merged sps))
    \<and> (\<forall>i. covered (foldl merge_step merged sps) i \<longleftrightarrow> covered merged i \<or> covered sps i)
    \<and> (\<forall>(a, b) \<in> set (foldl merge_step merged sps). b \<le> n)"
  using assms
proof (induction sps arbitrary: merged)
  case (Cons sp sps)
  obtain s e where sp: "sp = (s, e)" by (cases sp)
  let ?m = "merge_step merged (s, e)"
  have starts: "\<forall>(a, b) \<in> set merged. a \<le> s" using Cons.prems(4) sp by auto
  have later: "\<forall>(s', e') \<in> set sps. s \<le> s'" using Cons.prems(1) sp by (fastforce simp: less_eq_prod_def)
  have prems: "sorted sps" "\<forall>(s, e) \<in> set sps. e \<le> n" "e \<le> n" using Cons.prems(1,2) sp by auto
  have b: "\<forall>(a, b) \<in> set ?m. a \<le> s \<and> b \<le> n"
    by (rule merge_step_bounds [where s = s]) (use Cons.prems(4) starts prems(3) in auto)
  then have "\<forall>(a, b) \<in> set ?m. b \<le> n \<and> (\<forall>(s, e) \<in> set sps. a \<le> s)"
    using later by fastforce
  from Cons.IH [OF prems(1,2) merge_step_separated [OF Cons.prems(3) starts] this]
  show ?case using merge_step_covered [OF starts, of e] sp by (auto simp: covered_Cons)
qed (auto simp: covered_def)

text \<open>
  C33: \<open>_replace_spans\<close> masks exactly the covered positions: whatever the order of the spans and
  however they overlap or touch, each maximal covered run becomes one mask, and every
  other character stays where it is.
\<close>

theorem replace_spans_masks_covered:
  assumes "\<forall>(s, e) \<in> set sps. e \<le> length t"
  shows "replace_spans t sps = mask_covered (covered sps) t"
proof (cases "sps = []")
  case True
  then show ?thesis using mask_uncovered [of 0 "length t" "covered []" t]
    by (simp add: replace_spans_def mask_covered_def covered_def)
next
  case False
  let ?ms = "foldl merge_step [] (sort sps)"
  have m: "separated 0 (rev ?ms) \<and> (\<forall>i. covered ?ms i \<longleftrightarrow> covered [] i \<or> covered (sort sps) i)
      \<and> (\<forall>(a, b) \<in> set ?ms. b \<le> length t)"
    by (rule merge_spans) (use assms in auto)
  have "cut_spans t 0 (rev ?ms) = concat (map (masked_at (covered sps) t) [0 ..< length t])"
  proof (rule cut_spans_masks [where lo = 0])
    show "separated 0 (rev ?ms)" "\<forall>(s, e) \<in> set (rev ?ms). e \<le> length t"
      using m by auto
    show "\<forall>i. 0 \<le> i \<longrightarrow> covered sps i = covered (rev ?ms) i"
      using m by (auto simp: covered_def)
  qed simp
  with False show ?thesis by (simp add: replace_spans_def mask_covered_def)
qed

theorem replace_spans_masks_covered_witness:
  "replace_spans (lit ''a=xy&b=z'') [(7, 8), (2, 4), (3, 5)] = lit ''a=[REDACTED]b=[REDACTED]''"
proof -
  have "mask_covered (covered [(7, 8), (2, 4), (3, 5)]) (lit ''a=xy&b=z'') = lit ''a=[REDACTED]b=[REDACTED]''"
    by code_simp
  moreover have "\<forall>(s, e) \<in> set [(7, 8), (2, 4), (3, 5)]. e \<le> length (lit ''a=xy&b=z'')" by simp
  ultimately show ?thesis using replace_spans_masks_covered by metis
qed

lemma mask_covered_id: "\<forall>i < length t. \<not> c i \<Longrightarrow> mask_covered c t = t"
  using mask_uncovered [of 0 "length t" c t] by (simp add: mask_covered_def)

end
