(* ===== verification/UrlRules.thy ===== *)
theory UrlRules
  imports Decoding Spans
begin

text \<open>
  The URL rules of \<open>redaction.py\<close>: where the credential of an authority ends
  (\<open>_userinfo_end\<close>), which parameters are sensitive or show a URL to be signed, and the
  masking of URLs (\<open>_scrub_urls\<close>) and of signed references without a scheme
  (\<open>_scrub_signed_references\<close>). An index that Python would return as \<open>-1\<close> is \<open>None\<close>.
\<close>

section \<open>Userinfo\<close>

definition scheme_mark :: pystr where
  "scheme_mark = lit ''://''"

text \<open>\<open>found >= k\<close> for the result of a search.\<close>

definition index_ge :: "nat option \<Rightarrow> nat \<Rightarrow> bool" where
  "index_ge found k \<longleftrightarrow> (case found of None \<Rightarrow> False | Some l \<Rightarrow> k \<le> l)"

definition userinfo_end :: "pyrt \<Rightarrow> pystr \<Rightarrow> nat \<Rightarrow> nat \<Rightarrow> nat option \<Rightarrow> bool \<Rightarrow> nat option" where
  "userinfo_end R t start token_end last_at was_cut =
     (let n = length t;
          netloc_end = find_or n (find_in is_authority_end t start n);
          at = (if index_ge last_at start then py_rfind t [c_at] start netloc_end else None)
      in case at of
           Some a \<Rightarrow> Some a
         | None \<Rightarrow>
             (let slash = py_find t [c_slash] start n;
                  host_start = (if starts_at t [c_lbrack] start
                    then (case py_find t [c_rbrack] start netloc_end of Some c \<Rightarrow> c + 1 | None \<Rightarrow> start)
                    else start)
              in case py_find t [c_colon] host_start (find_or n slash) of
                   None \<Rightarrow> Some start
                 | Some colon \<Rightarrow>
                     if index_ge last_at netloc_end then
                       (case py_rfind t [c_at] netloc_end token_end of
                          Some a \<Rightarrow> Some a
                        | None \<Rightarrow> py_find t [c_at] token_end n)
                     else if was_cut then Some n
                     else let authority_end = min netloc_end token_end
                          in if authority_end < colon + 1
                                \<or> \<not> rx_fullmatches (PORTS R) (slice t (colon + 1) authority_end)
                             then Some authority_end else Some start))"

section \<open>Parameters\<close>

definition is_sensitive_parameter :: "pyrt \<Rightarrow> pystr \<Rightarrow> bool" where
  "is_sensitive_parameter R key \<longleftrightarrow>
     list_ex (\<lambda>form. is_sensitive_key R form \<or> rx_fullmatches (SIGNING_PARAMETER R) form)
       [key, unquote_plus key]"

text \<open>The name after the last of the delimiters.\<close>

definition after_last :: "(pychar \<Rightarrow> bool) \<Rightarrow> pystr \<Rightarrow> pystr" where
  "after_last p t = (case List.find (\<lambda>i. p (t ! i)) (rev [0 ..< length t]) of
      None \<Rightarrow> t | Some i \<Rightarrow> drop (i + 1) t)"

definition is_signing_parameter :: "pyrt \<Rightarrow> pystr \<Rightarrow> bool" where
  "is_signing_parameter R key \<longleftrightarrow>
     (let name = after_last is_value_delimiter key
      in list_ex (rx_fullmatches (SIGNING_PARAMETER R)) [name, unquote_plus name])"

function signed_url_loop :: "pyrt \<Rightarrow> pystr \<Rightarrow> nat \<Rightarrow> bool \<Rightarrow> nat option \<Rightarrow> nat \<Rightarrow> nat option" where
  "signed_url_loop R t region_end signed end_at index =
     (if region_end \<le> index then (if signed then end_at else None)
      else
        (let segment_end = find_or region_end (find_in is_signed_parameter_end t index region_end)
         in case py_find t [c_eq] index segment_end of
              Some equals \<Rightarrow> signed_url_loop R t region_end
                (signed \<or> is_signing_parameter R (slice t index equals))
                (Some (find_or segment_end (find_in is_space t (equals + 1) segment_end)))
                (segment_end + 1)
            | None \<Rightarrow> signed_url_loop R t region_end signed end_at (segment_end + 1)))"
  by pat_completeness auto
termination
  by (relation "measure (\<lambda>(R, t, region_end, signed, end_at, index). region_end - index)")
    (auto simp: find_or_def split: option.splits dest: find_in_SomeD)

declare signed_url_loop.simps [simp del]

definition signed_url_end :: "pyrt \<Rightarrow> pystr \<Rightarrow> nat \<Rightarrow> nat \<Rightarrow> nat option" where
  "signed_url_end R t query_from region_end = signed_url_loop R t region_end False None query_from"

definition signed_reference_spans :: "pyrt \<Rightarrow> pystr \<Rightarrow> span list" where
  "signed_reference_spans R t =
     map (\<lambda>m. (m_start m, m_end m))
       (filter (\<lambda>m. let token = rx_text t m in
            (case py_find token [c_quest] 0 (length token) of
               None \<Rightarrow> False
             | Some question \<Rightarrow> \<not> py_in scheme_mark token
                 \<and> signed_url_end R t (m_start m + question + 1) (m_end m) \<noteq> None))
         (rx_iterate TOKEN t 0))"

definition scrub_signed_references :: "pyrt \<Rightarrow> pystr \<Rightarrow> pystr" where
  "scrub_signed_references R t =
     (if c_quest \<in> set t then replace_spans t (signed_reference_spans R t) else t)"

section \<open>URLs\<close>

text \<open>
  The first loop of \<open>_scrub_urls\<close>: one entry per \<open>://\<close>, the userinfo spans, and the position
  after the first \<open>?\<close> or \<open>#\<close> that follows a userinfo.
\<close>

function url_loop ::
  "pyrt \<Rightarrow> pystr \<Rightarrow> bool \<Rightarrow> nat option \<Rightarrow> nat \<Rightarrow> nat \<Rightarrow> nat option \<Rightarrow> span list \<Rightarrow> (nat \<times> nat \<times> nat) list
    \<Rightarrow> span list \<times> (nat \<times> nat \<times> nat) list \<times> nat option" where
  "url_loop R t was_cut last_at position token_end parameters_from spans urls =
     (case py_find t scheme_mark position (length t) of
        None \<Rightarrow> (spans, urls, parameters_from)
      | Some marker \<Rightarrow>
          (let start = marker + 3;
               te = (if token_end < start
                     then find_or (length t) (find_in is_space t start (length t)) else token_end);
               mask_end = find_or 0 (userinfo_end R t start te last_at was_cut);
               after = max start mask_end;
               pf = (if parameters_from = None
                     then map_option Suc (find_in is_query_start t after (length t)) else parameters_from)
           in url_loop R t was_cut last_at start te pf (spans @ [(start, mask_end)])
                (urls @ [(marker, after, te)])))"
  by pat_completeness auto
termination
proof (relation "measure (\<lambda>(R, t, was_cut, last_at, position, token_end, pf, spans, urls). length t - position)")
  fix t :: pystr and position marker start and R was_cut last_at token_end parameters_from spans urls te mask_end after pf
  assume "py_find t scheme_mark position (length t) = Some marker" and "start = marker + (3 :: nat)"
  with py_find_SomeD [of t scheme_mark position "length t" marker]
  show "((R, t, was_cut, last_at, start, te, pf, spans @ [(start, mask_end)], urls @ [(marker, after, te)]),
      R, t, was_cut, last_at, position, token_end, parameters_from, spans, urls)
    \<in> measure (\<lambda>(R, t, was_cut, last_at, position, token_end, pf, spans, urls). length t - position)"
    by (simp add: scheme_mark_def)
qed simp

declare url_loop.simps [simp del]

text \<open>The start of the scheme before a marker.\<close>

fun scheme_start :: "pystr \<Rightarrow> nat \<Rightarrow> nat" where
  "scheme_start t 0 = 0"
| "scheme_start t (Suc i) = (if is_scheme_character (t ! i) then scheme_start t i else Suc i)"

text \<open>The second loop: the spans of the signed URLs.\<close>

fun signed_url_spans :: "pyrt \<Rightarrow> pystr \<Rightarrow> (nat \<times> nat \<times> nat) list \<Rightarrow> span list" where
  "signed_url_spans R t [] = []"
| "signed_url_spans R t ((marker, after_userinfo, token_end) # urls) =
     (let region_end = (case urls of [] \<Rightarrow> length t | (next, _, _) # _ \<Rightarrow> next) in
        case find_in is_query_start t after_userinfo region_end of
          None \<Rightarrow> signed_url_spans R t urls
        | Some opener \<Rightarrow>
            (case signed_url_end R t (opener + 1) region_end of
               None \<Rightarrow> signed_url_spans R t urls
             | Some signed_end \<Rightarrow>
                 (scheme_start t marker, max signed_end (min token_end region_end))
                 # signed_url_spans R t urls))"

text \<open>The third loop: the values of sensitive parameters.\<close>

function parameter_spans :: "pyrt \<Rightarrow> pystr \<Rightarrow> nat \<Rightarrow> span list" where
  "parameter_spans R t index =
     (if length t \<le> index then []
      else
        (let segment_end = find_or (length t) (find_in is_parameter_end t index (length t))
         in case py_find t [c_eq] index segment_end of
              None \<Rightarrow> parameter_spans R t (segment_end + 1)
            | Some equals \<Rightarrow>
                if is_sensitive_parameter R (slice t index equals) then
                  (let value_end = find_or (length t) (py_find t [c_amp] equals (length t))
                   in (equals + 1, value_end) # parameter_spans R t (value_end + 1))
                else parameter_spans R t (segment_end + 1)))"
  by pat_completeness auto
termination
proof (relation "measure (\<lambda>(R, t, index). length t - index)")
  fix R and t :: pystr and index segment_end equals value_end
  assume a: "\<not> length t \<le> index" "py_find t [c_eq] index segment_end = Some equals"
    "value_end = find_or (length t) (py_find t [c_amp] equals (length t))"
  have "index \<le> value_end"
    using py_find_SomeD(2) [OF a(2)] py_find_SomeD(2) [of t "[c_amp]" equals "length t"] a
    by (auto simp: find_or_def split: option.splits intro: order.trans)
  with a show "((R, t, value_end + 1), R, t, index) \<in> measure (\<lambda>(R, t, index). length t - index)"
    by simp
qed (auto simp: find_or_def split: option.splits dest: find_in_SomeD)

declare parameter_spans.simps [simp del]

definition url_spans :: "pyrt \<Rightarrow> pystr \<Rightarrow> bool \<Rightarrow> span list" where
  "url_spans R t was_cut =
     (case url_loop R t was_cut (py_rfind t [c_at] 0 (length t)) 0 0 None [] [] of
        (spans, urls, pf) \<Rightarrow>
          spans @ signed_url_spans R t urls @ parameter_spans R t (find_or (length t) pf))"

definition scrub_urls :: "pyrt \<Rightarrow> pystr \<Rightarrow> bool \<Rightarrow> pystr" where
  "scrub_urls R t was_cut = (if py_in scheme_mark t then replace_spans t (url_spans R t was_cut) else t)"

section \<open>Every index is in range\<close>

text \<open>
  \<open>userinfo_end\<close> never returns \<open>-1\<close>: its last search for an \<open>@\<close> runs only when one is there.
\<close>

lemma index_ge_iff: "index_ge found k \<longleftrightarrow> (\<exists>l. found = Some l \<and> k \<le> l)"
  by (auto simp: index_ge_def split: option.splits)

lemma netloc_end_bounds [scan_bounds]:
  assumes "start \<le> length t"
  shows "start \<le> find_or (length t) (find_in p t start (length t))"
    "find_or (length t) (find_in p t start (length t)) \<le> length t"
  using find_or_bounds assms by blast+

lemma userinfo_end_bounds:
  assumes "start \<le> token_end" "token_end \<le> length t" "last_at = py_rfind t [c_at] 0 (length t)"
  shows "\<exists>e. userinfo_end R t start token_end last_at was_cut = Some e \<and> start \<le> e \<and> e \<le> length t"
proof -
  define ne where "ne = find_or (length t) (find_in is_authority_end t start (length t))"
  have ne: "start \<le> ne" "ne \<le> length t" using netloc_end_bounds assms(1,2) unfolding ne_def by auto
  have r1: "start \<le> a \<and> a \<le> length t" if "py_rfind t [c_at] start ne = Some a" for a
    using py_rfind_char that by auto
  have r2: "start \<le> a \<and> a \<le> length t" if "py_rfind t [c_at] ne token_end = Some a" for a
    using py_rfind_char that ne by auto
  have r3: "start \<le> a \<and> a \<le> length t" if "py_find t [c_at] token_end (length t) = Some a" for a
    using py_find_char that assms by auto
  have r4: "\<exists>a. py_find t [c_at] token_end (length t) = Some a"
    if "last_at = Some l" "ne \<le> l" "py_rfind t [c_at] ne token_end = None" for l
  proof -
    from that(1) assms(3) have l: "l < length t" "t ! l = c_at" using py_rfind_char by auto
    with that(2,3) have "token_end \<le> l" by (auto simp: py_rfind_char_None intro: leI)
    with l have "py_find t [c_at] token_end (length t) \<noteq> None" by (auto simp: py_find_char_None)
    then show ?thesis by simp
  qed
  define hs where "hs = (if starts_at t [c_lbrack] start
    then (case py_find t [c_rbrack] start ne of Some c \<Rightarrow> c + 1 | None \<Rightarrow> start) else start)"
  define colon where "colon = py_find t [c_colon] hs (find_or (length t) (py_find t [c_slash] start (length t)))"
  note eq = userinfo_end_def [of R t start token_end last_at was_cut, unfolded Let_def,
      folded ne_def, folded hs_def, folded colon_def]
  show ?thesis
  proof (cases "if index_ge last_at start then py_rfind t [c_at] start ne else None")
    case (Some a)
    then show ?thesis using r1 [of a] unfolding eq by (simp split: if_splits)
  next
    case no_at: None
    show ?thesis
    proof (cases colon)
      case None
      then show ?thesis using assms(1,2) unfolding eq no_at by simp
    next
      case (Some k)
      consider (at) l where "last_at = Some l" "ne \<le> l" "index_ge last_at ne" | (no) "\<not> index_ge last_at ne"
        unfolding index_ge_iff by blast
      then show ?thesis
      proof cases
        case at
        show ?thesis
        proof (cases "py_rfind t [c_at] ne token_end")
          case None
          from r4 [OF at(1,2) None] obtain a where "py_find t [c_at] token_end (length t) = Some a" by blast
          with r3 [OF this] None at Some show ?thesis unfolding eq no_at by simp
        next
          case (Some a)
          with r2 [OF this] at \<open>colon = Some k\<close> show ?thesis unfolding eq no_at by simp
        qed
      next
        case no
        with Some ne assms(1,2) show ?thesis unfolding eq no_at by (simp add: min_def)
      qed
    qed
  qed
qed

lemma userinfo_end_at:
  assumes "last_at = py_rfind t [c_at] 0 (length t)" "start \<le> a" "a < length t" "t ! a = c_at"
    "\<forall>i. start \<le> i \<and> i < a \<longrightarrow> \<not> is_authority_end (t ! i)"
  shows "\<exists>e. userinfo_end R t start token_end last_at was_cut = Some e \<and> a \<le> e"
proof -
  define ne where "ne = find_or (length t) (find_in is_authority_end t start (length t))"
  have "a < ne"
  proof (cases "find_in is_authority_end t start (length t)")
    case (Some k)
    have "\<not> is_authority_end (t ! a)" using assms(4) by (simp add: is_authority_end_def)
    then have "\<not> k \<le> a" using find_in_SomeD(1,4) [OF Some] assms(5)
      by (metis le_neq_implies_less)
    then show ?thesis using Some by (simp add: ne_def)
  qed (use assms(3) in \<open>simp add: ne_def\<close>)
  then have "py_rfind t [c_at] start ne \<noteq> None"
    using assms(2-4) by (auto simp: py_rfind_char_None)
  then obtain e where e: "py_rfind t [c_at] start ne = Some e" by blast
  have "\<not> e < a" using e assms(3,4) \<open>a < ne\<close> by (auto simp: py_rfind_char)
  moreover have "py_rfind t [c_at] 0 (length t) \<noteq> None"
    using assms(3,4) by (auto simp: py_rfind_char_None)
  then obtain l where l: "last_at = Some l" using assms(1) by auto
  then have "\<not> l < a" using assms(1,3,4) by (auto simp: py_rfind_char)
  with l assms(2) have "\<exists>l. last_at = Some l \<and> start \<le> l" by auto
  ultimately show ?thesis using e by (simp add: userinfo_end_def Let_def index_ge_iff ne_def [symmetric])
qed

text \<open>What the loops collect stays inside the text.\<close>

lemma signed_url_loop_bound:
  assumes "signed_url_loop R t region_end signed end_at index = Some e"
    "\<forall>x. end_at = Some x \<longrightarrow> x \<le> region_end"
  shows "e \<le> region_end"
  using assms
proof (induction R t region_end signed end_at index rule: signed_url_loop.induct)
  case (1 R t region_end signed end_at index)
  show ?case
  proof (cases "region_end \<le> index")
    case True
    with "1.prems" show ?thesis by (simp add: signed_url_loop.simps [of R t region_end signed end_at index] split: if_splits)
  next
    case False
    define se where "se = find_or region_end (find_in is_signed_parameter_end t index region_end)"
    have se: "se \<le> region_end" using False find_or_bounds(2) [of index region_end region_end] by (simp add: se_def)
    show ?thesis
    proof (cases "py_find t [c_eq] index se")
      case None
      with "1.IH"(1) [OF False se_def None] "1.prems" False show ?thesis
        by (simp add: signed_url_loop.simps [of R t region_end signed end_at index] se_def [symmetric])
    next
      case (Some equals)
      then have "equals + 1 \<le> se" by (auto simp: py_find_char)
      then have "find_or se (find_in is_space t (equals + 1) se) \<le> region_end"
        using find_or_bounds(2) [of "equals + 1" se se] se by (meson le_trans order_refl)
      with "1.IH"(2) [OF False se_def Some] "1.prems" False Some show ?thesis
        by (simp add: signed_url_loop.simps [of R t region_end signed end_at index] se_def [symmetric])
    qed
  qed
qed

lemma signed_url_end_bound: "signed_url_end R t q r = Some e \<Longrightarrow> e \<le> r"
  using signed_url_loop_bound by (fastforce simp: signed_url_end_def)

lemma parameter_spans_bound: "(s, e) \<in> set (parameter_spans R t index) \<Longrightarrow> e \<le> length t"
proof (induction R t index rule: parameter_spans.induct)
  case (1 R t index)
  have "find_or (length t) (py_find t [c_amp] k (length t)) \<le> length t" for k
    by (cases "py_find t [c_amp] k (length t)") (auto dest: py_find_SomeD(3))
  with 1 show ?case
    by (subst (asm) parameter_spans.simps) (auto simp: Let_def split: if_splits option.splits)
qed

lemma scheme_marks_apart:
  assumes "starts_at t scheme_mark i" "starts_at t scheme_mark j" "i < j"
  shows "i + 3 \<le> j"
proof (rule ccontr)
  assume "\<not> i + 3 \<le> j"
  with assms(3) have "j = i + 1 \<or> j = i + 2" by linarith
  moreover have at: "t ! (k + 1) = c_slash \<and> t ! (k + 2) = c_slash \<and> t ! k = c_colon"
    if "starts_at t scheme_mark k" for k
  proof -
    from starts_at_bound [OF that] have "k + 3 \<le> length t" by (simp add: scheme_mark_def)
    then have "take 3 (drop k t) = [t ! k, t ! (k + 1), t ! (k + 2)]"
      by (simp add: numeral_3_eq_3 take_Suc_conv_app_nth)
    moreover have "take 3 (drop k t) = [c_colon, c_slash, c_slash]"
      using that by (simp add: starts_at_def scheme_mark_def lit_eval numeral_3_eq_3)
    ultimately show ?thesis by simp
  qed
  ultimately show False using at [OF assms(1)] at [OF assms(2)] by auto
qed

lemma url_loop_collects:
  assumes "url_loop R t was_cut la position te pf spans urls = (spans', urls', pf')"
    "la = py_rfind t [c_at] 0 (length t)" "te \<le> length t"
    "\<forall>(s, e) \<in> set spans. e \<le> length t" "\<forall>(m, a, te) \<in> set urls. m \<le> length t \<and> te \<le> length t"
  shows "(\<forall>(s, e) \<in> set spans'. e \<le> length t) \<and> (\<forall>(m, a, te) \<in> set urls'. m \<le> length t \<and> te \<le> length t)
    \<and> set spans \<subseteq> set spans'
    \<and> (\<forall>m \<ge> position. starts_at t scheme_mark m \<longrightarrow>
          (\<exists>te. (m + 3, find_or 0 (userinfo_end R t (m + 3) te la was_cut)) \<in> set spans'))"
  using assms
proof (induction R t was_cut la position te pf spans urls rule: url_loop.induct)
  case (1 R t was_cut la position te pf spans urls)
  have nonempty: "scheme_mark \<noteq> []" by (simp add: scheme_mark_def lit_def)
  show ?case
  proof (cases "py_find t scheme_mark position (length t)")
    case None
    then have "\<not> starts_at t scheme_mark m" if "position \<le> m" for m
      using starts_at_found [OF _ that nonempty] by fastforce
    moreover have "spans' = spans" "urls' = urls"
      using "1.prems"(1) None by (simp_all add: url_loop.simps [of R t was_cut la position])
    ultimately show ?thesis using "1.prems"(4,5) by blast
  next
    case (Some marker)
    define start where "start = marker + 3"
    define te' where "te' = (if te < start then find_or (length t) (find_in is_space t start (length t)) else te)"
    define me where "me = find_or 0 (userinfo_end R t start te' la was_cut)"
    define after where "after = max start me"
    define pf1 where "pf1 = (if pf = None then map_option Suc (find_in is_query_start t after (length t)) else pf)"
    note m = py_find_SomeD [OF Some]
    have start: "start \<le> length t" using m(3) by (simp add: start_def scheme_mark_def)
    have te': "start \<le> te'" "te' \<le> length t"
      using netloc_end_bounds [OF start, of is_space] "1.prems"(3) by (auto simp: te'_def)
    obtain e where e: "userinfo_end R t start te' la was_cut = Some e" "start \<le> e" "e \<le> length t"
      using userinfo_end_bounds [OF te' "1.prems"(2)] by blast
    then have me: "me = e" by (simp add: me_def)
    have step: "url_loop R t was_cut la start te' pf1 (spans @ [(start, me)]) (urls @ [(marker, after, te')])
        = (spans', urls', pf')"
      using "1.prems"(1) [unfolded url_loop.simps [of R t was_cut la position te pf spans urls] Some
        Let_def option.case]
      unfolding pf1_def after_def me_def te'_def start_def .
    have IH: "(\<forall>(s, e) \<in> set spans'. e \<le> length t) \<and> (\<forall>(m, a, te) \<in> set urls'. m \<le> length t \<and> te \<le> length t)
      \<and> set (spans @ [(start, me)]) \<subseteq> set spans'
      \<and> (\<forall>m \<ge> start. starts_at t scheme_mark m \<longrightarrow>
          (\<exists>te. (m + 3, find_or 0 (userinfo_end R t (m + 3) te la was_cut)) \<in> set spans'))"
      by (rule "1.IH" [OF Some start_def te'_def me_def after_def pf1_def step "1.prems"(2) te'(2)])
        (use "1.prems"(4,5) m(3) e me te' in auto)
    have "\<exists>te. (k + 3, find_or 0 (userinfo_end R t (k + 3) te la was_cut)) \<in> set spans'"
      if k: "position \<le> k" "starts_at t scheme_mark k" for k
    proof (cases "k = marker")
      case True
      then show ?thesis using IH by (auto simp: start_def me_def)
    next
      case False
      then have "marker < k" using py_find_least [OF Some k(1)] k(2) by fastforce
      then have "start \<le> k" using scheme_marks_apart [OF m(1) k(2)] by (simp add: start_def)
      with IH k(2) show ?thesis by blast
    qed
    with IH show ?thesis by auto
  qed
qed

lemma signed_url_spans_bound:
  assumes "\<forall>(m, a, te) \<in> set urls. m \<le> length t \<and> te \<le> length t"
  shows "(s, e) \<in> set (signed_url_spans R t urls) \<Longrightarrow> e \<le> length t"
  using assms
proof (induction R t urls rule: signed_url_spans.induct)
  case (2 R t marker after_userinfo token_end urls)
  define r where "r = (case urls of [] \<Rightarrow> length t | (next, _, _) # _ \<Rightarrow> next)"
  have r: "r \<le> length t" using "2.prems"(2) by (auto simp: r_def split: list.splits)
  show ?case
    using "2.prems" "2.IH" [OF r_def] r
    by (auto simp: Let_def r_def [symmetric] min_def max_def dest: signed_url_end_bound
        split: option.splits if_splits intro: order.trans)
qed simp

lemma url_spans_bound: "(s, e) \<in> set (url_spans R t was_cut) \<Longrightarrow> e \<le> length t"
proof -
  obtain spans urls pf where l: "url_loop R t was_cut (py_rfind t [c_at] 0 (length t)) 0 0 None [] []
      = (spans, urls, pf)" by (metis prod_cases3)
  assume "(s, e) \<in> set (url_spans R t was_cut)"
  then show ?thesis
    using url_loop_collects [OF l] signed_url_spans_bound [of urls t s e R]
      parameter_spans_bound [of s e R t "find_or (length t) pf"]
    by (auto simp: url_spans_def l)
qed

text \<open>
  C34: The userinfo of every URL is masked: of the text between \<open>://\<close> and an \<open>@\<close> before the next
  \<open>/\<close>, \<open>?\<close> or \<open>#\<close>, whatever its characters (white space, control characters and further \<open>@\<close>
  included), nothing is shown, and the rest of the output is the text with maximal runs of
  masked positions replaced by one mask each.
\<close>

theorem scrub_urls_masks_userinfo:
  assumes "starts_at t scheme_mark m" "m + 3 \<le> a" "a < length t" "t ! a = c_at"
    "\<forall>i. m + 3 \<le> i \<and> i < a \<longrightarrow> \<not> is_authority_end (t ! i)"
  shows "\<exists>masked. scrub_urls R t was_cut = mask_covered masked t \<and> (\<forall>i. m + 3 \<le> i \<and> i < a \<longrightarrow> masked i)"
proof -
  let ?la = "py_rfind t [c_at] 0 (length t)"
  obtain spans urls pf where l: "url_loop R t was_cut ?la 0 0 None [] [] = (spans, urls, pf)"
    by (metis prod_cases3)
  have "\<exists>te. (m + 3, find_or 0 (userinfo_end R t (m + 3) te ?la was_cut)) \<in> set spans"
    using url_loop_collects [OF l] assms(1) by auto
  then obtain te where te: "(m + 3, find_or 0 (userinfo_end R t (m + 3) te ?la was_cut)) \<in> set spans"
    by blast
  obtain e where e: "userinfo_end R t (m + 3) te ?la was_cut = Some e" "a \<le> e"
    using userinfo_end_at [OF refl assms(2-5)] by blast
  with te have "(m + 3, e) \<in> set (url_spans R t was_cut)" by (simp add: url_spans_def l)
  then have "covered (url_spans R t was_cut) i" if "m + 3 \<le> i" "i < a" for i
    using that e(2) unfolding covered_def by (intro bexI [of _ "(m + 3, e)"]) auto
  moreover have "py_in scheme_mark t"
    using starts_at_found [OF assms(1), of 0] by (auto simp: py_in_def scheme_mark_def lit_def)
  then have "scrub_urls R t was_cut = mask_covered (covered (url_spans R t was_cut)) t"
    using url_spans_bound by (auto simp: scrub_urls_def intro!: replace_spans_masks_covered)
  ultimately show ?thesis by blast
qed

theorem scrub_urls_masks_userinfo_witness:
  "\<exists>masked. scrub_urls ascii_runtime (lit ''db://u:p w@h'') False = mask_covered masked (lit ''db://u:p w@h'')
    \<and> masked 5 \<and> masked 6 \<and> masked 7 \<and> masked 8 \<and> masked 9"
proof -
  have "\<not> is_authority_end (lit ''db://u:p w@h'' ! i)" if "2 + 3 \<le> i" "i < 10" for i
  proof -
    from that have "i \<in> {5, 6, 7, 8, 9}" by auto
    then show ?thesis by (auto simp: lit_eval is_authority_end_def)
  qed
  then have "\<exists>masked. scrub_urls ascii_runtime (lit ''db://u:p w@h'') False = mask_covered masked (lit ''db://u:p w@h'')
      \<and> (\<forall>i. 2 + 3 \<le> i \<and> i < 10 \<longrightarrow> masked i)"
    by (intro scrub_urls_masks_userinfo)
      (simp_all add: lit_eval scheme_mark_def starts_at_def)
  then obtain masked where
    "scrub_urls ascii_runtime (lit ''db://u:p w@h'') False = mask_covered masked (lit ''db://u:p w@h'')"
    "\<forall>i. 2 + 3 \<le> i \<and> i < 10 \<longrightarrow> masked i" by blast
  then show ?thesis by (intro exI [of _ masked]) simp
qed

text \<open>
  A host with no colon, no \<open>@\<close> anywhere and no parameter is masked as if it carried a
  password when a colon occurs in a later word: the colon is sought up to the next \<open>/\<close>, not
  within the token.
\<close>

theorem scrub_urls_masks_plain_host:
  "scrub_urls ascii_runtime (lit ''a://h up: b'') False = lit ''a://[REDACTED] up: b''"
  by code_simp

end
