(* ===== verification/PairRules.thy ===== *)
theory PairRules
  imports Decoding Spans
begin

text \<open>
  The key/value rules of \<open>redaction.py\<close>: the scanners that find where a value starts
  (\<open>_locate_value\<close>) and ends (\<open>_closing_quote\<close>, \<open>_unquoted_end\<close>, \<open>_block_span\<close>,
  \<open>_value_span\<close>), and the loop that masks the value of every sensitive key
  (\<open>_scrub_pairs\<close>).

  Python's membership test accepts the empty string: \<open>text[i:i + 1] in "..."\<close> is true when
  \<open>i\<close> is past the end. The definitions keep that. In one place it leads to an index past
  the end of the text, so the scanners return an \<open>option\<close>: \<open>None\<close> means that the call
  raises \<open>IndexError\<close>. Scanners whose own "not found" is \<open>-1\<close> return a plain \<open>option\<close> for it.
\<close>

section \<open>Scanning loops\<close>

text \<open>\<open>while i < limit and p(text[i]): i += 1\<close> for \<open>i \<le> limit \<le> len(text)\<close>.\<close>

definition run_to :: "(pychar \<Rightarrow> bool) \<Rightarrow> pystr \<Rightarrow> nat \<Rightarrow> nat \<Rightarrow> nat" where
  "run_to p t i limit = min limit (run_end p t i)"

abbreviation is_backslash :: "pychar \<Rightarrow> bool" where
  "is_backslash c \<equiv> c = c_backslash"

definition is_blank :: "pychar \<Rightarrow> bool" where
  "is_blank c \<longleftrightarrow> c = c_space \<or> c = c_tab"

lemma run_to_bounds [scan_bounds]:
  "i \<le> limit \<Longrightarrow> i \<le> run_to p t i limit" "run_to p t i limit \<le> limit"
  by (simp_all add: run_to_def)

lemma run_to_step: "i < limit \<Longrightarrow> i < length t \<Longrightarrow> p (t ! i) \<Longrightarrow> i < run_to p t i limit"
  by (simp add: run_to_def run_end_step Suc_le_eq [symmetric])

section \<open>Quoted values\<close>

function closing_quote_loop :: "pystr \<Rightarrow> pychar \<Rightarrow> nat \<Rightarrow> nat \<Rightarrow> nat \<Rightarrow> nat option" where
  "closing_quote_loop t quote opening_at limit index =
     (if limit \<le> index then None
      else let char = t ! index in
        if char = c_backslash then
          (let e = max (index + 1) (run_to is_backslash t index limit) in
             if 1 < e - index \<and> starts_at t [quote] e then None
             else closing_quote_loop t quote opening_at limit (e + 1))
        else if char = quote then
          (if opening_at + 1 < index \<and> starts_at t [quote] (index + 1)
           then closing_quote_loop t quote opening_at limit (index + 2) else Some index)
        else closing_quote_loop t quote opening_at limit (index + 1))"
  by pat_completeness auto
termination
  by (relation "measure (\<lambda>(t, quote, opening_at, limit, index). limit - index)") auto

declare closing_quote_loop.simps [simp del]

definition closing_quote :: "pystr \<Rightarrow> nat \<Rightarrow> nat \<Rightarrow> nat option" where
  "closing_quote t opening_at limit =
     closing_quote_loop t (t ! opening_at) opening_at limit (opening_at + 1)"

section \<open>Unquoted values\<close>

function unquoted_loop :: "pystr \<Rightarrow> bool \<Rightarrow> bool \<Rightarrow> bool \<Rightarrow> nat \<Rightarrow> nat \<Rightarrow> nat \<Rightarrow> nat" where
  "unquoted_loop t to_end_of_line in_query spans_lines line_end depth index =
     (if length t \<le> index then length t
      else let char = t ! index in
        if is_newline char \<and> \<not> (spans_lines \<and> 0 < depth) then index
        else if char = c_backslash then
          unquoted_loop t to_end_of_line in_query spans_lines line_end depth
            (max (index + 1) (run_end is_backslash t index) + 1)
        else if is_quote char \<and> (0 < depth \<or> \<not> to_end_of_line) then
          (let limit = (if spans_lines \<and> 0 < depth then length t else line_end) in
             case closing_quote t index limit of
               None \<Rightarrow> limit
             | Some closing \<Rightarrow> unquoted_loop t to_end_of_line in_query spans_lines line_end depth
                 (max (index + 1) (closing + 1)))
        else if is_opener char then
          unquoted_loop t to_end_of_line in_query spans_lines line_end (depth + 1) (index + 1)
        else if is_closer char then
          unquoted_loop t to_end_of_line in_query spans_lines line_end (depth - 1) (index + 1)
        else if depth = 0 \<and> \<not> to_end_of_line \<and> (is_value_delimiter char \<or> (in_query \<and> char = c_amp))
        then index
        else unquoted_loop t to_end_of_line in_query spans_lines line_end depth (index + 1))"
  by pat_completeness auto
termination
  by (relation "measure (\<lambda>(t, l, q, s, e, d, index). length t - index)") auto

declare unquoted_loop.simps [simp del]

definition unquoted_end :: "pystr \<Rightarrow> nat \<Rightarrow> bool \<Rightarrow> bool \<Rightarrow> nat option" where
  "unquoted_end t start to_end_of_line in_query =
     (if length t \<le> start then None
      else Some (unquoted_loop t to_end_of_line in_query (is_opener (t ! start))
        (find_or (length t) (find_in is_newline t start (length t))) 0 start))"

section \<open>Block values\<close>

text \<open>The position after the last line break before \<open>key_start\<close>.\<close>

definition line_start :: "pystr \<Rightarrow> nat \<Rightarrow> nat" where
  "line_start t key_start =
     (case List.find (\<lambda>i. is_newline (t ! i)) (rev [0 ..< min key_start (length t)]) of
        None \<Rightarrow> 0 | Some i \<Rightarrow> i + 1)"

function block_end :: "pystr \<Rightarrow> nat \<Rightarrow> nat \<Rightarrow> nat" where
  "block_end t key_indent e =
     (if length t \<le> e then e
      else
        (let following = (if starts_at t [c_cr, c_nl] e then e + 2 else e + 1);
             indent = max following (run_end is_blank t following)
         in if length t \<le> indent \<or> is_newline (t ! indent) \<or> indent - following \<le> key_indent then e
            else block_end t key_indent (find_or (length t) (find_in is_newline t indent (length t)))))"
  by pat_completeness auto
termination
proof (relation "measure (\<lambda>(t, k, e). length t - e)")
  fix t :: pystr and key_indent e following indent
  assume a: "\<not> length t \<le> e" "following = (if starts_at t [c_cr, c_nl] e then e + 2 else e + 1)"
    "indent = max following (run_end is_blank t following)"
    "\<not> (length t \<le> indent \<or> is_newline (t ! indent) \<or> indent - following \<le> key_indent)"
  then have "e < indent" "indent < length t" by (auto split: if_splits)
  with find_or_bounds [of indent "length t" "length t" is_newline t]
  show "((t, key_indent, find_or (length t) (find_in is_newline t indent (length t))), t, key_indent, e)
      \<in> measure (\<lambda>(t, k, e). length t - e)" by simp
qed simp

declare block_end.simps [simp del]

definition block_span :: "pystr \<Rightarrow> nat \<Rightarrow> nat \<Rightarrow> nat \<times> nat" where
  "block_span t newline_at key_start =
     (let ls = line_start t key_start;
          key_indent = length (takeWhile is_blank (slice t ls key_start));
          start = run_end is_space t newline_at
      in if length t \<le> start then (start, start)
         else (start, block_end t key_indent (find_or (length t) (find_in is_newline t start (length t)))))"

section \<open>What surrounds a key\<close>

definition is_query_break :: "pychar \<Rightarrow> bool" where
  "is_query_break c \<longleftrightarrow> c = c_space \<or> c = c_tab \<or> c = c_cr \<or> c = c_nl"

definition in_query_string :: "pystr \<Rightarrow> nat \<Rightarrow> bool" where
  "in_query_string t key_start \<longleftrightarrow>
     (0 < key_start \<and> (t ! (key_start - 1) = c_amp \<or> t ! (key_start - 1) = c_quest))
     \<or> (let window_start = key_start - QUERY_LOOKBACK;
            window_from = (case List.find (\<lambda>i. is_query_break (t ! i)) (rev [window_start ..< key_start]) of
                       None \<Rightarrow> window_start | Some i \<Rightarrow> i + 1)
        in c_quest \<in> set (slice t window_from key_start))"

definition escaped_space :: "pystr \<Rightarrow> nat \<Rightarrow> nat" where
  "escaped_space t index =
     (let e = run_end is_backslash t index in
        if e = index \<or> length t \<le> e then 0
        else if t ! e \<in> {110, 116, 114, 102, 118} then e + 1 - index
        else let digits = (if t ! e = 120 then 2 else if t ! e = 117 then 4 else 0);
                 code = slice t (e + 1) (e + 1 + digits)
             in if 0 < digits \<and> length code = digits \<and> list_all is_hex code \<and> is_space (hex_value code)
                then e + 1 + digits - index else 0)"

definition opens_quote :: "pystr \<Rightarrow> nat \<Rightarrow> bool" where
  "opens_quote t index \<longleftrightarrow>
     ((length t \<le> index \<or> is_string_prefix (t ! index))
       \<and> (length t \<le> index + 1 \<or> is_quote (t ! (index + 1))))
     \<or> (let i = run_end is_backslash t index in i < length t \<and> is_quote (t ! i))"

lemma escaped_space_bounds [scan_bounds]:
  assumes "0 < escaped_space t index"
  shows "index < index + escaped_space t index" "index + escaped_space t index \<le> length t"
proof -
  define e where "e = run_end is_backslash t index"
  define digits where "digits = (if t ! e = 120 then 2 else if t ! e = 117 then 4 else (0 :: nat))"
  define code where "code = slice t (e + 1) (e + 1 + digits)"
  have e: "index \<le> e" by (simp add: e_def)
  have eq: "escaped_space t index = (if e = index \<or> length t \<le> e then 0
      else if t ! e \<in> {110, 116, 114, 102, 118} then e + 1 - index
      else if 0 < digits \<and> length code = digits \<and> list_all is_hex code \<and> is_space (hex_value code)
           then e + 1 + digits - index else 0)"
    unfolding escaped_space_def Let_def e_def digits_def code_def by (rule refl)
  have "index + escaped_space t index \<le> length t"
  proof (cases "e = index \<or> length t \<le> e")
    case False
    then show ?thesis using assms e unfolding eq
      by (auto simp: code_def min_def split: if_splits)
  qed (use assms eq in auto)
  with assms show "index < index + escaped_space t index" "index + escaped_space t index \<le> length t"
    by auto
qed

section \<open>Where a value starts\<close>

datatype intro = IsValue | ColonValue | TagValue | QuotedValue
  \<comment> \<open>the kinds \<open>"="\<close>, \<open>":"\<close>, \<open>">"\<close> and \<open>"'"\<close>\<close>

text \<open>The loop over what may sit between a key and its separator.\<close>

function key_trailers :: "pystr \<Rightarrow> nat \<Rightarrow> bool \<Rightarrow> nat \<times> bool" where
  "key_trailers t index closed_quote =
     (if length t \<le> index then (index, closed_quote)
      else let char = t ! index in
        if char = c_backslash then
          (if 0 < escaped_space t index then (index, closed_quote)
           else key_trailers t (max (index + 1) (run_end is_backslash t index)) closed_quote)
        else if is_key_trailer char then key_trailers t (index + 1) (closed_quote \<or> is_quote char)
        else if char = c_lbrack \<or> char = FRAGMENT_OPEN then
          (case py_find t [if char = c_lbrack then c_rbrack else FRAGMENT_CLOSE] (index + 1)
                 (index + 1 + MAX_SUBSCRIPT_LENGTH) of
             None \<Rightarrow> (index, closed_quote)
           | Some closing \<Rightarrow> key_trailers t (max (index + 1) (closing + 1)) closed_quote)
        else (index, closed_quote))"
  by pat_completeness auto
termination
  by (relation "measure (\<lambda>(t, index, c). length t - index)") auto

declare key_trailers.simps [simp del]

text \<open>The loop over white space and escaped white space, and the first escape it met.\<close>

function skip_spaces :: "pystr \<Rightarrow> nat \<Rightarrow> nat option \<Rightarrow> nat \<times> nat option" where
  "skip_spaces t index first =
     (if length t \<le> index then (index, first)
      else if is_space (t ! index) then skip_spaces t (index + 1) first
      else if 0 < escaped_space t index then
        skip_spaces t (index + escaped_space t index) (if first = None then Some index else first)
      else (index, first))"
  by pat_completeness auto
termination
  by (relation "measure (\<lambda>(t, index, f). length t - index)") auto

declare skip_spaces.simps [simp del]

definition locate_value :: "pystr \<Rightarrow> nat \<Rightarrow> nat \<Rightarrow> (nat \<times> intro) option" where
  "locate_value t key_start key_end =
     (case key_trailers t key_end False of (index, closed_quote) \<Rightarrow>
        let after = fst (skip_spaces t index None) in
          if length t \<le> after then None
          else let char = t ! after; following = slice t (after + 1) (after + 2) in
            if char = c_eq then Some (if following = [c_gt] then after + 2 else after + 1, IsValue)
            else if char = c_colon then
              (if following = [c_eq] then Some (after + 2, IsValue) else Some (after + 1, ColonValue))
            else if char = c_gt \<and> after = index then Some (after + 1, TagValue)
            else if char = c_comma \<and> closed_quote then
              (let v = run_end is_space t (after + 1) in
                 if opens_quote t v then Some (v, QuotedValue) else None)
            else if index < after \<and> opens_quote t after then Some (after, QuotedValue)
            else if index < after \<and> t ! key_start = c_dash then Some (after, IsValue)
            else None)"

section \<open>Where a value ends\<close>

type_synonym masking = "nat \<times> nat \<times> pystr"

definition ends_quoted_value :: "bool \<Rightarrow> pychar \<Rightarrow> bool" where
  "ends_quoted_value header c \<longleftrightarrow> is_newline c \<or> c = c_comma \<or> is_closer c
     \<or> (\<not> header \<and> (c = c_semi \<or> c = c_amp))"

text \<open>
  The part of \<open>_value_span\<close> after the white space. \<open>None\<close> is \<open>IndexError\<close>: a lone string prefix
  at the very end of the text passes for one in front of a quote, and \<open>text[quote_at]\<close> is
  read past the end.
\<close>

definition value_at :: "pystr \<Rightarrow> nat \<Rightarrow> bool \<Rightarrow> bool \<Rightarrow> bool \<Rightarrow> masking option" where
  "value_at t index header to_end_of_line in_query =
     (if length t \<le> index then Some (index, index, [])
      else let quote_at = (if is_string_prefix (t ! index)
               \<and> (length t \<le> index + 1 \<or> is_quote (t ! (index + 1))) then index + 1 else index)
      in if length t \<le> quote_at then None
      else let quote = t ! quote_at in
        if is_quote quote then
          (case closing_quote t quote_at (length t) of
             None \<Rightarrow> Some (quote_at, length t, quote # REDACTED)
           | Some closing \<Rightarrow>
               (let after = closing + 1; following = run_end is_blank t after in
                  if length t \<le> following \<or> ends_quoted_value header (t ! following)
                  then Some (quote_at, after, quote # REDACTED @ [quote])
                  else if following = after \<or> to_end_of_line then
                    map_option (\<lambda>e. (quote_at, e, REDACTED)) (unquoted_end t after to_end_of_line in_query)
                  else Some (quote_at, after, quote # REDACTED @ [quote])))
        else if t ! index = c_backslash \<and> run_end is_backslash t index < length t
            \<and> is_quote (t ! run_end is_backslash t index)
        then Some (index, length t, REDACTED)
        else map_option (\<lambda>e. (index, e, REDACTED)) (unquoted_end t index to_end_of_line in_query))"

text \<open>
  \<open>_value_span\<close>. After escaped white space it calls itself at the first character that is
  neither white space nor an escape of it, where the same loop stops at once; that call is
  \<open>value_at\<close>.
\<close>

definition value_span ::
  "pystr \<Rightarrow> nat \<Rightarrow> intro \<Rightarrow> nat \<Rightarrow> bool \<Rightarrow> bool \<Rightarrow> bool \<Rightarrow> masking option" where
  "value_span t start kind key_start header to_end_of_line in_query =
     (case kind of
        TagValue \<Rightarrow> Some (start, find_or (length t) (py_find t [c_lt] start (length t)), REDACTED)
      | ColonValue \<Rightarrow>
          (let index = run_end (\<lambda>c. is_space c \<and> \<not> is_newline c) t start in
             if index < length t \<and> is_newline (t ! index)
             then (case block_span t index key_start of (s, e) \<Rightarrow> Some (s, e, REDACTED))
             else value_at t index header to_end_of_line in_query)
      | _ \<Rightarrow>
          (case skip_spaces t start None of
             (index, None) \<Rightarrow> value_at t index header to_end_of_line in_query
           | (index, Some first_escape) \<Rightarrow>
               (if length t \<le> index then Some (first_escape, length t, REDACTED)
                else map_option (\<lambda>(_, e, _). (first_escape, max e index, REDACTED))
                       (value_at t index header to_end_of_line in_query))))"

text \<open>\<open>_pair_span\<close>: \<open>Some None\<close> when the key has no value to mask.\<close>

definition pair_span :: "pyrt \<Rightarrow> pystr \<Rightarrow> rxm \<Rightarrow> masking option option" where
  "pair_span R t m =
     (let key = rx_text t m in
        if \<not> is_sensitive_text_key R key then Some None
        else case locate_value t (m_start m) (m_end m) of
          None \<Rightarrow> Some None
        | Some (value_start, kind) \<Rightarrow>
            (let header = rx_found HEADER_KEY key in
               map_option Some
                 (value_span t value_start kind (m_start m) header
                   (kind = ColonValue \<or> (header \<and> kind = IsValue))
                   (kind = IsValue \<and> in_query_string t (m_start m)))))"

section \<open>A value lies after its key and inside the text\<close>

lemma closing_quote_loop_bounds:
  "closing_quote_loop t quote q0 limit index = Some c \<Longrightarrow> index \<le> c \<and> c < limit \<and> t ! c = quote"
proof (induction t quote q0 limit index rule: closing_quote_loop.induct)
  case (1 t quote q0 limit index)
  define e where "e = max (index + 1) (run_to is_backslash t index limit)"
  note eq = closing_quote_loop.simps [of t quote q0 limit index, unfolded Let_def, folded e_def]
  have e: "index + 1 \<le> e" by (simp add: e_def)
  show ?case
  proof (cases "limit \<le> index")
    case False
    consider "t ! index = c_backslash" | "t ! index \<noteq> c_backslash" "t ! index = quote"
      | "t ! index \<noteq> c_backslash" "t ! index \<noteq> quote" by blast
    then show ?thesis
    proof cases
      case 1
      with "1.prems" False have "closing_quote_loop t quote q0 limit (e + 1) = Some c"
        and "\<not> (1 < e - index \<and> starts_at t [quote] e)" unfolding eq by (auto split: if_splits)
      with "1.IH"(1) [OF False refl 1 e_def] e show ?thesis by simp
    next
      case 2
      show ?thesis
      proof (cases "q0 + 1 < index \<and> starts_at t [quote] (index + 1)")
        case True
        with "1.prems" False 2 have "closing_quote_loop t quote q0 limit (index + 2) = Some c"
          unfolding eq by simp
        with "1.IH"(2) [OF False refl 2 True] show ?thesis by simp
      next
        case no: False
        with "1.prems" False 2 show ?thesis unfolding eq by (auto split: if_splits)
      qed
    next
      case 3
      with "1.prems" False have "closing_quote_loop t quote q0 limit (index + 1) = Some c"
        unfolding eq by simp
      with "1.IH"(3) [OF False refl 3] show ?thesis by simp
    qed
  qed (use "1.prems" eq in simp)
qed

lemma closing_quote_bounds [scan_bounds]:
  assumes "closing_quote t q0 limit = Some c"
  shows "q0 < c" "c < limit" "t ! c = t ! q0"
  using closing_quote_loop_bounds [OF assms [unfolded closing_quote_def]] by auto

lemma unquoted_loop_bounds:
  assumes "line_end \<le> length t"
  shows "unquoted_loop t tel q sl line_end depth index \<le> length t"
  using assms
proof (induction t tel q sl line_end depth index rule: unquoted_loop.induct)
  case (1 t tel q sl line_end depth index)
  show ?case
  proof (cases "length t \<le> index")
    case True
    then show ?thesis by (simp add: unquoted_loop.simps)
  next
    case False
    then show ?thesis using "1.prems" "1.IH"(1,3,4,5) [OF False refl]
        "1.IH"(2) [OF False refl _ _ _ refl]
      by (subst unquoted_loop.simps) (auto simp: Let_def split: option.split)
  qed
qed

lemma unquoted_end_bounds [scan_bounds]:
  assumes "unquoted_end t start tel q = Some e"
  shows "start < length t" "e \<le> length t"
  using assms unquoted_loop_bounds find_or_bounds(2) [of start "length t" "length t" is_newline t]
  by (auto simp: unquoted_end_def split: if_splits)

lemma block_end_bounds: "e \<le> length t \<Longrightarrow> e \<le> block_end t k e \<and> block_end t k e \<le> length t"
proof (induction t k e rule: block_end.induct)
  case (1 t k e)
  define following where "following = (if starts_at t [c_cr, c_nl] e then e + 2 else e + 1)"
  define indent where "indent = max following (run_end is_blank t following)"
  define e' where "e' = find_or (length t) (find_in is_newline t indent (length t))"
  note eq = block_end.simps [of t k e, unfolded Let_def, folded following_def, folded indent_def, folded e'_def]
  show ?case
  proof (cases "length t \<le> e \<or> length t \<le> indent \<or> is_newline (t ! indent) \<or> indent - following \<le> k")
    case True
    then show ?thesis using "1.prems" unfolding eq by auto
  next
    case False
    then have "indent \<le> e'" "e' \<le> length t"
      using find_or_bounds [of indent "length t" "length t" is_newline t] by (auto simp: e'_def)
    moreover have "e \<le> following" "following \<le> indent" by (simp_all add: following_def indent_def)
    moreover have "e' \<le> block_end t k e' \<and> block_end t k e' \<le> length t"
      using "1.IH" [OF _ following_def indent_def, folded e'_def] False calculation(2) by simp
    ultimately show ?thesis using False unfolding eq by simp
  qed
qed

lemma block_span_bounds:
  assumes "block_span t n k = (s, e)" "n \<le> length t"
  shows "n \<le> s \<and> s \<le> e \<and> e \<le> length t"
proof -
  let ?s = "run_end is_space t n"
  have s: "n \<le> ?s" "?s \<le> length t" using run_end_le [OF assms(2)] by auto
  let ?e = "find_or (length t) (find_in is_newline t ?s (length t))"
  have e: "?s \<le> ?e" "?e \<le> length t" using find_or_bounds s(2) by blast+
  show ?thesis
  proof (cases "length t \<le> ?s")
    case True
    with assms(1) s show ?thesis by (simp add: block_span_def Let_def)
  next
    case False
    then have "s = ?s" "\<exists>k. e = block_end t k ?e" using assms(1) by (auto simp: block_span_def Let_def)
    then obtain k where "s = ?s" "e = block_end t k ?e" by blast
    with block_end_bounds [OF e(2), of k] e s show ?thesis by simp
  qed
qed

lemma key_trailers_bounds:
  "index \<le> length t \<Longrightarrow> index \<le> fst (key_trailers t index c) \<and> fst (key_trailers t index c) \<le> length t"
proof (induction t index c rule: key_trailers.induct)
  case (1 t index c)
  let ?b = "max (index + 1) (run_end is_backslash t index)"
  note eq = key_trailers.simps [of t index c, unfolded Let_def]
  note IH = "1.IH" [OF _ refl]
  show ?case
  proof (cases "length t \<le> index")
    case True
    with "1.prems" show ?thesis unfolding eq by simp
  next
    case False
    have b: "?b \<le> length t" using run_end_le [of index t is_backslash] False by simp
    show ?thesis
    proof (cases "t ! index = c_backslash")
      case bs: True
      then show ?thesis using IH(1) [OF False bs] False b unfolding eq
        by (cases "0 < escaped_space t index") simp_all
    next
      case bs: False
      show ?thesis
      proof (cases "is_key_trailer (t ! index)")
        case True
        with IH(2) [OF False bs True] False bs show ?thesis unfolding eq by simp
      next
        case kt: False
        let ?f = "py_find t [if t ! index = c_lbrack then c_rbrack else FRAGMENT_CLOSE] (index + 1)
            (index + 1 + MAX_SUBSCRIPT_LENGTH)"
        show ?thesis
        proof (cases "t ! index = c_lbrack \<or> t ! index = FRAGMENT_OPEN")
          case sub: True
          show ?thesis
          proof (cases ?f)
            case None
            with False bs kt sub show ?thesis unfolding eq by simp
          next
            case (Some closing)
            have "max (index + 1) (closing + 1) \<le> length t"
              using py_find_SomeD(2,3) [OF Some] by simp
            from IH(3) [OF False bs kt sub Some this]
            have "max (index + 1) (closing + 1) \<le> fst (key_trailers t (max (index + 1) (closing + 1)) c)"
              "fst (key_trailers t (max (index + 1) (closing + 1)) c) \<le> length t" by blast+
            moreover have "key_trailers t index c = key_trailers t (max (index + 1) (closing + 1)) c"
              using False bs kt sub Some unfolding eq by simp
            ultimately show ?thesis by simp
          qed
        qed (use False bs kt in \<open>simp add: eq\<close>)
      qed
    qed
  qed
qed

lemma skip_spaces_bounds:
  assumes "skip_spaces t index first = (i, f)" "index \<le> length t"
  shows "index \<le> i \<and> i \<le> length t
    \<and> (\<forall>x. f = Some x \<longrightarrow> first = Some x \<or> (index \<le> x \<and> x < i))"
  using assms
proof (induction t index first rule: skip_spaces.induct)
  case (1 t index first)
  note eq = skip_spaces.simps [of t index first]
  show ?case
  proof (cases "length t \<le> index")
    case False
    then consider "is_space (t ! index)"
      | "\<not> is_space (t ! index)" "0 < escaped_space t index"
      | "\<not> is_space (t ! index)" "escaped_space t index = 0" by blast
    then show ?thesis
    proof cases
      case 1
      with "1.prems" False have "skip_spaces t (index + 1) first = (i, f)" by (simp add: eq)
      with "1.IH"(1) [OF False 1] False show ?thesis by force
    next
      case 2
      with "1.prems" False have
        "skip_spaces t (index + escaped_space t index) (if first = None then Some index else first) = (i, f)"
        by (simp add: eq)
      with "1.IH"(2) [OF False 2] escaped_space_bounds [OF 2(2)] show ?thesis
        by (cases first) force+
    qed (use "1.prems" False in \<open>simp add: eq\<close>)
  qed (use "1.prems" in \<open>simp add: eq\<close>)
qed

lemma locate_value_bounds:
  assumes "locate_value t key_start key_end = Some (v, kind)" "key_end \<le> length t"
  shows "key_end \<le> v \<and> v \<le> length t"
proof -
  obtain index cq where kt: "key_trailers t key_end False = (index, cq)" by (cases "key_trailers t key_end False")
  obtain after f where sp: "skip_spaces t index None = (after, f)" by (cases "skip_spaces t index None")
  have "key_end \<le> index" "index \<le> length t"
    using key_trailers_bounds [OF assms(2), of False] kt by auto
  moreover from skip_spaces_bounds [OF sp this(2)] have "index \<le> after" "after \<le> length t" by auto
  moreover have "after + 2 \<le> length t" if "slice t (after + 1) (after + 2) = [c]" for c
    using arg_cong [OF that, of length] by simp
  moreover have "run_end is_space t (after + 1) \<le> length t" if "after < length t"
    using run_end_le [of "after + 1" t is_space] that by simp
  moreover have "after < run_end is_space t (after + 1)" using run_end_ge [of "after + 1" is_space t] by linarith
  ultimately show ?thesis using assms(1)
    by (auto simp: locate_value_def kt sp Let_def split: if_splits)
qed

lemma value_at_bounds:
  assumes "value_at t index h tel q = Some (s, e, r)" "index \<le> length t"
  shows "index \<le> s \<and> e \<le> length t"
proof -
  define qa where "qa = (if is_string_prefix (t ! index)
      \<and> (length t \<le> index + 1 \<or> is_quote (t ! (index + 1))) then index + 1 else index)"
  have "index \<le> qa" by (simp add: qa_def)
  moreover have "closing + 1 \<le> length t" if "closing_quote t qa (length t) = Some closing" for closing
    using closing_quote_bounds(2) [OF that] by simp
  ultimately show ?thesis using assms unfolding value_at_def Let_def qa_def [symmetric]
    by (auto split: if_splits option.splits dest: unquoted_end_bounds(2))
qed

lemma value_span_spaces_bounds:
  assumes "(case skip_spaces t start None of
       (index, None) \<Rightarrow> value_at t index h tel q
     | (index, Some first_escape) \<Rightarrow>
         (if length t \<le> index then Some (first_escape, length t, REDACTED)
          else map_option (\<lambda>(_, e, _). (first_escape, max e index, REDACTED))
                 (value_at t index h tel q))) = Some (s, e, r)"
    "start \<le> length t"
  shows "start \<le> s \<and> e \<le> length t"
proof -
  obtain i f where sp: "skip_spaces t start None = (i, f)" by (cases "skip_spaces t start None")
  note b = skip_spaces_bounds [OF sp assms(2)]
  show ?thesis
  proof (cases f)
    case None
    then have "value_at t i h tel q = Some (s, e, r)" using assms(1) sp by simp
    with value_at_bounds [OF this] b show ?thesis by auto
  next
    case (Some x)
    then have x: "start \<le> x" using b by simp
    show ?thesis
    proof (cases "length t \<le> i")
      case False
      then obtain s' e' r' where "value_at t i h tel q = Some (s', e', r')" "e = max e' i" "s = x"
        using assms(1) sp Some by auto
      with value_at_bounds [OF this(1)] b x show ?thesis by auto
    qed (use assms(1) sp Some x in simp)
  qed
qed

text \<open>What the loop of \<open>_scrub_pairs\<close> relies on: the value of a key begins after it.\<close>

lemma value_span_bounds:
  assumes "value_span t start kind key_start h tel q = Some (s, e, r)" "start \<le> length t"
  shows "start \<le> s \<and> e \<le> length t"
proof (cases kind)
  case TagValue
  with assms show ?thesis
    by (cases "py_find t [c_lt] start (length t)") (auto simp: value_span_def dest: py_find_SomeD(3))
next
  case ColonValue
  let ?i = "run_end (\<lambda>c. is_space c \<and> \<not> is_newline c) t start"
  have i: "start \<le> ?i" "?i \<le> length t" using run_end_le [OF assms(2)] by auto
  show ?thesis
  proof (cases "?i < length t \<and> is_newline (t ! ?i)")
    case True
    obtain s' e' where b: "block_span t ?i key_start = (s', e')" by (cases "block_span t ?i key_start")
    with assms(1) ColonValue True have "s' = s" "e' = e" by (simp_all add: value_span_def Let_def)
    with block_span_bounds [OF b i(2)] i(1) show ?thesis by linarith
  next
    case False
    then have "value_at t ?i h tel q = Some (s, e, r)"
      using assms(1) unfolding value_span_def Let_def ColonValue intro.case if_not_P [OF False] by simp
    with value_at_bounds [OF this i(2)] i(1) show ?thesis by linarith
  qed
next
  case IsValue
  show ?thesis using value_span_spaces_bounds assms IsValue by (simp add: value_span_def)
next
  case QuotedValue
  show ?thesis using value_span_spaces_bounds assms QuotedValue by (simp add: value_span_def)
qed

lemma pair_span_bounds:
  assumes "pair_span R t m = Some (Some (s, e, r))" "m_end m \<le> length t"
  shows "m_end m \<le> s \<and> e \<le> length t"
proof -
  from assms(1) obtain v kind h tel q where l: "locate_value t (m_start m) (m_end m) = Some (v, kind)"
    and v: "value_span t v kind (m_start m) h tel q = Some (s, e, r)"
    by (auto simp: pair_span_def Let_def split: if_splits option.splits)
  from locate_value_bounds [OF l assms(2)] value_span_bounds [OF v] show ?thesis by auto
qed

section \<open>Masking the values\<close>

interpretation key_run: scanner "KEY_RUN R" for R
  by unfold_locales (simp add: KEY_RUN_def)

lemma key_run_advances:
  "rx_search (KEY_RUN R) t position = Some m \<Longrightarrow> length t - m_end m < length t - position"
  using key_run.search_advances [of R t position m] by simp

lemma pair_advances:
  assumes "rx_search (KEY_RUN R) t position = Some m" "pair_span R t m = Some (Some (s, e, r))" "\<not> e \<le> s"
  shows "length t - e < length t - position"
  using pair_span_bounds [OF assms(2)] rx_search_SomeD(4) [OF assms(1)]
    key_run.search_advances [OF assms(1)] assms(3) by linarith

fun swallows_loop :: "pyrt \<Rightarrow> pystr \<Rightarrow> nat \<Rightarrow> nat \<Rightarrow> rxm list \<Rightarrow> bool option" where
  "swallows_loop R t stop examined [] = Some False"
| "swallows_loop R t stop examined (m # ms) =
     (case pair_span R t m of
        None \<Rightarrow> None
      | Some None \<Rightarrow> swallows_loop R t stop examined ms
      | Some (Some (_, inner_end, _)) \<Rightarrow>
          (if MAX_SWALLOWED_KEYS < examined + 1 \<or> stop < inner_end then Some True
           else swallows_loop R t stop (examined + 1) ms))"

definition swallows_a_value :: "pyrt \<Rightarrow> pystr \<Rightarrow> nat \<Rightarrow> nat \<Rightarrow> bool option" where
  "swallows_a_value R t start stop =
     swallows_loop R t stop 0 (rx_iterate (KEY_RUN R) (take stop t) start)"

text \<open>
  The loop of \<open>_scrub_pairs\<close> from \<open>copied\<close> and \<open>position\<close>: the rest of the output.
\<close>

function scrub_pairs_loop :: "pyrt \<Rightarrow> pystr \<Rightarrow> nat \<Rightarrow> nat \<Rightarrow> pystr option" where
  "scrub_pairs_loop R t copied position =
     (case rx_search (KEY_RUN R) t position of
        None \<Rightarrow> Some (drop copied t)
      | Some m \<Rightarrow>
          (case pair_span R t m of
             None \<Rightarrow> None
           | Some None \<Rightarrow> scrub_pairs_loop R t copied (m_end m)
           | Some (Some (start, e, replacement)) \<Rightarrow>
               (if e \<le> start then scrub_pairs_loop R t copied (m_end m)
                else
                  (case (if e < length t then swallows_a_value R t start e else Some False) of
                     None \<Rightarrow> None
                   | Some True \<Rightarrow> Some (slice t copied start @ REDACTED)
                   | Some False \<Rightarrow>
                       map_option (\<lambda>rest. slice t copied start @ replacement @ rest)
                         (scrub_pairs_loop R t e e)))))"
  by pat_completeness auto
termination
  by (relation "measure (\<lambda>(R, t, copied, position). length t - position)")
    (auto intro: key_run_advances pair_advances)

declare scrub_pairs_loop.simps [simp del]

definition scrub_pairs :: "pyrt \<Rightarrow> pystr \<Rightarrow> pystr option" where
  "scrub_pairs R t = scrub_pairs_loop R t 0 0"

section \<open>When the scanners raise\<close>

text \<open>\<open>text[quote_at]\<close> is read past the end only when the text ends with a string prefix.\<close>

lemma unquoted_end_None: "unquoted_end t start tel q = None \<longleftrightarrow> length t \<le> start"
  by (simp add: unquoted_end_def)

lemma value_at_None:
  assumes "value_at t index h tel q = None"
  shows "t \<noteq> [] \<and> is_string_prefix (last t)"
proof -
  define qa where "qa = (if is_string_prefix (t ! index)
      \<and> (length t \<le> index + 1 \<or> is_quote (t ! (index + 1))) then index + 1 else index)"
  have i: "index < length t" using assms by (auto simp: value_at_def split: if_splits)
  have "length t \<le> qa"
  proof (rule ccontr)
    assume n: "\<not> length t \<le> qa"
    have later: "length t \<le> run_end is_blank t (Suc x)" if "length t \<le> Suc x" for x
      using that run_end_ge [of "Suc x" is_blank t] by (rule order_trans)
    from assms i n show False unfolding value_at_def Let_def qa_def [symmetric]
      by (auto simp: unquoted_end_None split: if_splits option.splits dest: later)
  qed
  then have "index + 1 = length t" "is_string_prefix (t ! index)"
    using i by (auto simp: qa_def split: if_splits)
  then show ?thesis by (metis add_diff_cancel_right' i last_conv_nth length_0_conv not_less_zero)
qed

lemma value_span_None:
  assumes "value_span t start kind key_start h tel q = None"
  shows "t \<noteq> [] \<and> is_string_prefix (last t)"
  using assms value_at_None
  by (fastforce simp: value_span_def Let_def split: intro.splits if_splits prod.splits option.splits)

lemma pair_span_None: "pair_span R t m = None \<Longrightarrow> t \<noteq> [] \<and> is_string_prefix (last t)"
  using value_span_None
  by (fastforce simp: pair_span_def Let_def split: if_splits option.splits prod.splits)

lemma swallows_loop_None: "swallows_loop R t stop n ms = None \<Longrightarrow> t \<noteq> [] \<and> is_string_prefix (last t)"
  by (induction R t stop n ms rule: swallows_loop.induct)
    (auto split: option.splits if_splits prod.splits dest: pair_span_None)

text \<open>
  \<open>_scrub_pairs\<close> returns a text for every input that does not end with one of the letters
  that prefix a Python string literal.
\<close>

theorem scrub_pairs_raises_only_at_prefix:
  assumes "scrub_pairs R t = None"
  shows "t \<noteq> [] \<and> is_string_prefix (last t)"
proof -
  have "scrub_pairs_loop R t copied position = None \<Longrightarrow> t \<noteq> [] \<and> is_string_prefix (last t)"
    for copied position
  proof (induction R t copied position rule: scrub_pairs_loop.induct)
    case (1 R t copied position)
    note eq = scrub_pairs_loop.simps [of R t copied position]
    from "1.prems" obtain m where m: "rx_search (KEY_RUN R) t position = Some m"
      unfolding eq by (auto split: option.splits)
    show ?case
    proof (cases "pair_span R t m")
      case None
      then show ?thesis by (rule pair_span_None)
    next
      case (Some sp)
      show ?thesis
      proof (cases sp)
        case None
        with "1.prems" m Some have "scrub_pairs_loop R t copied (m_end m) = None" unfolding eq by simp
        with "1.IH"(1) [OF m Some None] show ?thesis by blast
      next
        case sp: (Some v)
        obtain s e r where v: "v = (s, e, r)" by (cases v)
        show ?thesis
        proof (cases "e \<le> s")
          case True
          with "1.prems" m Some sp v have "scrub_pairs_loop R t copied (m_end m) = None" unfolding eq by simp
          with "1.IH"(2) [OF m Some sp v [symmetric] refl True] show ?thesis by blast
        next
          case False
          let ?sw = "if e < length t then swallows_a_value R t s e else Some False"
          show ?thesis
          proof (cases ?sw)
            case None
            then show ?thesis using swallows_loop_None
              by (auto simp: swallows_a_value_def split: if_splits)
          next
            case sw: (Some b)
            with "1.prems" m Some sp v False have "\<not> b" "scrub_pairs_loop R t e e = None"
              unfolding eq by (auto split: bool.splits)
            with "1.IH"(3) [OF m Some sp v [symmetric] refl False sw] show ?thesis by simp
          qed
        qed
      qed
    qed
  qed
  with assms show ?thesis by (simp add: scrub_pairs_def)
qed

section \<open>A key, an equals sign and a value\<close>

lemma key_run_first:
  assumes "k \<noteq> []" "list_all (is_key_char R) k" "q = [] \<or> \<not> is_key_char R (hd q)"
  shows "rx_search (KEY_RUN R) (k @ q) 0 = Some \<lparr>m_start = 0, m_end = length k, m_caps = Map.empty\<rparr>"
proof -
  from rx_match_set_plus_run [OF assms, of "[]" Map.empty] obtain xs where
    "rx_match (KEY_RUN R) (k @ q) 0 Map.empty = (length k, Map.empty) # xs"
    by (auto simp: KEY_RUN_def)
  then show ?thesis by (rule rx_search_at) simp_all
qed

text \<open>A character that neither ends an unquoted value nor changes how it is read.\<close>

definition is_ordinary :: "pychar \<Rightarrow> bool" where
  "is_ordinary c \<longleftrightarrow> \<not> is_value_delimiter c \<and> \<not> is_quote c \<and> \<not> is_opener c \<and> \<not> is_closer c
     \<and> c \<noteq> c_backslash \<and> c \<noteq> c_amp"

lemma newline_delimits: "is_newline c \<Longrightarrow> is_value_delimiter c"
  by (auto simp: is_newline_def is_value_delimiter_def)

lemma unquoted_loop_ordinary:
  assumes "i \<le> length t" "list_all is_ordinary (drop i t)"
  shows "unquoted_loop t tel q sl le 0 i = length t"
  using assms
proof (induction "length t - i" arbitrary: i)
  case 0
  then show ?case by (simp add: unquoted_loop.simps)
next
  case (Suc n)
  then have i: "i < length t" by simp
  have d: "drop i t = t ! i # drop (Suc i) t" using i by (simp add: Cons_nth_drop_Suc)
  with Suc.prems have o: "is_ordinary (t ! i)" "list_all is_ordinary (drop (Suc i) t)" by auto
  with i newline_delimits have "unquoted_loop t tel q sl le 0 i = unquoted_loop t tel q sl le 0 (i + 1)"
    by (subst unquoted_loop.simps) (auto simp: is_ordinary_def Let_def)
  moreover have "unquoted_loop t tel q sl le 0 (Suc i) = length t"
    by (rule Suc.hyps(1)) (use Suc.hyps(2) i o in auto)
  ultimately show ?case by simp
qed

lemma escaped_space_0: "t ! i \<noteq> c_backslash \<Longrightarrow> i < length t \<Longrightarrow> escaped_space t i = 0"
  by (simp add: escaped_space_def run_end_here)

text \<open>Where the value of \<open>key=value\<close> is found.\<close>

lemma locate_after_equals:
  assumes "v \<noteq> []" "hd v \<noteq> c_gt"
  shows "locate_value (k @ c_eq # v) 0 (length k) = Some (Suc (length k), IsValue)"
proof -
  let ?t = "k @ c_eq # v"
  have c: "?t ! length k = c_eq" by simp
  have "key_trailers ?t (length k) False = (length k, False)"
    by (subst key_trailers.simps)
      (simp add: is_key_trailer_def is_quote_def is_closer_def FRAGMENT_OPEN_def)
  moreover have "skip_spaces ?t (length k) None = (length k, None)"
    by (subst skip_spaces.simps) (simp add: escaped_space_0 is_space_def)
  moreover have "slice ?t (length k + 1) (length k + 2) = [hd v]"
    using assms(1) by (cases v) (simp_all add: slice_def)
  ultimately show ?thesis using assms(2) by (simp add: locate_value_def)
qed

lemma skip_spaces_here: "i < length t \<Longrightarrow> \<not> is_space (t ! i) \<Longrightarrow> t ! i \<noteq> c_backslash \<Longrightarrow>
    skip_spaces t i None = (i, None)"
  by (subst skip_spaces.simps) (simp add: escaped_space_0)

text \<open>
  \<open>key=value\<close> with a sensitive key shows the mask in place of the value, whatever the
  characters of the value are apart from ASCII white space, quotes, brackets, backslash and
  ampersand. White space outside ASCII does not end it.
\<close>

theorem scrub_pairs_masks_value:
  assumes "is_sensitive_text_key R k" "list_all (is_key_char R) k" "k \<noteq> []"
    "v \<noteq> []" "list_all is_ordinary v" "\<not> is_space (hd v)" "hd v \<noteq> c_gt"
    "\<not> (length v = 1 \<and> is_string_prefix (hd v))"
  shows "scrub_pairs R (k @ c_eq # v) = Some (k @ c_eq # REDACTED)"
proof -
  let ?t = "k @ c_eq # v"
  let ?m = "\<lparr>m_start = 0, m_end = length k, m_caps = Map.empty\<rparr>"
  have search: "rx_search (KEY_RUN R) ?t 0 = Some ?m"
    by (rule key_run_first [OF assms(3,2)]) (simp add: is_key_char_def is_word_def lit_eval)
  have i: "Suc (length k) < length ?t" using assms(4) by (cases v) auto
  have hd: "?t ! Suc (length k) = hd v" using assms(4) by (simp add: nth_append hd_conv_nth)
  have o: "is_ordinary (hd v)" using assms(4,5) by (cases v) auto
  have second: "length ?t \<le> Suc (length k) + 1 \<longleftrightarrow> length v = 1"
    "\<not> length ?t \<le> Suc (length k) + 1 \<Longrightarrow> \<not> is_quote (?t ! (Suc (length k) + 1))"
  proof -
    show "length ?t \<le> Suc (length k) + 1 \<longleftrightarrow> length v = 1" using assms(4) by (cases v) auto
    show "\<not> is_quote (?t ! (Suc (length k) + 1))" if "\<not> length ?t \<le> Suc (length k) + 1"
      using that assms(4,5) by (cases v; cases "tl v") (auto simp: nth_append is_ordinary_def)
  qed
  have "unquoted_end ?t (Suc (length k)) tel q = Some (length ?t)" for tel q
    using i assms(5) by (simp add: unquoted_end_def unquoted_loop_ordinary)
  then have "value_at ?t (Suc (length k)) h tel q = Some (Suc (length k), length ?t, REDACTED)" for h tel q
    using i hd o second assms(8) unfolding value_at_def Let_def by (auto simp: is_ordinary_def)
  then have "value_span ?t (Suc (length k)) IsValue 0 h tel q = Some (Suc (length k), length ?t, REDACTED)"
    for h tel q
    using skip_spaces_here [OF i] hd o assms(6) by (simp add: value_span_def is_ordinary_def)
  then have "pair_span R ?t ?m = Some (Some (Suc (length k), length ?t, REDACTED))"
    using assms(1,4,7) locate_after_equals [of v k]
    by (simp add: pair_span_def rx_text_def slice_def Let_def)
  moreover have "scrub_pairs_loop R ?t (length ?t) (length ?t) = Some []"
    by (subst scrub_pairs_loop.simps)
      (use key_run.search_advances(2) [of R ?t "length ?t"] in \<open>auto split: option.split\<close>)
  moreover have "slice ?t 0 (Suc (length k)) = k @ [c_eq]" by (simp add: slice_def)
  ultimately show ?thesis using search i
    by (simp add: scrub_pairs_def scrub_pairs_loop.simps [of R ?t 0 0])
qed

lemma lone_prefix_raises:
  assumes "is_sensitive_text_key R k" "list_all (is_key_char R) k" "k \<noteq> []" "is_string_prefix c"
  shows "scrub_pairs R (k @ [c_eq, c]) = None"
proof -
  let ?t = "k @ [c_eq, c]"
  let ?m = "\<lparr>m_start = 0, m_end = length k, m_caps = Map.empty\<rparr>"
  have c: "\<not> is_space c" "c \<noteq> c_backslash" "c \<noteq> c_gt"
    using assms(4) by (auto simp: is_string_prefix_def is_space_def)
  have "rx_search (KEY_RUN R) ?t 0 = Some ?m"
    by (rule key_run_first [OF assms(3,2)]) (simp add: is_key_char_def is_word_def lit_eval)
  moreover have "value_at ?t (Suc (length k)) h tel q = None" for h tel q
    using assms(4) by (simp add: value_at_def nth_append)
  then have "value_span ?t (Suc (length k)) IsValue 0 h tel q = None" for h tel q
    using skip_spaces_here [of "Suc (length k)" ?t] c by (simp add: value_span_def nth_append)
  then have "pair_span R ?t ?m = None"
    using assms(1) c locate_after_equals [of "[c]" k]
    by (simp add: pair_span_def rx_text_def slice_def Let_def)
  ultimately show ?thesis by (simp add: scrub_pairs_def scrub_pairs_loop.simps [of R ?t 0 0])
qed

text \<open>
  C36: A value that is one letter out of \<open>bBuUrReE\<close> at the end of the text makes the scanner read
  past the end: \<open>_scrub_pairs("password=b")\<close> raises \<open>IndexError\<close>.
\<close>

theorem scrub_pairs_raises_at_lone_prefix:
  assumes "is_sensitive_text_key R k" "list_all (is_key_char R) k" "k \<noteq> []" "is_string_prefix c"
  shows "scrub_pairs R (k @ [c_eq, c]) = None"
  using assms by (rule lone_prefix_raises)

section \<open>Examples\<close>

lemma pwd_is_sensitive: "is_sensitive_text_key ascii_runtime (lit ''pwd'')"
  "list_all (is_key_char ascii_runtime) (lit ''pwd'')"
  by code_simp+

theorem scrub_pairs_masks_value_witness:
  "scrub_pairs ascii_runtime (lit ''pwd=x=y'') = Some (lit ''pwd=[REDACTED]'')"
proof -
  have "scrub_pairs ascii_runtime (lit ''pwd'' @ c_eq # lit ''x=y'') = Some (lit ''pwd'' @ c_eq # REDACTED)"
    by (rule scrub_pairs_masks_value [OF pwd_is_sensitive])
      (simp_all add: lit_eval is_ordinary_def is_space_def)
  then show ?thesis by (simp add: lit_eval REDACTED_def)
qed

theorem scrub_pairs_raises_at_lone_prefix_witness:
  "scrub_pairs ascii_runtime (lit ''pwd=b'') = None"
proof -
  have "scrub_pairs ascii_runtime (lit ''pwd'' @ [c_eq, 98]) = None"
    by (rule scrub_pairs_raises_at_lone_prefix [OF pwd_is_sensitive]) (simp_all add: lit_eval)
  then show ?thesis by (simp add: lit_eval)
qed

theorem scrub_pairs_raises_only_at_prefix_witness:
  "is_string_prefix (last (lit ''pwd=b''))"
proof -
  have "scrub_pairs ascii_runtime (lit ''pwd'' @ [c_eq, 98]) = None"
    by (rule lone_prefix_raises [OF pwd_is_sensitive]) (simp_all add: lit_eval)
  then have "scrub_pairs ascii_runtime (lit ''pwd=b'') = None" by (simp add: lit_eval)
  then show ?thesis using scrub_pairs_raises_only_at_prefix by blast
qed

text \<open>
  A bracketed value that spans lines and is followed directly by a quote: the quote is
  sought only up to the end of the first line, which lies behind the scanner, and the span
  ends there. What follows the line break is not masked by this rule.
\<close>

theorem value_span_stops_behind_the_scanner:
  "value_span (lit ''pwd=['' @ [c_nl] @ lit '']'' @ [c_dquote, 120, c_dquote]) 4 IsValue 0 False False False
    = Some (4, 5, REDACTED)"
  by code_simp

end
