(* ===== verification/FreeText.thy ===== *)
theory FreeText
  imports TokenRules UrlRules PairRules
begin

text \<open>
  The text rules of \<open>redaction.py\<close> put together: bare authorities, the sequence of rules
  (\<open>_scrub_free_text\<close>), and the ambiguity rule on top of it (\<open>_scrub_held\<close>). \<open>None\<close> is the
  \<open>IndexError\<close> of the pair scanner.
\<close>

section \<open>Bare authorities\<close>

definition bare_authority :: "pystr \<Rightarrow> pystr" where
  "bare_authority token =
     (case py_rfind token [c_at] 0 (length token) of
        None \<Rightarrow> token
      | Some at \<Rightarrow>
          if at = 0 \<or> py_in scheme_mark token then token
          else case py_find token [c_colon] 0 (length token) of
            None \<Rightarrow> token
          | Some colon \<Rightarrow>
              if \<not> (0 < colon \<and> colon + 1 < at) \<or> take at token = REDACTED then token
              else if rx_at DRIVE_PATH token 0 \<noteq> None \<and> count_list (take at token) c_colon = 1 then token
              else REDACTED @ drop at token)"

definition scrub_bare_authorities :: "pystr \<Rightarrow> pystr" where
  "scrub_bare_authorities t =
     (if c_at \<in> set t then rx_sub TOKEN (\<lambda>m. bare_authority (rx_text t m)) t else t)"

interpretation token: scanner TOKEN
  by unfold_locales (simp add: TOKEN_def)

section \<open>All the rules\<close>

definition scrub_free_text :: "pyrt \<Rightarrow> pystr \<Rightarrow> bool \<Rightarrow> pystr option" where
  "scrub_free_text R t was_cut =
     map_option scrub_bare_authorities
       (scrub_pairs R (scrub_urls R (scrub_signed_references R (scrub_tokens R t)) was_cut))"

definition without_ambiguous :: "pystr \<Rightarrow> pystr" where
  "without_ambiguous t = filter (\<lambda>c. \<not> is_ambiguous c) t"

text \<open>
  \<open>_scrub_held\<close>: the result, and the characters it charges to the scan allowance.
\<close>

definition scrub_held :: "pyrt \<Rightarrow> pystr \<Rightarrow> bool \<Rightarrow> pystr option \<times> nat" where
  "scrub_held R held was_cut =
     (case scrub_free_text R held was_cut of
        None \<Rightarrow> (None, 0)
      | Some scrubbed \<Rightarrow>
          if \<not> list_ex is_ambiguous held then (Some scrubbed, 0)
          else if scrubbed \<noteq> held then (Some REDACTED, 0)
          else let joined = without_ambiguous held in
            (case scrub_free_text R joined was_cut of
               None \<Rightarrow> (None, length joined)
             | Some s \<Rightarrow> (Some (if s \<noteq> joined then REDACTED else scrubbed), length joined)))"

section \<open>Nothing beside an ambiguous character\<close>

text \<open>
  A text that holds a character the grammars disagree about is emitted as it is or masked
  whole; and it is emitted only if no rule changes it, neither as written nor with those
  characters removed.
\<close>

theorem scrub_held_ambiguous:
  assumes "fst (scrub_held R held was_cut) = Some out" "list_ex is_ambiguous held"
  shows "out = REDACTED \<or>
    (out = held \<and> scrub_free_text R held was_cut = Some held
      \<and> scrub_free_text R (without_ambiguous held) was_cut = Some (without_ambiguous held))"
  using assms by (auto simp: scrub_held_def Let_def split: option.splits if_splits)

section \<open>Tokens with a password\<close>

text \<open>
  \<open>user:password@host\<close> without a scheme: the mask replaces everything up to the last \<open>@\<close>.
\<close>

lemma bare_authority_masks:
  assumes "u \<noteq> []" "pw \<noteq> []" "c_colon \<notin> set u" "c_at \<notin> set h" "\<not> py_in scheme_mark (u @ c_colon # pw @ c_at # h)"
    "rx_at DRIVE_PATH (u @ c_colon # pw @ c_at # h) 0 = None" "u @ c_colon # pw \<noteq> REDACTED"
  shows "bare_authority (u @ c_colon # pw @ c_at # h) = REDACTED @ c_at # h"
proof -
  let ?t = "u @ c_colon # pw @ c_at # h"
  let ?a = "length (u @ c_colon # pw)"
  have at: "py_rfind ?t [c_at] 0 (length ?t) = Some ?a"
  proof -
    have "?t ! j \<noteq> c_at" if "?a < j" "j < length ?t" for j
    proof -
      have "?t ! j = h ! (j - Suc ?a)" "j - Suc ?a < length h"
        using that by (auto simp: nth_append nth_Cons' split: if_splits)
      with assms(4) show ?thesis by (metis nth_mem)
    qed
    then show ?thesis unfolding py_rfind_char by (auto simp: nth_append)
  qed
  have colon: "py_find ?t [c_colon] 0 (length ?t) = Some (length u)"
    unfolding py_find_char using assms(3) by (auto simp: nth_append dest: nth_mem)
  have take: "take ?a ?t = u @ c_colon # pw" "drop ?a ?t = c_at # h" by auto
  show ?thesis
    unfolding bare_authority_def at option.case colon take
    using assms(1,2,5,6,7) by (cases pw) auto
qed

end
