(* ===== verification/JsonCodec.thy ===== *)
theory JsonCodec
  imports PyText
begin

text \<open>
  The Python objects that reach the sanitiser, the built-in values that leave it, and the
  two functions of the standard library's \<open>json\<close> that \<open>redaction.py\<close> calls on them:
  \<open>JSONDecoder().raw_decode\<close> and \<open>dumps\<close>.

  \<open>raw_decode\<close> is written after the scanner of CPython 3.12 (the version the project pins),
  with the positions its errors carry, because the caller charges them to its work
  allowance. An error without a position is the \<open>ValueError\<close> of an integer of more than
  4,300 digits or the \<open>RecursionError\<close> of deep nesting.
\<close>

section \<open>Objects\<close>

text \<open>
  A value by what its real type is. A container of the caller is a reference \<open>VRef\<close> into the
  heap, because the sanitiser depends on identity; a container the decoder has just made is
  \<open>VList\<close> or \<open>VDict\<close>, which nothing else refers to. \<open>VStr exact\<close> records whether the type is
  \<open>str\<close> itself. A float is its \<open>repr\<close>. \<open>VFixed\<close> is a scalar with a renderer of its own.
\<close>

text \<open>
  The scalars of \<open>_FIXED_RENDERERS\<close> by what their renderers read: the number in a UUID (if it
  is an exact \<open>int\<close>); the size a Decimal reports, whether rounding it to the fixed precision
  changes it, and the text of the rounded value; whether the time zone of a moment is one of
  the standard ones, and its ISO form; the ISO form of a date; type name and length of bytes;
  or an object whose renderer raises.
\<close>

datatype fixed =
    FUuid "int option"
  | FDecimal nat bool pystr
  | FMoment bool pystr
  | FDate pystr
  | FBytes pystr nat
  | FBroken

datatype pyval =
    VNone
  | VBool bool
  | VInt int
  | VFloat pystr
  | VStr bool pystr
  | VList "pyval list"
  | VDict "(pystr \<times> pyval) list"
  | VRef nat
  | VSecret
  | VExc nat
  | VEnum pyval
  | VTimedelta pystr
  | VPath pystr
  | VFixed fixed
  | VOther

text \<open>What the sanitiser returns: exact built-in values.\<close>

datatype safe =
    SNone
  | SBool bool
  | SInt int
  | SFloat pystr
  | SStr pystr
  | SList "safe list"
  | SDict "(pystr \<times> safe) list"

text \<open>\<open>d[k] = v\<close>: a new key goes to the end, an old one keeps its place.\<close>

fun dict_set :: "('k \<times> 'v) list \<Rightarrow> 'k \<Rightarrow> 'v \<Rightarrow> ('k \<times> 'v) list" where
  "dict_set [] k v = [(k, v)]"
| "dict_set ((k', v') # d) k v = (if k' = k then (k, v) # d else (k', v') # dict_set d k v)"

lemma dict_set_keys: "set (map fst (dict_set d k v)) = insert k (set (map fst d))"
  by (induction d k v rule: dict_set.induct) auto

lemma dict_set_distinct: "distinct (map fst d) \<Longrightarrow> distinct (map fst (dict_set d k v))"
  by (induction d k v rule: dict_set.induct) (auto simp: dict_set_keys [simplified])

lemma map_of_dict_set: "map_of (dict_set d k v) = (map_of d)(k \<mapsto> v)"
  by (induction d k v rule: dict_set.induct) auto

section \<open>Decoding\<close>

text \<open>\<open>Inl\<close> is an exception, with the position a \<open>JSONDecodeError\<close> carries.\<close>

type_synonym 'a decoded = "nat option + 'a"

definition json_space :: "pychar \<Rightarrow> bool" where
  "json_space c \<longleftrightarrow> c = c_space \<or> c = c_tab \<or> c = c_nl \<or> c = c_cr"

definition char_is :: "pystr \<Rightarrow> nat \<Rightarrow> pychar \<Rightarrow> bool" where
  "char_is s i c \<longleftrightarrow> i < length s \<and> s ! i = c"

definition simple_json_escape :: "pychar \<Rightarrow> pychar option" where
  "simple_json_escape c =
     (if c = c_dquote \<or> c = c_backslash \<or> c = c_slash then Some c
      else if c = 98 then Some 8 else if c = 102 then Some 12 else if c = 110 then Some 10
      else if c = 114 then Some 13 else if c = 116 then Some 9 else None)"

definition is_high_surrogate :: "nat \<Rightarrow> bool" where
  "is_high_surrogate c \<longleftrightarrow> 55296 \<le> c \<and> c \<le> 56319"

definition is_low_surrogate :: "nat \<Rightarrow> bool" where
  "is_low_surrogate c \<longleftrightarrow> 56320 \<le> c \<and> c \<le> 57343"

definition join_surrogates :: "nat \<Rightarrow> nat \<Rightarrow> nat" where
  "join_surrogates h l = 65536 + (h - 55296) * 1024 + (l - 56320)"

text \<open>The character of a \<open>\u\<close> escape whose backslash is at \<open>n\<close>, and the index after it.\<close>

definition json_unicode_escape :: "pystr \<Rightarrow> nat \<Rightarrow> (pychar \<times> nat) decoded" where
  "json_unicode_escape s n =
     (if length s \<le> n + 6 then Inl (Some (n + 1))
      else let ds = slice s (n + 2) (n + 6) in
        if \<not> list_all is_hex ds then Inl (Some (n + 1))
        else let c = hex_value ds in
          if is_high_surrogate c \<and> n + 12 < length s \<and> s ! (n + 6) = c_backslash \<and> s ! (n + 7) = 117
          then (let ds2 = slice s (n + 8) (n + 12) in
                  if \<not> list_all is_hex ds2 then Inl (Some (n + 7))
                  else if is_low_surrogate (hex_value ds2)
                       then Inr (join_surrogates c (hex_value ds2), n + 12) else Inr (c, n + 6))
          else Inr (c, n + 6))"

definition plain_json_char :: "pychar \<Rightarrow> bool" where
  "plain_json_char c \<longleftrightarrow> 31 < c \<and> c \<noteq> c_dquote \<and> c \<noteq> c_backslash"

text \<open>\<open>scanstring\<close> from \<open>i\<close>, for a string whose opening quote is at \<open>start\<close>.\<close>

function scan_string :: "pystr \<Rightarrow> nat \<Rightarrow> nat \<Rightarrow> (pystr \<times> nat) decoded" where
  "scan_string s start i =
     (let n = run_end plain_json_char s i in
        if length s \<le> n then Inl (Some start)
        else if s ! n = c_dquote then Inr (slice s i n, n + 1)
        else if s ! n \<noteq> c_backslash then Inl (Some n)
        else if n + 1 = length s then Inl (Some start)
        else if s ! (n + 1) \<noteq> 117 then
          (case simple_json_escape (s ! (n + 1)) of
             None \<Rightarrow> Inl (Some n)
           | Some c \<Rightarrow> (case scan_string s start (n + 2) of
               Inl e \<Rightarrow> Inl e | Inr (w, j) \<Rightarrow> Inr (slice s i n @ c # w, j)))
        else
          (case json_unicode_escape s n of
             Inl e \<Rightarrow> Inl e
           | Inr (c, k) \<Rightarrow> (case scan_string s start (max k (n + 2)) of
               Inl e \<Rightarrow> Inl e | Inr (w, j) \<Rightarrow> Inr (slice s i n @ c # w, j))))"
  by pat_completeness auto
termination
proof (relation "measure (\<lambda>(s, start, i). length s - i)")
  fix s :: pystr and start i n
  assume "n = run_end plain_json_char s i" "\<not> length s \<le> n"
  then have "i \<le> n" "n < length s" by auto
  then show "((s, start, n + 2), s, start, i) \<in> measure (\<lambda>(s, start, i). length s - i)"
    and "((s, start, max k (n + 2)), s, start, i) \<in> measure (\<lambda>(s, start, i). length s - i)" for k
    by auto
qed auto

declare scan_string.simps [simp del]

text \<open>\<open>_match_number\<close>; an integer's digits are limited in number.\<close>

definition MAX_INT_DIGITS :: nat where
  "MAX_INT_DIGITS = 4300"

definition signed_value :: "pystr \<Rightarrow> int" where
  "signed_value w = (if take 1 w = [c_dash] then - int (dec_value (tl w)) else int (dec_value w))"

definition number_end :: "pystr \<Rightarrow> nat \<Rightarrow> nat option" where
  "number_end s j =
     (if length s \<le> j then None
      else if s ! j = 48 then Some (j + 1)
      else if is_adigit (s ! j) then Some (run_end is_adigit s (j + 1))
      else None)"

definition fraction_end :: "pystr \<Rightarrow> nat \<Rightarrow> nat" where
  "fraction_end s k =
     (if k + 1 < length s \<and> s ! k = c_dot \<and> is_adigit (s ! (k + 1)) then run_end is_adigit s (k + 2) else k)"

definition exponent_end :: "pystr \<Rightarrow> nat \<Rightarrow> nat" where
  "exponent_end s k =
     (if k + 1 < length s \<and> (s ! k = 101 \<or> s ! k = 69) then
        (let x = (if k + 2 < length s \<and> (s ! (k + 1) = c_dash \<or> s ! (k + 1) = c_plus) then k + 2 else k + 1);
             y = run_end is_adigit s x
         in if is_adigit (s ! (y - 1)) then y else k)
      else k)"

definition match_number :: "pyrt \<Rightarrow> pystr \<Rightarrow> nat \<Rightarrow> (pyval \<times> nat) decoded" where
  "match_number R s i =
     (let j = (if char_is s i c_dash then i + 1 else i) in
        case number_end s j of
          None \<Rightarrow> Inl (Some i)
        | Some k \<Rightarrow>
            (let e = exponent_end s (fraction_end s k) in
               if e \<noteq> k then Inr (VFloat (rt_float R (slice s i e)), e)
               else if MAX_INT_DIGITS < k - j then Inl None
               else Inr (VInt (signed_value (slice s i k)), k)))"

text \<open>
  The members of an array and of an object, from the first one on. At the end of the text
  the scanner itself stops with that position.
\<close>

function scan_array :: "(nat \<Rightarrow> (pyval \<times> nat) decoded) \<Rightarrow> pystr \<Rightarrow> nat \<Rightarrow> (pyval list \<times> nat) decoded" where
  "scan_array scan s i =
     (if length s \<le> i then Inl (Some i)
      else case scan i of
        Inl e \<Rightarrow> Inl e
      | Inr (v, j) \<Rightarrow>
          (let k = run_end json_space s j in
             if char_is s k c_rbrack then Inr ([v], k + 1)
             else if \<not> char_is s k c_comma then Inl (Some k)
             else (case scan_array scan s (max (i + 1) (run_end json_space s (k + 1))) of
                     Inl e \<Rightarrow> Inl e | Inr (vs, e) \<Rightarrow> Inr (v # vs, e))))"
  by pat_completeness auto
termination
  by (relation "measure (\<lambda>(scan, s, i). length s - i)") auto

declare scan_array.simps [simp del]

function scan_object ::
  "(nat \<Rightarrow> (pyval \<times> nat) decoded) \<Rightarrow> pystr \<Rightarrow> (pystr \<times> pyval) list \<Rightarrow> nat
    \<Rightarrow> ((pystr \<times> pyval) list \<times> nat) decoded" where
  "scan_object scan s members i =
     (if \<not> char_is s i c_dquote then Inl (Some i)
      else case scan_string s i (i + 1) of
        Inl e \<Rightarrow> Inl e
      | Inr (key, j) \<Rightarrow>
          (let k = run_end json_space s j in
             if \<not> char_is s k c_colon then Inl (Some k)
             else case scan (run_end json_space s (k + 1)) of
               Inl e \<Rightarrow> Inl e
             | Inr (v, l) \<Rightarrow>
                 (let x = run_end json_space s l; members' = dict_set members key v in
                    if char_is s x c_rbrace then Inr (members', x + 1)
                    else if \<not> char_is s x c_comma then Inl (Some x)
                    else scan_object scan s members' (max (i + 1) (run_end json_space s (x + 1))))))"
  by pat_completeness auto
termination
  by (relation "measure (\<lambda>(scan, s, members, i). length s - i)") (auto simp: char_is_def)

declare scan_object.simps [simp del]

text \<open>A value that is not a container.\<close>

definition scan_scalar :: "pyrt \<Rightarrow> pystr \<Rightarrow> nat \<Rightarrow> (pyval \<times> nat) decoded" where
  "scan_scalar R s i =
     (if char_is s i c_dquote then
        (case scan_string s i (i + 1) of Inl e \<Rightarrow> Inl e | Inr (w, j) \<Rightarrow> Inr (VStr True w, j))
      else if starts_at s (lit ''null'') i then Inr (VNone, i + 4)
      else if starts_at s (lit ''true'') i then Inr (VBool True, i + 4)
      else if starts_at s (lit ''false'') i then Inr (VBool False, i + 5)
      else if starts_at s (lit ''NaN'') i then Inr (VFloat (lit ''nan''), i + 3)
      else if starts_at s (lit ''Infinity'') i then Inr (VFloat (lit ''inf''), i + 8)
      else if starts_at s (lit ''-Infinity'') i then Inr (VFloat (lit ''-inf''), i + 9)
      else match_number R s i)"

text \<open>\<open>scan_once\<close>; the first number is the nesting the interpreter still allows.\<close>

fun scan_once :: "pyrt \<Rightarrow> nat \<Rightarrow> pystr \<Rightarrow> nat \<Rightarrow> (pyval \<times> nat) decoded" where
  "scan_once R 0 s i =
     (if char_is s i c_lbrace \<or> char_is s i c_lbrack then Inl None else scan_scalar R s i)"
| "scan_once R (Suc room) s i =
     (if char_is s i c_lbrace then
        (let k = run_end json_space s (i + 1) in
           if char_is s k c_rbrace then Inr (VDict [], k + 1)
           else case scan_object (scan_once R room s) s [] k of
             Inl e \<Rightarrow> Inl e | Inr (d, j) \<Rightarrow> Inr (VDict d, j))
      else if char_is s i c_lbrack then
        (let k = run_end json_space s (i + 1) in
           if char_is s k c_rbrack then Inr (VList [], k + 1)
           else case scan_array (scan_once R room s) s k of
             Inl e \<Rightarrow> Inl e | Inr (vs, j) \<Rightarrow> Inr (VList vs, j))
      else scan_scalar R s i)"

definition raw_decode :: "pyrt \<Rightarrow> pystr \<Rightarrow> nat \<Rightarrow> (pyval \<times> nat) decoded" where
  "raw_decode R s i = scan_once R (rt_recursion R) s i"

section \<open>Encoding\<close>

definition hex4 :: "nat \<Rightarrow> pystr" where
  "hex4 n = map (\<lambda>d. if d < 10 then 48 + d else 87 + d)
     [n div 4096 mod 16, n div 256 mod 16, n div 16 mod 16, n mod 16]"

text \<open>One character of a string under \<open>ensure_ascii=False\<close>.\<close>

definition json_escape :: "pychar \<Rightarrow> pystr" where
  "json_escape c =
     (if c = c_dquote then [c_backslash, c_dquote]
      else if c = c_backslash then [c_backslash, c_backslash]
      else if c = 10 then [c_backslash, 110] else if c = 13 then [c_backslash, 114]
      else if c = 9 then [c_backslash, 116] else if c = 8 then [c_backslash, 98]
      else if c = 12 then [c_backslash, 102]
      else if c < 32 then [c_backslash, 117] @ hex4 c
      else [c])"

definition dumps_string :: "pystr \<Rightarrow> pystr" where
  "dumps_string s = c_dquote # concat (map json_escape s) @ [c_dquote]"

definition dumps_float :: "pystr \<Rightarrow> pystr" where
  "dumps_float r = (if r = lit ''nan'' then lit ''NaN'' else if r = lit ''inf'' then lit ''Infinity''
     else if r = lit ''-inf'' then lit ''-Infinity'' else r)"

fun dumps_by :: "(pystr \<Rightarrow> pystr) \<Rightarrow> safe \<Rightarrow> pystr" where
  "dumps_by str SNone = lit ''null''"
| "dumps_by str (SBool b) = (if b then lit ''true'' else lit ''false'')"
| "dumps_by str (SInt i) = py_str_int i"
| "dumps_by str (SFloat r) = dumps_float r"
| "dumps_by str (SStr s) = str s"
| "dumps_by str (SList vs) = [c_lbrack] @ py_join (lit '', '') (map (dumps_by str) vs) @ [c_rbrack]"
| "dumps_by str (SDict d) = [c_lbrace]
     @ py_join (lit '', '') (map (\<lambda>(k, v). str k @ lit '': '' @ dumps_by str v) d) @ [c_rbrace]"

text \<open>\<open>json.dumps(_, ensure_ascii=False)\<close>\<close>

definition dumps :: "safe \<Rightarrow> pystr" where
  "dumps = dumps_by dumps_string"

text \<open>The default, with every non-ASCII character escaped.\<close>

definition json_escape_ascii :: "pychar \<Rightarrow> pystr" where
  "json_escape_ascii c =
     (if c < 127 then json_escape c
      else if c < 65536 then [c_backslash, 117] @ hex4 c
      else let n = c - 65536 in
        [c_backslash, 117] @ hex4 (55296 + n div 1024) @ [c_backslash, 117] @ hex4 (56320 + n mod 1024))"

definition dumps_string_ascii :: "pystr \<Rightarrow> pystr" where
  "dumps_string_ascii s = c_dquote # concat (map json_escape_ascii s) @ [c_dquote]"

definition dumps_ascii :: "safe \<Rightarrow> pystr" where
  "dumps_ascii = dumps_by dumps_string_ascii"

text \<open>\<open>len(json.dumps(text))\<close>, which is what a string costs.\<close>

definition ascii_escape_length :: "pychar \<Rightarrow> nat" where
  "ascii_escape_length c =
     (if c = c_dquote \<or> c = c_backslash \<or> c \<in> {8, 9, 10, 12, 13} then 2
      else if 32 \<le> c \<and> c \<le> 126 then 1
      else if c < 65536 then 6 else 12)"

definition rendered_length :: "pystr \<Rightarrow> nat" where
  "rendered_length s = 2 + sum_list (map ascii_escape_length s)"

lemma length_hex4 [simp]: "length (hex4 n) = 4"
  by (simp add: hex4_def)

lemma length_json_escape_ascii: "length (json_escape_ascii c) = ascii_escape_length c"
  by (simp add: json_escape_ascii_def json_escape_def ascii_escape_length_def Let_def)

lemma rendered_length_dumps: "length (dumps_string_ascii s) = rendered_length s"
  by (simp add: dumps_string_ascii_def rendered_length_def length_concat o_def length_json_escape_ascii)

section \<open>What the decoder returns lies ahead\<close>

text \<open>
  A decoder that advances: what it returns ends after its start and inside the text, and it
  returns no reference to an object of the caller. A float it returns is what the runtime makes
  of a number, or one of the three words.
\<close>

definition special_float :: "pystr \<Rightarrow> bool" where
  "special_float r \<longleftrightarrow> r = lit ''nan'' \<or> r = lit ''inf'' \<or> r = lit ''-inf''"

definition own_float :: "pyrt \<Rightarrow> pystr \<Rightarrow> bool" where
  "own_float R r \<longleftrightarrow> special_float r \<or> r \<in> range (rt_float R)"

fun own_value :: "pyrt \<Rightarrow> pyval \<Rightarrow> bool" where
  "own_value R VNone \<longleftrightarrow> True"
| "own_value R (VBool _) \<longleftrightarrow> True"
| "own_value R (VInt _) \<longleftrightarrow> True"
| "own_value R (VFloat r) \<longleftrightarrow> own_float R r"
| "own_value R (VStr exact _) \<longleftrightarrow> exact"
| "own_value R (VList vs) \<longleftrightarrow> list_all (own_value R) vs"
| "own_value R (VDict d) \<longleftrightarrow> list_all (\<lambda>(k, v). own_value R v) d"
| "own_value R _ \<longleftrightarrow> False"

lemma char_isD: "char_is s i c \<Longrightarrow> i < length s"
  by (simp add: char_is_def)

lemma unicode_escape_bounds:
  "json_unicode_escape s n = Inr (c, k) \<Longrightarrow> n + 6 \<le> k \<and> k \<le> length s"
  by (auto simp: json_unicode_escape_def Let_def split: if_splits)

lemma scan_string_bounds:
  "scan_string s start i = Inr (w, j) \<Longrightarrow> i < j \<and> j \<le> length s"
proof (induction s start i arbitrary: w j rule: scan_string.induct)
  case (1 s start i)
  define n where "n = run_end plain_json_char s i"
  have n: "i \<le> n" by (simp add: n_def)
  note eq = scan_string.simps [of s start i, unfolded Let_def, folded n_def]
  have in_text: "\<not> length s \<le> n" using "1.prems" unfolding eq by (auto split: if_splits)
  consider (close) "s ! n = c_dquote" | (simple) c w' where "s ! n \<noteq> c_dquote" "s ! n = c_backslash"
      "n + 1 \<noteq> length s" "s ! (n + 1) \<noteq> 117" "simple_json_escape (s ! (n + 1)) = Some c"
      "scan_string s start (n + 2) = Inr (w', j)"
    | (unicode) c k w' where "s ! n \<noteq> c_dquote" "s ! n = c_backslash" "n + 1 \<noteq> length s" "s ! (n + 1) = 117"
      "json_unicode_escape s n = Inr (c, k)" "scan_string s start (max k (n + 2)) = Inr (w', j)"
    using "1.prems" in_text unfolding eq
    by (auto split: if_splits option.splits sum.splits prod.splits)
  then show ?case
  proof cases
    case close
    with "1.prems" in_text n show ?thesis unfolding eq by auto
  next
    case simple
    have "\<not> s ! n \<noteq> c_backslash" using simple(2) by simp
    from "1.IH"(1) [OF n_def in_text simple(1) this simple(3-6)] n show ?thesis by linarith
  next
    case unicode
    have "\<not> s ! n \<noteq> c_backslash" "\<not> s ! (n + 1) \<noteq> 117" using unicode(2,4) by simp_all
    from "1.IH"(2) [OF n_def in_text unicode(1) this(1) unicode(3) this(2) unicode(5) refl unicode(6)] n
    show ?thesis by linarith
  qed
qed

lemma number_end_bounds: "number_end s j = Some k \<Longrightarrow> j < k \<and> k \<le> length s"
  using run_end_ge [of "j + 1" is_adigit s] run_end_le [of "j + 1" s is_adigit]
  by (auto simp: number_end_def simp del: run_end_ge split: if_splits)

lemma fraction_end_bounds: "k \<le> length s \<Longrightarrow> k \<le> fraction_end s k \<and> fraction_end s k \<le> length s"
  using run_end_ge [of "k + 2" is_adigit s] run_end_le [of "k + 2" s is_adigit]
  by (auto simp: fraction_end_def simp del: run_end_ge)

lemma exponent_end_bounds:
  assumes "k \<le> length s"
  shows "k \<le> exponent_end s k \<and> exponent_end s k \<le> length s"
proof -
  have "k \<le> run_end is_adigit s x \<and> run_end is_adigit s x \<le> length s" if "k \<le> x" "x \<le> length s" for x
    using run_end_ge [of x is_adigit s] run_end_le [OF that(2), of is_adigit] that(1) by linarith
  then show ?thesis using assms by (auto simp: exponent_end_def Let_def)
qed

lemma match_number_own:
  assumes "match_number R s i = Inr (v, j)"
  shows "i < j \<and> j \<le> length s \<and> own_value R v"
proof -
  define x where "x = (if char_is s i c_dash then i + 1 else i)"
  from assms obtain k where k: "number_end s x = Some k"
    by (auto simp: match_number_def Let_def x_def [symmetric] split: option.splits)
  have "i \<le> x" by (simp add: x_def)
  note b = number_end_bounds [OF k] fraction_end_bounds [of k s] exponent_end_bounds [of "fraction_end s k" s]
  from assms have "(v = VFloat (rt_float R (slice s i (exponent_end s (fraction_end s k)))) \<and>
      j = exponent_end s (fraction_end s k)) \<or> (v = VInt (signed_value (slice s i k)) \<and> j = k)"
    by (auto simp: match_number_def Let_def x_def [symmetric] k split: if_splits)
  with b \<open>i \<le> x\<close> show ?thesis by (elim disjE conjE) (auto simp: own_float_def)
qed

lemma scan_array_own:
  assumes "\<And>i v j. scan i = Inr (v, j) \<Longrightarrow> i < j \<and> j \<le> length s \<and> own_value R v"
  shows "scan_array scan s i = Inr (vs, e) \<Longrightarrow> i < e \<and> e \<le> length s \<and> list_all (own_value R) vs"
  using assms
proof (induction scan s i arbitrary: vs e rule: scan_array.induct)
  case (1 scan s i)
  note eq = scan_array.simps [of scan s i]
  from "1.prems"(1) obtain v j where i: "\<not> length s \<le> i" and v: "scan i = Inr (v, j)"
    unfolding eq by (auto split: if_splits sum.splits prod.splits)
  define k where "k = run_end json_space s j"
  note own = "1.prems"(2) [OF v]
  have k: "j \<le> k" by (simp add: k_def)
  show ?case
  proof (cases "char_is s k c_rbrack")
    case True
    with "1.prems"(1) i v own k char_isD [OF True] show ?thesis
      unfolding eq by (auto simp: k_def [symmetric])
  next
    case False
    with "1.prems"(1) i v have c: "char_is s k c_comma" unfolding eq by (auto simp: Let_def k_def split: if_splits)
    then obtain vs' where r: "scan_array scan s (max (i + 1) (run_end json_space s (k + 1))) = Inr (vs', e)"
      and vs: "vs = v # vs'"
      using "1.prems"(1) i v False unfolding eq
      by (auto simp: Let_def k_def [symmetric] split: sum.splits prod.splits)
    have "\<not> \<not> char_is s k c_comma" using c by simp
    from "1.IH" [OF i v refl k_def False this r "1.prems"(2)] own vs show ?thesis by simp
  qed
qed

lemma dict_set_own: "own_value R v \<Longrightarrow> list_all (\<lambda>(k, v). own_value R v) d \<Longrightarrow> list_all (\<lambda>(k, v). own_value R v) (dict_set d k v)"
  by (induction d k v rule: dict_set.induct) auto

lemma scan_object_own:
  assumes "\<And>i v j. scan i = Inr (v, j) \<Longrightarrow> i < j \<and> j \<le> length s \<and> own_value R v"
    "list_all (\<lambda>(k, v). own_value R v) members"
  shows "scan_object scan s members i = Inr (d, e) \<Longrightarrow> i < e \<and> e \<le> length s \<and> list_all (\<lambda>(k, v). own_value R v) d"
  using assms
proof (induction scan s members i arbitrary: d e rule: scan_object.induct)
  case (1 scan s members i)
  note eq = scan_object.simps [of scan s members i]
  from "1.prems"(1) obtain key j where q: "\<not> \<not> char_is s i c_dquote" and key: "scan_string s i (i + 1) = Inr (key, j)"
    unfolding eq by (auto split: if_splits sum.splits prod.splits)
  define k where "k = run_end json_space s j"
  from "1.prems"(1) q key obtain v l where colon: "\<not> \<not> char_is s k c_colon"
    and v: "scan (run_end json_space s (k + 1)) = Inr (v, l)"
    unfolding eq by (auto simp: Let_def k_def split: if_splits sum.splits prod.splits)
  define x where "x = run_end json_space s l"
  define members' where "members' = dict_set members key v"
  note own = "1.prems"(2) [OF v]
  have j: "i + 1 < j" using scan_string_bounds [OF key] by simp
  have "j \<le> k" "k + 1 \<le> run_end json_space s (k + 1)" "l \<le> x"
    unfolding k_def x_def by (rule run_end_ge)+
  then have ix: "i < l" "l \<le> x" using j own by linarith+
  have m: "list_all (\<lambda>(k, v). own_value R v) members'"
    unfolding members'_def using own "1.prems"(3) by (intro dict_set_own) auto
  show ?case
  proof (cases "char_is s x c_rbrace")
    case True
    with "1.prems"(1) q key colon v have "d = members'" "e = x + 1"
      unfolding eq by (simp_all add: Let_def k_def x_def members'_def)
    with ix m char_isD [OF True] show ?thesis by simp
  next
    case False
    with "1.prems"(1) q key colon v have c: "\<not> \<not> char_is s x c_comma"
      and r: "scan_object scan s members' (max (i + 1) (run_end json_space s (x + 1))) = Inr (d, e)"
      unfolding eq by (auto simp: Let_def k_def x_def members'_def split: if_splits)
    from "1.IH" [OF q key refl k_def colon v refl x_def members'_def False c r "1.prems"(2) m]
    show ?thesis by simp
  qed
qed

lemma scan_scalar_own:
  assumes "scan_scalar R s i = Inr (v, j)"
  shows "i < j \<and> j \<le> length s \<and> own_value R v"
  using assms match_number_own [of R s i v j] unfolding scan_scalar_def
  by (auto simp: own_float_def special_float_def dest!: starts_at_bound dest: scan_string_bounds split: if_splits sum.splits)

lemma scan_once_own: "scan_once R room s i = Inr (v, j) \<Longrightarrow> i < j \<and> j \<le> length s \<and> own_value R v"
proof (induction room arbitrary: i v j)
  case 0
  then show ?case using scan_scalar_own by (auto split: if_splits)
next
  case (Suc room)
  define k where "k = run_end json_space s (Suc i)"
  have k: "i < k" using run_end_ge [of "Suc i" json_space s] unfolding k_def by linarith
  have array: "k < e \<and> e \<le> length s \<and> list_all (own_value R) vs"
    if "scan_array (scan_once R room s) s k = Inr (vs, e)" for vs e
    using that Suc.IH by (intro scan_array_own) auto
  have object: "k < e \<and> e \<le> length s \<and> list_all (\<lambda>(k, v). own_value R v) d"
    if "scan_object (scan_once R room s) s [] k = Inr (d, e)" for d e
    using that Suc.IH by (intro scan_object_own) auto
  show ?case
    using Suc.prems k scan_scalar_own [of R s i v j]
    by (auto simp: Let_def k_def [symmetric] dest!: char_isD dest: array object split: if_splits sum.splits)
qed

text \<open>
  \<open>raw_decode\<close> ends after its start and inside the text, and what it returns is made of the
  decoder's own values.
\<close>

lemma raw_decode_own: "raw_decode R s i = Inr (v, j) \<Longrightarrow> i < j \<and> j \<le> length s \<and> own_value R v"
  unfolding raw_decode_def by (rule scan_once_own)

end
