(* ===== verification/Sanitize.thy ===== *)
theory Sanitize
  imports FreeText JsonCodec "HOL-Library.List_Lexorder"
begin

text \<open>
  The structured sanitiser of \<open>redaction.py\<close>: \<open>_Budget\<close>, \<open>_sanitize\<close>, containers, mapping
  entries, keys, sequences.

  The budget is a record passed through every call. A call that raises still leaves the
  budget as it had changed it, because the object is shared, so a computation returns a
  pair: \<open>None\<close> (it raised) or \<open>Some\<close> result, and the budget. Which exception it is does not
  matter: every handler of the module catches \<open>Exception\<close>.

  The scrubber of strings and the description of exceptions are arguments here (\<open>ctx\<close>): the
  scrubber calls the sanitiser for the JSON it finds, and the next theory ties the two
  together level by level.
\<close>

section \<open>The budget\<close>

record budget =
  b_nodes :: int
  b_scan :: int
  b_output :: int
  b_active :: "nat list"
  b_seen :: "nat list"

definition new_budget :: budget where
  "new_budget = \<lparr>b_nodes = MAX_EVENT_NODES, b_scan = MAX_EVENT_SCAN, b_output = MAX_EVENT_OUTPUT,
     b_active = [], b_seen = []\<rparr>"

type_synonym 'a run = "'a option \<times> budget"

text \<open>Continue with the result, or pass the exception on.\<close>

definition and_then :: "'a run \<Rightarrow> ('a \<Rightarrow> budget \<Rightarrow> 'b run) \<Rightarrow> 'b run" where
  "and_then m f = (case m of (None, b) \<Rightarrow> (None, b) | (Some x, b) \<Rightarrow> f x b)"

lemma and_then_simps [simp]:
  "and_then (None, b) f = (None, b)" "and_then (Some x, b) f = f x b"
  by (simp_all add: and_then_def)

lemma and_then_Some:
  "and_then m f = (Some y, b') \<longleftrightarrow> (\<exists>x b. m = (Some x, b) \<and> f x b = (Some y, b'))"
  by (cases m; cases "fst m") auto

definition exhausted :: "budget \<Rightarrow> bool" where
  "exhausted b \<longleftrightarrow> b_nodes b \<le> 0 \<or> b_output b \<le> 0"

definition charge :: "nat \<Rightarrow> bool \<Rightarrow> budget \<Rightarrow> bool \<times> budget" where
  "charge n nested b =
     (if nested then (True, b)
      else let cost = int n + int SEPARATOR_COST in
        if b_output b < cost then (False, b\<lparr>b_output := 0\<rparr>)
        else (True, b\<lparr>b_output := b_output b - cost\<rparr>))"

definition spend_node :: "budget \<Rightarrow> budget" where
  "spend_node b = b\<lparr>b_nodes := b_nodes b - 1\<rparr>"

definition spend_scan :: "nat \<Rightarrow> budget \<Rightarrow> budget" where
  "spend_scan n b = b\<lparr>b_scan := b_scan b - int n\<rparr>"

section \<open>Scalars\<close>

text \<open>\<open>_emit\<close>\<close>

definition emit :: "pystr \<Rightarrow> bool \<Rightarrow> budget \<Rightarrow> pystr \<times> budget" where
  "emit t nested b =
     (if nested then (t, b)
      else let cost = int (rendered_length t) + int SEPARATOR_COST in
        if cost \<le> b_output b then (t, b\<lparr>b_output := b_output b - cost\<rparr>)
        else let keep = nat (max 0 (b_output b - int (length TRUNCATED) - 5))
                   div (if list_all is_ascii t then 6 else 12)
             in (if 0 < keep then take keep t @ [c_space] @ TRUNCATED else TRUNCATED,
                 b\<lparr>b_output := 0\<rparr>))"

text \<open>\<open>_marker\<close>\<close>

definition emit_marker :: "pystr \<Rightarrow> bool \<Rightarrow> budget \<Rightarrow> pystr \<times> budget" where
  "emit_marker t nested b =
     (case charge (length t + 2) nested b of (ok, b') \<Rightarrow> (if ok then t else TRUNCATED, b'))"

fun bit_count :: "nat \<Rightarrow> nat" where
  "bit_count n = (if n = 0 then 0 else Suc (bit_count (n div 2)))"

declare bit_count.simps [simp del]

definition bit_length :: "int \<Rightarrow> nat" where
  "bit_length i = bit_count (nat \<bar>i\<bar>)"

definition int_too_long :: "int \<Rightarrow> pystr" where
  "int_too_long i = lit ''<int: '' @ dec_digits (bit_length i) @ lit '' bits>''"

text \<open>\<open>f"{number:032x}"\<close> in the groups of a UUID, and the other fixed renderers.\<close>

fun hex_digits :: "nat \<Rightarrow> nat \<Rightarrow> pystr" where
  "hex_digits 0 n = []"
| "hex_digits (Suc w) n = hex_digits w (n div 16) @ [let d = n mod 16 in if d < 10 then 48 + d else 87 + d]"

definition uuid_text :: "int option \<Rightarrow> pystr" where
  "uuid_text number =
     (case number of
        None \<Rightarrow> UNSUPPORTED
      | Some n \<Rightarrow>
          if \<not> (0 \<le> n \<and> n < 2 ^ 128) then UNSUPPORTED
          else let ds = hex_digits 32 (nat n) in
            slice ds 0 8 @ [c_dash] @ slice ds 8 12 @ [c_dash] @ slice ds 12 16 @ [c_dash]
              @ slice ds 16 20 @ [c_dash] @ drop 20 ds)"

definition decimal_too_long :: pystr where
  "decimal_too_long = lit ''<Decimal: too long>''"

definition decimal_text :: "nat \<Rightarrow> bool \<Rightarrow> pystr \<Rightarrow> pystr" where
  "decimal_text own_size changed t =
     (if MAX_DECIMAL_SIZE < own_size then decimal_too_long
      else if changed then decimal_too_long
      else if length t \<le> MAX_SCALAR_TEXT then t else decimal_too_long)"

definition moment_text :: "bool \<Rightarrow> pystr \<Rightarrow> pystr" where
  "moment_text plain_timezone shown = (if plain_timezone then shown else UNSUPPORTED)"

definition byte_count :: "pystr \<Rightarrow> nat \<Rightarrow> pystr" where
  "byte_count name n = [c_lt] @ name @ lit '': '' @ dec_digits n @ lit '' bytes>''"

fun fixed_text :: "fixed \<Rightarrow> pystr option" where
  "fixed_text (FUuid n) = Some (uuid_text n)"
| "fixed_text (FDecimal own_size changed t) = Some (decimal_text own_size changed t)"
| "fixed_text (FMoment plain shown) = Some (moment_text plain shown)"
| "fixed_text (FDate shown) = Some shown"
| "fixed_text (FBytes name n) = Some (byte_count name n)"
| "fixed_text FBroken = None"

section \<open>Context and heap\<close>

text \<open>
  A container of the caller: what kind it is, what \<open>len()\<close> returns (\<open>None\<close>: it raises), what
  iterating over it yields, and whether the iteration raises after that.
\<close>

datatype container_kind = Mapping | Sequence | SetLike

text \<open>Whether the type is \<open>dict\<close> itself, a tuple, or another one.\<close>

datatype container_type = ExactDict | TupleType | OtherType

record container =
  co_kind :: container_kind
  co_type :: container_type
  co_len :: "int option"
  co_entries :: "(pyval \<times> pyval) list"
  co_items :: "pyval list"
  co_fails :: bool

record ctx =
  x_rt :: pyrt
  x_heap :: "nat \<Rightarrow> container"
  x_scrub :: "pystr \<Rightarrow> budget \<Rightarrow> pystr run"
  x_describe :: "nat \<Rightarrow> budget \<Rightarrow> pystr run"
  x_nested :: bool

definition text_value :: "ctx \<Rightarrow> pystr \<Rightarrow> budget \<Rightarrow> safe run" where
  "text_value X t b =
     and_then (x_scrub X t b) (\<lambda>s b. case emit s (x_nested X) b of (e, b') \<Rightarrow> (Some (SStr e), b'))"

definition marker_value :: "ctx \<Rightarrow> pystr \<Rightarrow> budget \<Rightarrow> safe run" where
  "marker_value X t b = (case emit_marker t (x_nested X) b of (e, b') \<Rightarrow> (Some (SStr e), b'))"

definition charged :: "ctx \<Rightarrow> nat \<Rightarrow> safe \<Rightarrow> budget \<Rightarrow> safe run" where
  "charged X n v b = (case charge n (x_nested X) b of (ok, b') \<Rightarrow> (Some (if ok then v else SStr TRUNCATED), b'))"

text \<open>
  \<open>_sanitize\<close>, with the handling of containers at this depth as an argument.
\<close>

fun sanitize_value :: "ctx \<Rightarrow> (pyval \<Rightarrow> budget \<Rightarrow> safe run) \<Rightarrow> pyval \<Rightarrow> budget \<Rightarrow> safe run" where
  "sanitize_value X containers v b =
     (if exhausted b then (Some (SStr TRUNCATED), b)
      else let b = spend_node b in
        case v of
          VStr _ t \<Rightarrow> text_value X t b
        | VList _ \<Rightarrow> containers v b
        | VDict _ \<Rightarrow> containers v b
        | VRef _ \<Rightarrow> containers v b
        | VNone \<Rightarrow> charged X 5 SNone b
        | VBool x \<Rightarrow> charged X 5 (SBool x) b
        | VInt i \<Rightarrow>
            (if MAX_INT_BITS < bit_length i then marker_value X (int_too_long i) b
             else charged X (length (py_str_int i)) (SInt i) b)
        | VFloat r \<Rightarrow> charged X (length r) (SFloat r) b
        | VSecret \<Rightarrow> marker_value X REDACTED b
        | VExc e \<Rightarrow>
            and_then (x_describe X e b)
              (\<lambda>t b. case emit t (x_nested X) b of (s, b') \<Rightarrow> (Some (SStr s), b'))
        | VEnum w \<Rightarrow> sanitize_value X containers w b
        | VTimedelta r \<Rightarrow> charged X (length r) (SFloat r) b
        | VPath t \<Rightarrow> text_value X t b
        | VFixed f \<Rightarrow> (case fixed_text f of None \<Rightarrow> (None, b) | Some t \<Rightarrow> marker_value X t b)
        | VOther \<Rightarrow> marker_value X UNSUPPORTED b)"

declare sanitize_value.simps [simp del]

section \<open>Keys\<close>

definition sanitize_key :: "ctx \<Rightarrow> pyval \<Rightarrow> budget \<Rightarrow> (bool \<times> pystr) run" where
  "sanitize_key X key b =
     (case key of
        VStr _ k \<Rightarrow>
          (let affordable = int (length k) \<le> min (int MAX_STRING_LENGTH) (b_scan b);
               b1 = (if affordable then spend_scan (length k) b else b);
               sensitive = (\<not> affordable \<or> is_sensitive_key (x_rt X) k)
           in and_then (x_scrub X k b1)
                (\<lambda>scrubbed b2. case emit (take MAX_KEY_LENGTH scrubbed) (x_nested X) b2 of
                   (safe_key, b3) \<Rightarrow> (Some (sensitive \<or> is_sensitive_key (x_rt X) safe_key, safe_key), b3)))
      | _ \<Rightarrow>
          (let safe_key = (case key of
                 VNone \<Rightarrow> lit ''None''
               | VBool x \<Rightarrow> (if x then lit ''True'' else lit ''False'')
               | VInt i \<Rightarrow> (if bit_length i \<le> MAX_INT_BITS then py_str_int i else int_too_long i)
               | VFloat r \<Rightarrow> r
               | _ \<Rightarrow> UNSUPPORTED)
           in (Some (False, safe_key), snd (charge (length safe_key + 2) (x_nested X) b))))"

section \<open>Mappings\<close>

definition is_named_in :: "pyval \<Rightarrow> pystr list \<Rightarrow> bool" where
  "is_named_in key names \<longleftrightarrow>
     (case key of VStr _ k \<Rightarrow> length k \<le> MAX_KEY_LENGTH \<and> k \<in> set names | _ \<Rightarrow> False)"

text \<open>What the entries of a mapping are sanitised with.\<close>

record entry_rules =
  er_limit :: nat
  er_skip :: "pystr list"
  er_note :: "pystr option"
  er_assembled :: "pystr list"

definition more_entries :: "int \<Rightarrow> nat \<Rightarrow> pystr" where
  "more_entries n limit = py_str_int (n - int limit) @ lit '' more entries''"

text \<open>
  The loop of \<open>_sanitize_entries\<close>. \<open>left\<close> is what \<open>islice\<close> still allows; \<open>san\<close> sanitises a value
  one level deeper, \<open>assemble\<close> is \<open>_assembled_text\<close>.
\<close>

fun entries_loop ::
  "ctx \<Rightarrow> (pyval \<Rightarrow> budget \<Rightarrow> safe run) \<Rightarrow> (pyval \<Rightarrow> pystr) \<Rightarrow> entry_rules \<Rightarrow> int option \<Rightarrow> bool
    \<Rightarrow> nat \<Rightarrow> nat \<Rightarrow> (pystr \<times> safe) list \<Rightarrow> (pyval \<times> pyval) list \<Rightarrow> budget \<Rightarrow> (pystr \<times> safe) list run" where
  "entries_loop X san assemble r len fails 0 admitted result es b = (Some result, b)"
| "entries_loop X san assemble r len fails (Suc left) admitted result [] b =
     (if fails then None else Some result, b)"
| "entries_loop X san assemble r len fails (Suc left) admitted result ((key, item) # es) b =
     (if is_named_in key (er_skip r) then entries_loop X san assemble r len fails left admitted result es b
      else if er_limit r \<le> admitted then
        (if key = VStr True TRUNCATED
         then and_then (san item b) (\<lambda>v b. (Some (dict_set result TRUNCATED v), b))
         else (case er_note r of
             Some note \<Rightarrow> (Some (dict_set result TRUNCATED (SStr note)), b)
           | None \<Rightarrow> (case len of
               None \<Rightarrow> (None, b)
             | Some n \<Rightarrow> (Some (dict_set result TRUNCATED (SStr (more_entries n (er_limit r)))), b))))
      else if exhausted b then
        (Some (dict_set result TRUNCATED (SStr (lit ''event budget exhausted''))), b)
      else
        and_then (sanitize_key X key b) (\<lambda>(sensitive, safe_key) b.
          if sensitive then
            (case emit_marker REDACTED (x_nested X) (spend_node b) of
               (e, b') \<Rightarrow> entries_loop X san assemble r len fails left (Suc admitted)
                 (dict_set result safe_key (SStr e)) es b')
          else
            and_then (san (if is_named_in key (er_assembled r) then VStr True (assemble item) else item) b)
              (\<lambda>v b. entries_loop X san assemble r len fails left (Suc admitted)
                 (dict_set result safe_key v) es b)))"

definition sanitize_entries ::
  "ctx \<Rightarrow> (pyval \<Rightarrow> budget \<Rightarrow> safe run) \<Rightarrow> (pyval \<Rightarrow> pystr) \<Rightarrow> entry_rules \<Rightarrow> int option \<Rightarrow> bool
    \<Rightarrow> (pystr \<times> safe) list \<Rightarrow> (pyval \<times> pyval) list \<Rightarrow> budget \<Rightarrow> (pystr \<times> safe) list run" where
  "sanitize_entries X san assemble r len fails result es b =
     entries_loop X san assemble r len fails (er_limit r + length (remdups (er_skip r)) + 1) 0 result es b"

text \<open>The entries of a container inside a value: no field is skipped or assembled.\<close>

definition plain_rules :: entry_rules where
  "plain_rules = \<lparr>er_limit = MAX_ITEMS, er_skip = [], er_note = None, er_assembled = []\<rparr>"

section \<open>Sequences\<close>

text \<open>\<open>repr\<close> of a sanitised value, which orders the items of a set.\<close>

definition repr_char :: "pyrt \<Rightarrow> pychar \<Rightarrow> pychar \<Rightarrow> pystr" where
  "repr_char R quote c =
     (if c = quote \<or> c = c_backslash then [c_backslash, c]
      else if c = 10 then [c_backslash, 110] else if c = 13 then [c_backslash, 114]
      else if c = 9 then [c_backslash, 116]
      else if is_printable R c then [c]
      else if c < 256 then [c_backslash, 120] @ drop 2 (hex4 c)
      else if c < 65536 then [c_backslash, 117] @ hex4 c
      else [c_backslash, 85] @ hex4 (c div 65536) @ hex4 c)"

definition repr_string :: "pyrt \<Rightarrow> pystr \<Rightarrow> pystr" where
  "repr_string R s =
     (let quote = (if c_squote \<in> set s \<and> c_dquote \<notin> set s then c_dquote else c_squote)
      in quote # concat (map (repr_char R quote) s) @ [quote])"

fun repr_safe :: "pyrt \<Rightarrow> safe \<Rightarrow> pystr" where
  "repr_safe R SNone = lit ''None''"
| "repr_safe R (SBool x) = (if x then lit ''True'' else lit ''False'')"
| "repr_safe R (SInt i) = py_str_int i"
| "repr_safe R (SFloat r) = r"
| "repr_safe R (SStr s) = repr_string R s"
| "repr_safe R (SList vs) = [c_lbrack] @ py_join (lit '', '') (map (repr_safe R) vs) @ [c_rbrack]"
| "repr_safe R (SDict d) = [c_lbrace]
     @ py_join (lit '', '') (map (\<lambda>(k, v). repr_string R k @ lit '': '' @ repr_safe R v) d) @ [c_rbrace]"

definition more_items :: "int \<Rightarrow> pystr" where
  "more_items n = TRUNCATED @ [c_space] @ py_str_int (n - int MAX_ITEMS) @ lit '' more items''"

text \<open>The loop of \<open>_sanitize_sequence\<close>: the items and the note that follows them.\<close>

fun items_loop ::
  "(pyval \<Rightarrow> budget \<Rightarrow> safe run) \<Rightarrow> int option \<Rightarrow> bool \<Rightarrow> nat \<Rightarrow> pyval list \<Rightarrow> budget
    \<Rightarrow> (safe list \<times> pystr option) run" where
  "items_loop san len fails index [] b = (if fails then None else Some ([], None), b)"
| "items_loop san len fails index (item # vs) b =
     (if MAX_ITEMS \<le> index then
        (if (case item of VStr _ t \<Rightarrow> starts_at t TRUNCATED 0 | _ \<Rightarrow> False)
         then and_then (san item b) (\<lambda>v b. (Some ([v], None), b))
         else (case len of None \<Rightarrow> (None, b) | Some n \<Rightarrow> (Some ([], Some (more_items n)), b)))
      else if exhausted b then (Some ([], Some TRUNCATED), b)
      else and_then (san item b) (\<lambda>v b.
        and_then (items_loop san len fails (Suc index) vs b) (\<lambda>(ws, note) b. (Some (v # ws, note), b))))"

definition sanitize_sequence ::
  "pyrt \<Rightarrow> (pyval \<Rightarrow> budget \<Rightarrow> safe run) \<Rightarrow> bool \<Rightarrow> int option \<Rightarrow> bool \<Rightarrow> pyval list \<Rightarrow> budget \<Rightarrow> safe run" where
  "sanitize_sequence R san is_set len fails vs b =
     and_then (items_loop san len fails 0 vs b) (\<lambda>(ws, note) b.
       (Some (SList ((if is_set then sort_key (repr_safe R) ws else ws)
          @ (case note of None \<Rightarrow> [] | Some n \<Rightarrow> [SStr n]))), b))"

section \<open>Containers\<close>

text \<open>
  \<open>_sanitize_container\<close>. \<open>deeper\<close> sanitises a value one level down; there is no such level at
  \<open>MAX_DEPTH\<close>. An exception is caught here: what was read is dropped, what it cost stays
  spent, and the container no longer counts as being expanded.
\<close>

definition guarded :: "safe run \<Rightarrow> safe run" where
  "guarded m = (case m of (None, b) \<Rightarrow> (Some (SStr UNREADABLE), b) | (Some v, b) \<Rightarrow> (Some v, b))"

definition discard_active :: "nat \<Rightarrow> 'a run \<Rightarrow> 'a run" where
  "discard_active i m = (case m of (r, b) \<Rightarrow> (r, b\<lparr>b_active := removeAll i (b_active b)\<rparr>))"

definition mark_seen :: "nat \<Rightarrow> budget \<Rightarrow> budget" where
  "mark_seen i b = b\<lparr>b_seen := i # b_seen b, b_active := i # b_active b\<rparr>"

text \<open>The entries or the items, by the kind of the container.\<close>

definition expand ::
  "ctx \<Rightarrow> (pyval \<Rightarrow> budget \<Rightarrow> safe run) \<Rightarrow> container_kind \<Rightarrow> int option \<Rightarrow> bool
    \<Rightarrow> (pyval \<times> pyval) list \<Rightarrow> pyval list \<Rightarrow> budget \<Rightarrow> safe run" where
  "expand X deeper kind len fails es vs b =
     (if kind = Mapping
      then and_then (sanitize_entries X deeper (\<lambda>_. []) plain_rules len fails [] es b)
             (\<lambda>d b. (Some (SDict d), b))
      else sanitize_sequence (x_rt X) deeper (kind = SetLike) len fails vs b)"

definition sanitize_container ::
  "ctx \<Rightarrow> (pyval \<Rightarrow> budget \<Rightarrow> safe run) option \<Rightarrow> pyval \<Rightarrow> budget \<Rightarrow> safe run" where
  "sanitize_container X deeper v b =
     (case v of
        VRef i \<Rightarrow>
          (if i \<in> set (b_active b) then (Some (SStr CYCLE), b)
           else case deeper of
             None \<Rightarrow> (Some (SStr TRUNCATED), b)
           | Some san \<Rightarrow>
               (let c = x_heap X i; b1 = snd (charge SEPARATOR_COST (x_nested X) b) in
                  case co_len c of
                    None \<Rightarrow> (Some (SStr UNREADABLE), b1)
                  | Some n \<Rightarrow>
                      if n = 0 then (Some (if co_kind c = Mapping then SDict [] else SList []), b1)
                      else if i \<in> set (b_seen b1) then (Some (SStr REPEATED), b1)
                      else guarded (discard_active i
                        (expand X san (co_kind c) (Some n) (co_fails c) (co_entries c) (co_items c)
                           (mark_seen i b1)))))
      | VList vs \<Rightarrow>
          (case deeper of
             None \<Rightarrow> (Some (SStr TRUNCATED), b)
           | Some san \<Rightarrow>
               (let b1 = snd (charge SEPARATOR_COST (x_nested X) b) in
                  if vs = [] then (Some (SList []), b1)
                  else guarded (expand X san Sequence (Some (int (length vs))) False [] vs b1)))
      | VDict d \<Rightarrow>
          (case deeper of
             None \<Rightarrow> (Some (SStr TRUNCATED), b)
           | Some san \<Rightarrow>
               (let b1 = snd (charge SEPARATOR_COST (x_nested X) b) in
                  if d = [] then (Some (SDict []), b1)
                  else guarded (expand X san Mapping (Some (int (length d))) False
                    (map (\<lambda>(k, w). (VStr True k, w)) d) [] b1)))
      | _ \<Rightarrow> (None, b))"

text \<open>\<open>_sanitize\<close> with \<open>MAX_DEPTH - depth\<close> levels left.\<close>

primrec sanitize_within :: "ctx \<Rightarrow> nat \<Rightarrow> pyval \<Rightarrow> budget \<Rightarrow> safe run" where
  "sanitize_within X 0 = sanitize_value X (sanitize_container X None)"
| "sanitize_within X (Suc d) = sanitize_value X (sanitize_container X (Some (sanitize_within X d)))"

definition sanitize_at :: "ctx \<Rightarrow> nat \<Rightarrow> pyval \<Rightarrow> budget \<Rightarrow> safe run" where
  "sanitize_at X depth v b = sanitize_within X (MAX_DEPTH - depth) v b"

section \<open>Fields laid out as one text\<close>

text \<open>
  \<open>_collect_fragments\<close>: the fragments in order, and the characters and values left; \<open>None\<close>
  when reading the value raised. The number is again the levels left.
\<close>

type_synonym gathered = "pystr list \<times> int \<times> int"

definition gather_text :: "pystr \<Rightarrow> gathered \<Rightarrow> gathered" where
  "gather_text t g = (case g of (fs, chars, vals) \<Rightarrow>
     (let w = take (nat chars) t in
        (fs @ [py_removesuffix w [c_nl]], chars - (int (length w) + 1), vals - 1)))"

definition gather_marker :: "gathered \<Rightarrow> gathered" where
  "gather_marker g = (case g of (fs, chars, vals) \<Rightarrow>
     (fs @ [UNSUPPORTED], chars - (int (length UNSUPPORTED) + 1), vals - 1))"

text \<open>\<open>islice(value, MAX_ITEMS)\<close>, then the exception of the iteration if it is reached.\<close>

definition gather_items ::
  "(pyval \<Rightarrow> gathered \<Rightarrow> gathered option) \<Rightarrow> bool \<Rightarrow> pyval list \<Rightarrow> gathered \<Rightarrow> gathered option" where
  "gather_items one fails vs g =
     (case foldl (\<lambda>acc v. case acc of None \<Rightarrow> None | Some g \<Rightarrow> one v g) (Some g) (take MAX_ITEMS vs) of
        None \<Rightarrow> None
      | Some g' \<Rightarrow> if fails \<and> length vs < MAX_ITEMS then None else Some g')"

definition room_left :: "gathered \<Rightarrow> bool" where
  "room_left g = (case g of (fs, chars, vals) \<Rightarrow> 0 < chars \<and> 0 < vals)"

definition spend_value :: "gathered \<Rightarrow> gathered" where
  "spend_value g = (case g of (fs, chars, vals) \<Rightarrow> (fs, chars, vals - 1))"

definition collect_one ::
  "(nat \<Rightarrow> container) \<Rightarrow> (pyval \<Rightarrow> gathered \<Rightarrow> gathered option) option \<Rightarrow> pyval \<Rightarrow> gathered \<Rightarrow> gathered option" where
  "collect_one H deeper v g =
     (if \<not> room_left g then Some g
      else case v of
        VStr _ t \<Rightarrow> Some (gather_text t g)
      | VRef i \<Rightarrow>
          (case deeper of
             Some one \<Rightarrow>
               (if co_kind (H i) = Sequence
                then gather_items one (co_fails (H i)) (co_items (H i)) (spend_value g)
                else Some (gather_marker g))
           | None \<Rightarrow> Some (gather_marker g))
      | VList vs \<Rightarrow>
          (case deeper of
             Some one \<Rightarrow> gather_items one False vs (spend_value g)
           | None \<Rightarrow> Some (gather_marker g))
      | _ \<Rightarrow> Some (gather_marker g))"

primrec collect_fragments :: "(nat \<Rightarrow> container) \<Rightarrow> nat \<Rightarrow> pyval \<Rightarrow> gathered \<Rightarrow> gathered option" where
  "collect_fragments H 0 = collect_one H None"
| "collect_fragments H (Suc d) = collect_one H (Some (collect_fragments H d))"

definition assembled_text :: "(nat \<Rightarrow> container) \<Rightarrow> pyval \<Rightarrow> pystr" where
  "assembled_text H v =
     (case v of
        VStr True t \<Rightarrow> t
      | _ \<Rightarrow> (case collect_fragments H MAX_DEPTH v ([], int MAX_STRING_LENGTH + 1, int MAX_ITEMS) of
          None \<Rightarrow> UNREADABLE
        | Some (fs, chars, vals) \<Rightarrow> py_join [c_nl] (if vals \<le> 0 then fs @ [TRUNCATED] else fs)))"

section \<open>Events\<close>

text \<open>\<open>event.get(key, _ABSENT)\<close> of a mapping of the caller.\<close>

fun event_get :: "(pyval \<times> pyval) list \<Rightarrow> pystr \<Rightarrow> pyval option" where
  "event_get [] k = None"
| "event_get ((key, v) # es) k = (case key of
     VStr _ k' \<Rightarrow> if k' = k then Some v else event_get es k
   | _ \<Rightarrow> event_get es k)"

definition sanitize_field :: "ctx \<Rightarrow> pystr list \<Rightarrow> pystr \<Rightarrow> pyval \<Rightarrow> budget \<Rightarrow> safe run" where
  "sanitize_field X assembled key v b =
     sanitize_at X 1 (if key \<in> set assembled then VStr True (assembled_text (x_heap X) v) else v) b"

fun leading_fields ::
  "ctx \<Rightarrow> pystr list \<Rightarrow> (pyval \<times> pyval) list \<Rightarrow> (pystr \<times> safe) list \<Rightarrow> pystr list \<Rightarrow> budget
    \<Rightarrow> (pystr \<times> safe) list run" where
  "leading_fields X assembled es result [] b = (Some result, b)"
| "leading_fields X assembled es result (k # ks) b =
     (case event_get es k of
        None \<Rightarrow> leading_fields X assembled es result ks b
      | Some v \<Rightarrow> and_then (sanitize_field X assembled k v b)
          (\<lambda>w b. leading_fields X assembled es (dict_set result k w) ks b))"

definition event_rules :: "pystr list \<Rightarrow> pystr list \<Rightarrow> pystr list \<Rightarrow> entry_rules" where
  "event_rules skip leading assembled =
     \<lparr>er_limit = MAX_EVENT_FIELDS, er_skip = skip @ leading,
      er_note = Some (lit ''event field limit reached''), er_assembled = assembled\<rparr>"

definition sanitize_event_with ::
  "ctx \<Rightarrow> container \<Rightarrow> pystr list \<Rightarrow> pystr list \<Rightarrow> pystr list \<Rightarrow> budget \<Rightarrow> (pystr \<times> safe) list run" where
  "sanitize_event_with X event skip leading assembled b =
     and_then (leading_fields X assembled (co_entries event) [] leading b) (\<lambda>result b.
       sanitize_entries X (sanitize_at X 1) (assembled_text (x_heap X))
         (event_rules skip leading assembled) (co_len event) (co_fails event) result (co_entries event) b)"

end
