(* ===== verification/AlembicGenerator.thy ===== *)
theory AlembicGenerator
  imports AlembicPackage Sanitize
begin

text \<open>
  \<open>gen_revisions.py\<close>, the generator of the Alembic package: the text it writes for each SQL file,
  compared with the text of the modules that are in the repository.
\<close>

section \<open>Texts of lines\<close>

definition unlines :: "pystr list \<Rightarrow> pystr" where
  "unlines ls = concat (map (\<lambda>l. l @ [c_nl]) ls)"


section \<open>The template\<close>

text \<open>The lines before and behind the body of \<open>upgrade\<close>.\<close>

definition template_head :: "pystr \<Rightarrow> pystr \<Rightarrow> pystr \<Rightarrow> pystr \<Rightarrow> pystr \<Rightarrow> pystr list" where
  "template_head filename revision filename_repr revision_repr down_revision_repr =
     [[c_dquote, c_dquote, c_dquote] @ lit ''Phase 5K '' @ [8212] @ lit '' wraps frozen migration '' @ filename @ lit ''.'',
      [],
      lit ''This revision does not define schema itself. It executes the frozen,'',
      lit ''canonical SQL file 5K/migrations/'' @ filename @ lit '' verbatim via'',
      lit ''op.get_bind().exec_driver_sql(). Do not add DDL here; edit is'',
      lit ''forbidden on the .sql file (frozen) and adding parallel DDL here would'',
      lit ''create a second, competing schema history '' @ [8212] @ lit '' see 5K/alembic/README.md.'',
      [],
      lit ''Revision ID: '' @ revision,
      lit ''Revises: '' @ down_revision_repr,
      [c_dquote, c_dquote, c_dquote],
      lit ''from __future__ import annotations'',
      [],
      lit ''from typing import Sequence, Union'',
      [],
      lit ''from _frozen_sql import run_frozen_sql'',
      [],
      lit ''# revision identifiers, used by Alembic.'',
      lit ''revision: str = '' @ revision_repr,
      lit ''down_revision: Union[str, None] = '' @ down_revision_repr,
      lit ''branch_labels: Union[str, Sequence[str], None] = None'',
      lit ''depends_on: Union[str, Sequence[str], None] = None'',
      [],
      lit ''SQL_FILE = '' @ filename_repr,
      [],
      [],
      lit ''def upgrade() -> None:'']"

definition template_tail :: "pystr \<Rightarrow> pystr \<Rightarrow> pystr list" where
  "template_tail filename revision =
     [[],
      [],
      lit ''def downgrade() -> None:'',
      lit ''    raise NotImplementedError('',
      lit ''        '' @ [c_dquote] @ lit ''Migration '' @ revision @ lit '' is part of the frozen, forward-only 5K SQL '' @ [c_dquote],
      lit ''        '' @ [c_dquote] @ lit ''package (5K/migrations/'' @ filename @ lit ''). No rollback DDL exists for '' @ [c_dquote],
      lit ''        '' @ [c_dquote] @ lit ''it and none is authored here, to avoid creating schema changes '' @ [c_dquote],
      lit ''        '' @ [c_dquote] @ lit ''outside the canonical migration files. To revert, restore from '' @ [c_dquote],
      lit ''        '' @ [c_dquote] @ lit ''a database backup taken before this revision was applied.'' @ [c_dquote],
      lit ''    )'']"

text \<open>\<open>TEMPLATE.format(...)\<close>: the body stands on a line of its own.\<close>

definition TEMPLATE :: "pystr \<Rightarrow> pystr \<Rightarrow> pystr \<Rightarrow> pystr \<Rightarrow> pystr \<Rightarrow> pystr \<Rightarrow> pystr" where
  "TEMPLATE filename revision filename_repr revision_repr down_revision_repr upgrade_body =
     unlines (template_head filename revision filename_repr revision_repr down_revision_repr @ [upgrade_body]
       @ template_tail filename revision)"

definition AUTOCOMMIT_TEMPLATE :: pystr where
  "AUTOCOMMIT_TEMPLATE = unlines [lit ''    with op.get_context().autocommit_block():'', lit ''        run_frozen_sql(SQL_FILE)'']"

definition NORMAL_TEMPLATE :: pystr where
  "NORMAL_TEMPLATE = unlines [lit ''    run_frozen_sql(SQL_FILE)'']"

definition AUTOCOMMIT_REVISIONS :: "pystr list" where
  "AUTOCOMMIT_REVISIONS = []"

section \<open>The generator\<close>

text \<open>\<open>t.replace(old, new)\<close> for a non-empty \<open>old\<close>\<close>

definition py_replace :: "pystr \<Rightarrow> pystr \<Rightarrow> pystr \<Rightarrow> pystr" where
  "py_replace t old new = py_join new (py_split t old)"

definition generated_text :: "pyrt \<Rightarrow> pystr option \<Rightarrow> pystr \<Rightarrow> pystr" where
  "generated_text R prev_stem fname =
     (let stem = take (length fname - 4) fname;
          down_repr = (case prev_stem of None \<Rightarrow> lit ''None'' | Some p \<Rightarrow> repr_string R p);
          body = (if stem \<in> set AUTOCOMMIT_REVISIONS then AUTOCOMMIT_TEMPLATE else NORMAL_TEMPLATE);
          content = TEMPLATE fname stem (repr_string R fname) (repr_string R stem) down_repr body
      in if stem \<in> set AUTOCOMMIT_REVISIONS
         then py_replace content (lit ''from _frozen_sql import run_frozen_sql'')
           (lit ''from alembic import op'' @ [c_nl, c_nl] @ lit ''from _frozen_sql import run_frozen_sql'')
         else content)"

text \<open>The files that are written, with their texts, for the SQL files in order.\<close>

fun generate_from :: "pyrt \<Rightarrow> pystr option \<Rightarrow> pystr list \<Rightarrow> (pystr \<times> pystr) list" where
  "generate_from R prev_stem [] = []"
| "generate_from R prev_stem (fname # fnames) =
     (let stem = take (length fname - 4) fname
      in (stem @ lit ''.py'', generated_text R prev_stem fname) # generate_from R (Some stem) fnames)"


section \<open>The modules of the repository\<close>

text \<open>
  The text of the files \<open>versions/001_5B.py\<close> to \<open>versions/075_5J.py\<close>, which differ only in the
  identifier and its predecessor. (The later modules are not the generator's.)
\<close>

definition version_text :: "pystr \<Rightarrow> pystr option \<Rightarrow> pystr" where
  "version_text stem down =
     (let quoted = (\<lambda>s. [c_squote] @ s @ [c_squote]);
          down_repr = (case down of None \<Rightarrow> lit ''None'' | Some p \<Rightarrow> quoted p);
          filename = stem @ lit ''.sql''
      in unlines (template_head filename stem (quoted filename) (quoted stem) down_repr
           @ [lit ''    run_frozen_sql(SQL_FILE)''] @ template_tail filename stem))"

definition down_revision_of :: "'a version_file_scheme \<Rightarrow> pystr option" where
  "down_revision_of m =
     (case module_constants (vf_body m) \<lparr>k_revision = None, k_down_revision = None, k_sql_file = None\<rparr> of
        Inr k \<Rightarrow> (case k_down_revision k of Some (LitStr d) \<Rightarrow> Some d | _ \<Rightarrow> None)
      | Inl e \<Rightarrow> None)"

definition module_text :: "'a version_file_scheme \<Rightarrow> pystr" where
  "module_text m = version_text (vf_stem m) (down_revision_of m)"


lemma module_text_truncate [simp]: "module_text (version_file.truncate m) = module_text m"
  "vf_name (version_file.truncate m) = vf_name m"
  by (simp_all add: module_text_def down_revision_of_def version_file.truncate_def)









lemma generate_from_sql_names:
  "generate_from R p (map sql_name ids) =
     map2 (\<lambda>i p. (i @ lit ''.py'', generated_text R p (sql_name i))) ids (p # map Some (butlast ids))"
  by (induction ids arbitrary: p) (auto simp: sql_name_def Let_def)








end
