(* ===== verification/SanitizeBounds.thy ===== *)
theory SanitizeBounds
  imports Sanitize "HOL-Library.Multiset"
begin

text \<open>
  What the structured sanitiser keeps of the budget and of the shape of its output.

  \<open>sanitizer\<close> is the contract between the sanitiser and the two services it uses, the
  scrubber of strings and the description of exceptions: neither gives budget back, neither
  touches the set of containers being expanded, and the node allowance may fall below zero
  by at most \<open>slack\<close>. Under that contract every value the sanitiser returns has bounded
  depth, width and size.
\<close>

lemma sum_list_sort_key:
  fixes g :: "'a \<Rightarrow> nat" and f :: "'a \<Rightarrow> 'b::linorder"
  shows "sum_list (map g (sort_key f xs)) = sum_list (map g xs)"
proof -
  have "mset (map g (sort_key f xs)) = mset (map g xs)" by simp
  then show ?thesis by (simp only: flip: sum_mset_sum_list)
qed

section \<open>Spending\<close>

definition spends :: "nat \<Rightarrow> budget \<Rightarrow> budget \<Rightarrow> bool" where
  "spends slack b b' \<longleftrightarrow>
     b_nodes b' \<le> b_nodes b \<and> min (b_nodes b) (- int slack) \<le> b_nodes b' \<and> b_scan b' \<le> b_scan b
     \<and> b_output b' \<le> max 0 (b_output b) \<and> (0 \<le> b_output b \<longrightarrow> 0 \<le> b_output b')
     \<and> b_active b' = b_active b \<and> set (b_seen b) \<subseteq> set (b_seen b')"

definition run_spends :: "nat \<Rightarrow> budget \<Rightarrow> 'a run \<Rightarrow> bool" where
  "run_spends slack b m \<longleftrightarrow> spends slack b (snd m)"

lemma spends_refl [simp]: "spends s b b"
  by (simp add: spends_def)

lemma spends_trans: "spends s b b' \<Longrightarrow> spends s b' b'' \<Longrightarrow> spends s b b''"
  unfolding spends_def by (auto simp: min_def split: if_splits)

lemma spends_slack: "spends s b b' \<Longrightarrow> s \<le> s' \<Longrightarrow> spends s' b b'"
  unfolding spends_def by (auto simp: min_def split: if_splits)

lemma spends_exhausted: "spends s b b' \<Longrightarrow> exhausted b \<Longrightarrow> exhausted b'"
  by (auto simp: spends_def exhausted_def)

lemma spends_nodes: "spends s b b' \<Longrightarrow> b_nodes b' \<le> b_nodes b"
  by (simp add: spends_def)

lemma run_spends_pair [simp]: "run_spends s b (r, b') \<longleftrightarrow> spends s b b'"
  by (simp add: run_spends_def)

lemma run_spends_trans: "spends s b b' \<Longrightarrow> run_spends s b' m \<Longrightarrow> run_spends s b m"
  unfolding run_spends_def by (rule spends_trans)

lemma run_spends_and_then:
  assumes "run_spends s b m" "\<And>x b'. m = (Some x, b') \<Longrightarrow> run_spends s b' (f x b')"
  shows "run_spends s b (and_then m f)"
proof (cases m)
  case (Pair r b')
  then show ?thesis using assms by (cases r) (auto intro: run_spends_trans)
qed

lemma charge_spends: "spends s b (snd (charge n x b))"
  by (auto simp: charge_def spends_def Let_def)

lemma emit_spends: "spends s b (snd (emit t x b))"
  by (auto simp: emit_def spends_def Let_def)

lemma emit_marker_spends: "spends s b (snd (emit_marker t x b))"
  using charge_spends [of s b "length t + 2" x] by (auto simp: emit_marker_def split: prod.splits)

lemma spend_scan_spends: "spends s b (spend_scan n b)"
  by (simp add: spend_scan_def spends_def)

lemma spend_node_spends: "- int s < b_nodes b \<Longrightarrow> spends s b (spend_node b)"
  by (simp add: spend_node_def spends_def)

lemmas spending = charge_spends emit_spends emit_marker_spends spend_scan_spends

lemma charge_nodes [simp]: "b_nodes (snd (charge n x b)) = b_nodes b"
  by (simp add: charge_def Let_def)

lemma emit_nodes [simp]: "b_nodes (snd (emit t x b)) = b_nodes b"
  by (simp add: emit_def Let_def)

lemma emit_marker_nodes [simp]: "b_nodes (snd (emit_marker t x b)) = b_nodes b"
  by (simp add: emit_marker_def split_beta)

lemma spend_node_nodes [simp]: "b_nodes (spend_node b) = b_nodes b - 1"
  by (simp add: spend_node_def)

section \<open>Shapes\<close>

text \<open>The number of values in an output, and its shape with \<open>d\<close> levels of containers allowed.\<close>

fun safe_size :: "safe \<Rightarrow> nat" where
  "safe_size (SList vs) = Suc (sum_list (map safe_size vs))"
| "safe_size (SDict d) = Suc (sum_list (map (\<lambda>(k, v). safe_size v) d))"
| "safe_size _ = 1"

fun bounded :: "nat \<Rightarrow> safe \<Rightarrow> bool" where
  "bounded d (SInt i) \<longleftrightarrow> bit_length i \<le> MAX_INT_BITS"
| "bounded 0 (SList vs) \<longleftrightarrow> False"
| "bounded 0 (SDict es) \<longleftrightarrow> False"
| "bounded (Suc d) (SList vs) \<longleftrightarrow> length vs \<le> MAX_ITEMS + 1 \<and> list_all (bounded d) vs"
| "bounded (Suc d) (SDict es) \<longleftrightarrow>
     length es \<le> MAX_ITEMS + 1 \<and> distinct (map fst es) \<and> list_all (\<lambda>(k, v). bounded d v) es"
| "bounded d _ \<longleftrightarrow> True"

definition entries_size :: "(pystr \<times> safe) list \<Rightarrow> nat" where
  "entries_size d = sum_list (map (\<lambda>(k, v). safe_size v) d)"

definition entries_ok :: "nat \<Rightarrow> (pystr \<times> safe) list \<Rightarrow> bool" where
  "entries_ok d es \<longleftrightarrow> distinct (map fst es) \<and> list_all (\<lambda>(k, v). bounded d v) es"

lemma bounded_mono: "bounded d v \<Longrightarrow> d \<le> d' \<Longrightarrow> bounded d' v"
proof (induction d v arbitrary: d' rule: bounded.induct)
  case (4 d vs)
  then show ?case by (cases d') (auto simp: list_all_iff)
next
  case (5 d es)
  then show ?case by (cases d') (auto simp: list_all_iff)
qed auto

lemma bounded_text [simp]: "bounded d (SStr s)" "bounded d SNone" "bounded d (SBool x)" "bounded d (SFloat r)"
  by (cases d; simp)+

lemma bounded_int [simp]: "bounded d (SInt i) \<longleftrightarrow> bit_length i \<le> MAX_INT_BITS"
  by (cases d) auto

lemma entries_size_set: "entries_size (dict_set d k v) \<le> entries_size d + safe_size v"
  by (induction d k v rule: dict_set.induct) (auto simp: entries_size_def)

lemma entries_ok_set: "entries_ok d es \<Longrightarrow> bounded d v \<Longrightarrow> entries_ok d (dict_set es k v)"
  by (auto simp: entries_ok_def dict_set_distinct)
    (induction es k v rule: dict_set.induct; auto simp: list_all_iff split: if_splits)+

lemma length_dict_set: "length (dict_set d k v) \<le> Suc (length d)"
  by (induction d k v rule: dict_set.induct) auto

text \<open>
  What a run that sanitises one value promises: it spends, its result is bounded, and it has
  at most three values for each node spent, or is a single marker when nothing was left.
\<close>

definition good :: "nat \<Rightarrow> nat \<Rightarrow> budget \<Rightarrow> safe run \<Rightarrow> bool" where
  "good slack d b m \<longleftrightarrow> run_spends slack b m \<and>
     (\<forall>w b'. m = (Some w, b') \<longrightarrow> bounded d w \<and>
        int (safe_size w) \<le> (if exhausted b then 1 else 3 * (b_nodes b - b_nodes b')))"

lemma good_size: "good s d b (Some w, b') \<Longrightarrow> int (safe_size w) \<le> 3 * (b_nodes b - b_nodes b') + 1"
  by (auto simp: good_def dest: spends_nodes split: if_splits)

text \<open>The same for a run that starts after its node has been spent.\<close>

definition paid :: "nat \<Rightarrow> nat \<Rightarrow> budget \<Rightarrow> safe run \<Rightarrow> bool" where
  "paid slack d b m \<longleftrightarrow> run_spends slack b m \<and>
     (\<forall>w b'. m = (Some w, b') \<longrightarrow> bounded d w \<and> int (safe_size w) \<le> 3 * (b_nodes b - b_nodes b') + 3)"

lemma good_if_paid:
  assumes "\<not> exhausted b" "paid s d (spend_node b) m"
  shows "good s d b m"
proof -
  have "spends s b (spend_node b)" using assms(1) by (intro spend_node_spends) (simp add: exhausted_def)
  then show ?thesis using assms by (auto simp: good_def paid_def intro: run_spends_trans)
qed

lemma paid_if_good: "good s d b m \<Longrightarrow> paid s d b m"
  unfolding paid_def using good_size by (fastforce simp: good_def)

lemma paid_atom:
  assumes "run_spends s b m" "\<And>w b'. m = (Some w, b') \<Longrightarrow> bounded d w \<and> safe_size w = 1"
  shows "paid s d b m"
  unfolding paid_def
proof (intro conjI allI impI)
  fix w b' assume m: "m = (Some w, b')"
  with assms(1) have "b_nodes b' \<le> b_nodes b" by (simp add: spends_nodes)
  with assms(2) [OF m] show "bounded d w" "int (safe_size w) \<le> 3 * (b_nodes b - b_nodes b') + 3" by simp_all
qed (rule assms(1))

lemma good_exhausted: "exhausted b \<Longrightarrow> good s d b (Some (SStr TRUNCATED), b)"
  by (simp add: good_def)

lemma charged_paid: "bounded d v \<Longrightarrow> safe_size v = 1 \<Longrightarrow> paid s d b (charged X n v b)"
  using charge_spends [of s b n "x_nested X"]
  by (intro paid_atom) (auto simp: charged_def split_beta split: if_splits)

lemma marker_paid: "paid s d b (marker_value X t b)"
  using emit_marker_spends [of s b t "x_nested X"]
  by (intro paid_atom) (auto simp: marker_value_def split: prod.splits)

lemma emitted_paid:
  assumes "run_spends s b m"
  shows "paid s d b (and_then m (\<lambda>t b. case emit t x b of (e, b') \<Rightarrow> (Some (SStr e), b')))"
proof (rule paid_atom)
  show "run_spends s b (and_then m (\<lambda>t b. case emit t x b of (e, b') \<Rightarrow> (Some (SStr e), b')))"
    using assms emit_spends by (intro run_spends_and_then) (auto simp: run_spends_def split_beta)
qed (auto simp: and_then_Some split_beta)

section \<open>The contract and its consequences\<close>

locale sanitizer =
  fixes X :: ctx and slack :: nat
  assumes scrub_spends: "run_spends slack b (x_scrub X t b)"
    and describe_spends: "run_spends slack b (x_describe X e b)"
begin

lemma slack_S: "run_spends slack b m \<Longrightarrow> run_spends (Suc slack) b m"
  by (auto simp: run_spends_def intro: spends_slack)

lemma text_value_paid: "paid (Suc slack) d b (text_value X t b)"
  unfolding text_value_def by (rule emitted_paid [OF slack_S [OF scrub_spends]])

lemma described_paid:
  "paid (Suc slack) d b (and_then (x_describe X e b) (\<lambda>t b. case emit t x b of (s, b') \<Rightarrow> (Some (SStr s), b')))"
  by (rule emitted_paid [OF slack_S [OF describe_spends]])

lemma sanitize_value_good:
  assumes "\<And>v b. paid (Suc slack) d b (containers v b)"
  shows "good (Suc slack) d b (sanitize_value X containers v b)"
proof (induction v arbitrary: b)
  case (VEnum w)
  show ?case
    using good_if_paid [OF _ paid_if_good [OF VEnum.IH]] good_exhausted
    by (simp add: sanitize_value.simps [of _ _ "VEnum w"] Let_def)
next
  case (VInt i)
  show ?case
    by (cases "exhausted b") (auto simp: sanitize_value.simps [of _ _ "VInt i"] good_exhausted Let_def
        intro!: good_if_paid marker_paid charged_paid)
next
  case (VFixed r)
  have "paid (Suc slack) d b (None, b)" for b by (rule paid_atom) auto
  then show ?case
    by (simp add: sanitize_value.simps Let_def good_exhausted)
      (auto intro!: good_if_paid marker_paid split: option.split)
qed (simp add: sanitize_value.simps good_exhausted Let_def,
     intro impI good_if_paid; auto intro!: text_value_paid marker_paid charged_paid described_paid assms)+

lemma sanitize_key_spends: "run_spends slack b (sanitize_key X key b)"
proof -
  have "run_spends slack b (Some r, snd (charge n x b))" for r :: "bool \<times> pystr" and n x b
    by (simp add: charge_spends)
  moreover have "run_spends slack b
      (and_then (x_scrub X k b1) (\<lambda>scrubbed b2. case emit (take MAX_KEY_LENGTH scrubbed) (x_nested X) b2 of
         (safe_key, b3) \<Rightarrow> (Some (f safe_key :: bool, safe_key), b3)))" if "spends slack b b1" for k b1 f
    using emit_spends
    by (intro run_spends_trans [OF that] run_spends_and_then [OF scrub_spends]) (simp add: split_beta)
  ultimately show ?thesis
    unfolding sanitize_key_def Let_def by (auto simp: spend_scan_spends split: pyval.splits)
qed

text \<open>The loops. \<open>good_item\<close> is what is known of the sanitiser one level down.\<close>

lemma items_loop_good:
  assumes good_item: "\<And>v b. good (Suc slack) d b (san v b)" and "index \<le> MAX_ITEMS"
  shows "run_spends (Suc slack) b (items_loop san len fails index vs b) \<and>
    (\<forall>ws nt b'. items_loop san len fails index vs b = (Some (ws, nt), b') \<longrightarrow>
       list_all (bounded d) ws
       \<and> length ws + (if nt = None then 0 else 1) + index \<le> MAX_ITEMS + 1
       \<and> int (sum_list (map safe_size ws)) + (if nt = None then 0 else 1) \<le> 3 * (b_nodes b - b_nodes b') + 1)"
  using assms(2)
proof (induction vs arbitrary: index b)
  case Nil
  then show ?case by simp
next
  case (Cons item vs)
  note item = good_item [of b item]
  have spends_item: "run_spends (Suc slack) b (san item b)" using item by (simp add: good_def)
  consider (beyond) "MAX_ITEMS \<le> index" | (spent) "index < MAX_ITEMS" "exhausted b"
    | (more) "index < MAX_ITEMS" "\<not> exhausted b" by linarith
  then show ?case
  proof cases
    case beyond
    have "bounded d w \<and> int (safe_size w) \<le> 3 * (b_nodes b - b_nodes b') + 1"
      if "san item b = (Some w, b')" for w b'
      using item that good_size [of "Suc slack" d b w b'] by (simp add: good_def)
    moreover have "run_spends (Suc slack) b (and_then (san item b) (\<lambda>v b. (Some ([v], None :: pystr option), b)))"
      using spends_item by (auto intro: run_spends_and_then)
    ultimately show ?thesis
      using beyond Cons.prems by (auto simp: and_then_Some split: option.splits pyval.splits)
  next
    case spent
    then show ?thesis by simp
  next
    case more
    have step: "run_spends (Suc slack) b1 (items_loop san len fails (Suc index) vs b1)" for b1
      using Cons.IH [of "Suc index" b1] more by simp
    have "run_spends (Suc slack) b (items_loop san len fails index (item # vs) b)"
      using more by (auto intro!: run_spends_and_then [OF spends_item] run_spends_and_then [OF step])
    moreover have "list_all (bounded d) ws
       \<and> length ws + (if nt = None then 0 else 1) + index \<le> MAX_ITEMS + 1
       \<and> int (sum_list (map safe_size ws)) + (if nt = None then 0 else 1) \<le> 3 * (b_nodes b - b_nodes b') + 1"
      if r: "items_loop san len fails index (item # vs) b = (Some (ws, nt), b')" for ws nt b'
    proof -
      from r more obtain v b1 us where v: "san item b = (Some v, b1)"
        and us: "items_loop san len fails (Suc index) vs b1 = (Some (us, nt), b')" and ws: "ws = v # us"
        by (auto simp: and_then_Some)
      have "bounded d v" "int (safe_size v) \<le> 3 * (b_nodes b - b_nodes b1)"
        using item v more by (simp_all add: good_def)
      with Cons.IH [of "Suc index" b1] us more show ?thesis unfolding ws by auto
    qed
    ultimately show ?thesis by blast
  qed
qed

text \<open>The entries: \<open>Suc\<close> of the limit leaves room for the one marker.\<close>

lemma sensitive_spends:
  assumes "\<not> exhausted b" "sanitize_key X key b = (r, b1)"
  shows "spends (Suc slack) b1 (snd (emit_marker t x (spend_node b1)))"
proof -
  have "- int (Suc slack) < b_nodes b1"
    using sanitize_key_spends [of b key] assms by (auto simp: spends_def exhausted_def min_def split: if_splits)
  then show ?thesis by (rule spends_trans [OF spend_node_spends emit_marker_spends])
qed

lemma set_fits:
  assumes "entries_ok d result" "bounded d v" "int (safe_size v) \<le> n"
  shows "entries_ok d (dict_set result k v)" "length (dict_set result k v) \<le> Suc (length result)"
    "int (entries_size (dict_set result k v)) \<le> int (entries_size result) + n"
  using entries_ok_set [OF assms(1,2)] entries_size_set [of result k v] length_dict_set [of result k v] assms(3)
  by simp_all

lemma entries_loop_good:
  assumes good_item: "\<And>v b. good (Suc slack) d b (san v b)"
    and "admitted \<le> er_limit r" "entries_ok d result"
  shows "run_spends (Suc slack) b (entries_loop X san assemble r len fails left admitted result es b) \<and>
    (\<forall>d' b'. entries_loop X san assemble r len fails left admitted result es b = (Some d', b') \<longrightarrow>
       entries_ok d d' \<and> length d' + admitted \<le> length result + er_limit r + 1
       \<and> int (entries_size d') \<le> int (entries_size result) + 3 * (b_nodes b - b_nodes b')
           + (if exhausted b then 1 else 2))"
  using assms(2,3)
proof (induction es arbitrary: left admitted result b)
  case Nil
  then show ?case by (cases left) auto
next
  case (Cons e es)
  obtain key item where e: "e = (key, item)" by fastforce
  show ?case
  proof (cases left)
    case 0
    with Cons.prems show ?thesis by simp
  next
    case (Suc l)
    have run_item: "run_spends (Suc slack) b (san v b)" for v b using good_item [of b v] by (simp add: good_def)
    have item_ok: "bounded d w \<and> int (safe_size w) \<le> 3 * (b_nodes b - b_nodes b') + 1"
      if "san v b = (Some w, b')" for v b w b'
      using good_item [of b v] that good_size [of "Suc slack" d b w b'] by (simp add: good_def)
    note fits = set_fits [OF Cons.prems(2)]
    have marker: "entries_ok d (dict_set result k (SStr w))" "length (dict_set result k (SStr w)) \<le> Suc (length result)"
        "int (entries_size (dict_set result k (SStr w))) \<le> int (entries_size result) + 1"
        "int (entries_size (dict_set result k (SStr w))) \<le> int (entries_size result) + 2" for k w
      using fits [of "SStr w" 1 k] fits [of "SStr w" 2 k] by simp_all
    consider (skipped) "is_named_in key (er_skip r)"
      | (beyond) "\<not> is_named_in key (er_skip r)" "er_limit r \<le> admitted"
      | (spent) "\<not> is_named_in key (er_skip r)" "admitted < er_limit r" "exhausted b"
      | (more) "\<not> is_named_in key (er_skip r)" "admitted < er_limit r" "\<not> exhausted b" by linarith
    then show ?thesis
    proof cases
      case skipped
      with Cons.IH [of admitted result b l] Cons.prems show ?thesis by (simp add: e Suc)
    next
      case beyond
      show ?thesis
      proof (cases "key = VStr True TRUNCATED")
        case True
        have "run_spends (Suc slack) b (and_then (san item b) (\<lambda>v b. (Some (dict_set result TRUNCATED v), b)))"
          by (auto intro: run_spends_and_then [OF run_item])
        moreover have "bounded d v" "int (safe_size v) \<le> 3 * (b_nodes b - b_nodes b') + (if exhausted b then 1 else 2)"
          if "san item b = (Some v, b')" for v b'
          using good_item [of b item] that spends_nodes [of "Suc slack" b b'] by (auto simp: good_def split: if_splits)
        ultimately show ?thesis
          using beyond Cons.prems True fits [of _ _ TRUNCATED] by (fastforce simp: e Suc and_then_Some)
      next
        case False
        with beyond Cons.prems show ?thesis
          by (auto simp: e Suc marker split: option.splits)
      qed
    next
      case spent
      with Cons.prems marker(2) [of TRUNCATED "lit ''event budget exhausted''"] show ?thesis
        by (auto simp: e Suc marker(1,3,4))
    next
      case more
      let ?go = "\<lambda>result b. entries_loop X san assemble r len fails l (Suc admitted) result es b"
      have IH: "run_spends (Suc slack) b1 (?go result' b1) \<and> (\<forall>d' b'. ?go result' b1 = (Some d', b') \<longrightarrow>
          entries_ok d d' \<and> length d' + Suc admitted \<le> length result' + er_limit r + 1
          \<and> int (entries_size d') \<le> int (entries_size result') + 3 * (b_nodes b1 - b_nodes b')
              + (if exhausted b1 then 1 else 2))" if "entries_ok d result'" for result' b1
        using Cons.IH [of "Suc admitted" result' b1 l] that more(2) by simp
      obtain k b1 where key: "sanitize_key X key b = (k, b1)" by fastforce
      have key_spends: "spends (Suc slack) b b1" using slack_S [OF sanitize_key_spends, of b key] key by simp
      show ?thesis
      proof (cases k)
        case None
        with more key key_spends show ?thesis by (simp add: e Suc)
      next
        case (Some sk)
        then obtain sensitive safe_key where k: "k = Some (sensitive, safe_key)" by (cases sk) auto
        show ?thesis
        proof (cases sensitive)
          case True
          let ?m = "emit_marker REDACTED (x_nested X) (spend_node b1)"
          have "spends (Suc slack) b1 (snd ?m)" by (rule sensitive_spends [OF more(3) key])
          with key_spends have sp: "spends (Suc slack) b (snd ?m)" by (rule spends_trans)
          have go: "entries_loop X san assemble r len fails left admitted result (e # es) b =
              ?go (dict_set result safe_key (SStr (fst ?m))) (snd ?m)"
            using more key k True by (simp add: e Suc split_beta)
          define d1 where "d1 = dict_set result safe_key (SStr (fst ?m))"
          define b2 where "b2 = snd ?m"
          note IH' = IH [OF marker(1) [of safe_key "fst ?m"], of b2, folded d1_def]
          have b2: "b_nodes b2 = b_nodes b1 - 1" by (simp add: b2_def)
          have d1: "length d1 \<le> Suc (length result)" "int (entries_size d1) \<le> int (entries_size result) + 1"
            unfolding d1_def by (rule marker)+
          have "run_spends (Suc slack) b (?go d1 b2)"
            using IH' run_spends_trans [OF sp, folded b2_def] by blast
          moreover have "entries_ok d d' \<and> length d' + admitted \<le> length result + er_limit r + 1
              \<and> int (entries_size d') \<le> int (entries_size result) + 3 * (b_nodes b - b_nodes b')
                  + (if exhausted b then 1 else 2)" if "?go d1 b2 = (Some d', b')" for d' b'
            using IH' that d1 b2 spends_nodes [OF key_spends] more(3) by (auto split: if_splits)
          ultimately show ?thesis unfolding go d1_def b2_def by blast
        next
          case False
          define item' where "item' = (if is_named_in key (er_assembled r) then VStr True (assemble item) else item)"
          have go: "entries_loop X san assemble r len fails left admitted result (e # es) b =
              and_then (san item' b1) (\<lambda>v b. ?go (dict_set result safe_key v) b)"
            using more key k False by (simp add: e Suc item'_def)
          obtain v b2 where v: "san item' b1 = (v, b2)" by fastforce
          have sp: "spends (Suc slack) b1 b2" using run_item [of b1 item'] v by simp
          show ?thesis
          proof (cases v)
            case None
            then show ?thesis using v spends_trans [OF key_spends sp] unfolding go by simp
          next
            case (Some w)
            have w: "bounded d w" "int (safe_size w) \<le> (if exhausted b1 then 1 else 3 * (b_nodes b1 - b_nodes b2))"
              using good_item [of b1 item'] v Some by (simp_all add: good_def)
            define d1 where "d1 = dict_set result safe_key w"
            note set = fits [OF w, of safe_key, folded d1_def]
            note IH' = IH [OF set(1), of b2]
            have "run_spends (Suc slack) b (?go d1 b2)"
              using IH' run_spends_trans [OF spends_trans [OF key_spends sp]] by blast
            moreover have "entries_ok d d' \<and> length d' + admitted \<le> length result + er_limit r + 1
                \<and> int (entries_size d') \<le> int (entries_size result) + 3 * (b_nodes b - b_nodes b')
                    + (if exhausted b then 1 else 2)" if "?go d1 b2 = (Some d', b')" for d' b'
              using IH' that set(2,3) spends_nodes [OF key_spends] spends_nodes [OF sp]
                spends_exhausted [OF sp] more(3) by (auto split: if_splits)
            ultimately show ?thesis unfolding go v Some d1_def by simp
          qed
        qed
      qed
    qed
  qed
qed

text \<open>Containers.\<close>

lemma expand_paid:
  assumes "\<And>v b. good (Suc slack) d b (deeper v b)"
  shows "paid (Suc slack) (Suc d) b (expand X deeper kind len fails es vs b)"
proof (cases "kind = Mapping")
  case True
  let ?m = "sanitize_entries X deeper (\<lambda>_. []) plain_rules len fails [] es b"
  note es = entries_loop_good [where san = deeper and d = d and admitted = 0 and r = plain_rules and result = "[]" and b = b and assemble = "\<lambda>_. []" and len = len and fails = fails
      and left = "er_limit plain_rules + length (remdups (er_skip plain_rules)) + 1" and es = es,
      OF assms, folded sanitize_entries_def]
  have es': "run_spends (Suc slack) b ?m" "\<And>d' b'. ?m = (Some d', b') \<Longrightarrow> bounded (Suc d) (SDict d') \<and>
      int (safe_size (SDict d')) \<le> 3 * (b_nodes b - b_nodes b') + 3"
    using es by (auto simp: plain_rules_def entries_ok_def entries_size_def split: if_splits)
  show ?thesis
    unfolding paid_def expand_def using True es'
    by (auto simp: and_then_Some intro!: run_spends_and_then)
next
  case False
  let ?m = "items_loop deeper len fails 0 vs b"
  note vs = items_loop_good [where san = deeper and d = d and index = 0 and b = b and len = len and fails = fails
      and vs = vs, OF assms]
  have sorted: "list_all P (sort_key f ws) \<longleftrightarrow> list_all P ws" "sum_list (map g (sort_key f ws)) = sum_list (map g ws)"
    for P and g :: "safe \<Rightarrow> nat" and f :: "safe \<Rightarrow> pystr" and ws
    using sum_list_sort_key [of g f ws] by (simp_all add: list_all_iff)
  show ?thesis
    unfolding paid_def expand_def sanitize_sequence_def using False vs
    by (auto simp: and_then_Some sorted split: option.splits intro!: run_spends_and_then)
qed

lemma guarded_paid: "paid s d b m \<Longrightarrow> paid s d b (guarded m)"
proof -
  assume p: "paid s d b m"
  obtain r b' where m: "m = (r, b')" by fastforce
  then have "b_nodes b' \<le> b_nodes b" using p by (auto simp: paid_def dest: spends_nodes)
  then show ?thesis using p m by (cases r) (auto simp: paid_def guarded_def)
qed

lemma discard_paid:
  assumes "paid s d (mark_seen i b) m" "i \<notin> set (b_active b)"
  shows "paid s d b (discard_active i m)"
proof -
  obtain r b' where m: "m = (r, b')" by fastforce
  have "spends s (mark_seen i b) b'" using assms(1) m by (simp add: paid_def)
  then have "spends s b (b'\<lparr>b_active := removeAll i (b_active b')\<rparr>)"
    using assms(2) by (auto simp: spends_def mark_seen_def)
  then show ?thesis using assms(1) m by (auto simp: paid_def discard_active_def mark_seen_def)
qed

lemma sanitize_container_paid:
  assumes good_item: "\<And>san v b. deeper = Some san \<Longrightarrow> good (Suc slack) d b (san v b)"
    and levels: "\<And>san. deeper = Some san \<Longrightarrow> d' = Suc d"
  shows "paid (Suc slack) d' b (sanitize_container X deeper v b)"
proof -
  define b1 where "b1 = snd (charge SEPARATOR_COST (x_nested X) b)"
  have b1: "spends (Suc slack) b b1" unfolding b1_def by (rule charge_spends)
  have later: "paid (Suc slack) d' b m" if "paid (Suc slack) d' b1 m" for m
    using that run_spends_trans [OF b1] spends_nodes [OF b1] by (fastforce simp: paid_def)
  have atom: "paid (Suc slack) d' b0 (Some w, b0)" if "safe_size w = 1" "bounded d' w" for b0 w
    by (rule paid_atom) (use that in auto)
  have raises: "paid (Suc slack) d' b (None, b)" by (rule paid_atom) auto
  have active: "b_active b1 = b_active b" using b1 by (simp add: spends_def)
  show ?thesis
  proof (cases deeper)
    case None
    then show ?thesis
      by (auto simp: sanitize_container_def raises intro!: atom split: pyval.splits)
  next
    case (Some san)
    have expanded: "paid (Suc slack) d' b0 (expand X san kind len fails es vs b0)" for kind len fails es vs b0
      using expand_paid [OF good_item [OF Some]] levels [OF Some] by simp
    have empty: "bounded d' (SList [])" "bounded d' (SDict [])" using levels [OF Some] by simp_all
    note found = later [OF atom] later [OF guarded_paid [OF expanded]]
      later [OF guarded_paid [OF discard_paid [OF expanded]]]
    show ?thesis
      unfolding sanitize_container_def Some
      by (auto simp: b1_def [symmetric] Let_def raises active empty intro!: atom found
          split: pyval.splits option.splits)
  qed
qed

lemma sanitize_within_good: "good (Suc slack) d b (sanitize_within X d v b)"
proof (induction d arbitrary: v b)
  case 0
  show ?case
    by (simp, rule sanitize_value_good, rule sanitize_container_paid [where d = 0]) auto
next
  case (Suc d)
  show ?case
    by (simp, rule sanitize_value_good, rule sanitize_container_paid [where d = d]) (auto intro: Suc.IH)
qed

lemma sanitize_at_good: "good (Suc slack) (MAX_DEPTH - depth) b (sanitize_at X depth v b)"
  unfolding sanitize_at_def by (rule sanitize_within_good)

text \<open>Events: the leading fields and the entries.\<close>

lemma leading_fields_good:
  assumes "entries_ok d result" "d = MAX_DEPTH - 1"
  shows "run_spends (Suc slack) b (leading_fields X assembled es result ks b) \<and>
    (\<forall>d' b'. leading_fields X assembled es result ks b = (Some d', b') \<longrightarrow>
       entries_ok d d' \<and> length d' \<le> length result + length ks
       \<and> int (entries_size d') \<le> int (entries_size result) + 3 * (b_nodes b - b_nodes b') + int (length ks))"
  using assms
proof (induction ks arbitrary: result b)
  case Nil
  then show ?case by simp
next
  case (Cons k ks)
  show ?case
  proof (cases "event_get es k")
    case None
    with Cons show ?thesis by fastforce
  next
    case (Some v)
    define m where "m = sanitize_field X assembled k v b"
    obtain w b1 where m': "m = (w, b1)" by fastforce
    have good: "good (Suc slack) d b m" unfolding m_def sanitize_field_def Cons.prems(2) by (rule sanitize_at_good)
    then have sp: "spends (Suc slack) b b1" using m' by (simp add: good_def)
    show ?thesis
    proof (cases w)
      case None
      then show ?thesis using sp m' Some by (simp add: m_def [symmetric])
    next
      case w: (Some x)
      have x: "bounded d x" "int (safe_size x) \<le> 3 * (b_nodes b - b_nodes b1) + 1"
        using good good_size [of "Suc slack" d b x b1] m' w by (auto simp: good_def)
      note set = set_fits [OF Cons.prems(1) x, of k]
      show ?thesis
        using Cons.IH [OF set(1) Cons.prems(2), of b1] set(2,3) m' w Some run_spends_trans [OF sp]
        by (fastforce simp: m_def [symmetric])
    qed
  qed
qed

lemma sanitize_event_good:
  assumes "sanitize_event_with X event skip leading assembled b = (Some d', b')"
  shows "entries_ok (MAX_DEPTH - 1) d'"
    "length d' \<le> MAX_EVENT_FIELDS + length leading + 1"
    "int (entries_size d') \<le> 3 * (b_nodes b - b_nodes b') + int (length leading) + 2"
proof -
  let ?san = "sanitize_at X 1" and ?r = "event_rules skip leading assembled"
  from assms obtain result b1 where lead: "leading_fields X assembled (co_entries event) [] leading b = (Some result, b1)"
    and rest: "sanitize_entries X ?san (assembled_text (x_heap X)) ?r (co_len event) (co_fails event) result
      (co_entries event) b1 = (Some d', b')"
    by (auto simp: sanitize_event_with_def and_then_Some)
  have l: "entries_ok (MAX_DEPTH - 1) result" "length result \<le> length leading"
    "int (entries_size result) \<le> 3 * (b_nodes b - b_nodes b1) + int (length leading)"
    using leading_fields_good [of "MAX_DEPTH - 1" "[]" b assembled "co_entries event" leading] lead
    by (auto simp: entries_ok_def entries_size_def)
  have "entries_ok (MAX_DEPTH - 1) d' \<and> length d' + 0 \<le> length result + er_limit ?r + 1
      \<and> int (entries_size d') \<le> int (entries_size result) + 3 * (b_nodes b1 - b_nodes b') + (if exhausted b1 then 1 else 2)"
    using entries_loop_good [where san = ?san and d = "MAX_DEPTH - 1" and admitted = 0 and r = ?r
        and result = result and b = b1, OF sanitize_at_good _ l(1)] rest
    unfolding sanitize_entries_def by blast
  with l show "entries_ok (MAX_DEPTH - 1) d'" "length d' \<le> MAX_EVENT_FIELDS + length leading + 1"
    "int (entries_size d') \<le> 3 * (b_nodes b - b_nodes b') + int (length leading) + 2"
    by (auto simp: event_rules_def split: if_splits)
qed

end

end
