(* ===== verification/Scrub.thy ===== *)
theory Scrub
  imports SanitizeBounds
begin

text \<open>
  The scrubber of one string (\<open>_scrub\<close> of \<open>redaction.py\<close>): embedded JSON is sanitised and
  held aside, the text rules run on what is left, decoded views are compared with the
  result, and a text that was cut is emitted only when nothing in it looks like a
  credential.

  The scrubber and the structured sanitiser call each other: the sanitiser scrubs strings,
  the scrubber sanitises the JSON it finds. The recursion is bounded by
  \<open>MAX_JSON_NESTING\<close>, and \<open>scrub_within R k\<close> is the scrubber with \<open>k\<close> levels left; at level
  0 embedded JSON is masked without being examined.
\<close>

section \<open>Embedded JSON\<close>

type_synonym json_sanitizer = "pyval \<Rightarrow> budget \<Rightarrow> safe run"

fun is_nonempty_container :: "pyval \<Rightarrow> bool" where
  "is_nonempty_container (VList vs) \<longleftrightarrow> vs \<noteq> []"
| "is_nonempty_container (VDict d) \<longleftrightarrow> d \<noteq> []"
| "is_nonempty_container _ \<longleftrightarrow> False"

definition placeholder :: "nat \<Rightarrow> pystr" where
  "placeholder n = FRAGMENT_OPEN # dec_digits n @ [FRAGMENT_CLOSE]"

lemma find_in_advances:
  assumes "find_in p t a b = Some i" "i < j"
  shows "length t - j < length t - a" "length t - max e j < length t - a"
  using find_in_SomeD(1,3) [OF assms(1)] assms(2) by auto

text \<open>
  The loop of \<open>_scrub_json_fragments\<close>: \<open>work\<close> is the parse allowance, \<open>start\<close> the opener that
  is tried next.
\<close>

function json_loop ::
  "pyrt \<Rightarrow> json_sanitizer option \<Rightarrow> pystr \<Rightarrow> int \<Rightarrow> nat \<Rightarrow> nat \<Rightarrow> pystr list \<Rightarrow> budget
    \<Rightarrow> (pystr \<times> pystr list) run" where
  "json_loop R san t work copied position fragments b =
     (case find_in is_json_opener t position (length t) of
        None \<Rightarrow> (Some (drop copied t, fragments), b)
      | Some start \<Rightarrow>
          if work \<le> 0 then (Some (slice t copied start @ REDACTED, fragments), b)
          else case raw_decode R t start of
            Inl failed \<Rightarrow>
              json_loop R san t
                (work - max 1 (int (case failed of Some p \<Rightarrow> p | None \<Rightarrow> length t) - int start))
                copied (start + 1) fragments b
          | Inr (v, e) \<Rightarrow>
              let work' = work - (int e - int start); e' = max e (start + 1) in
                if is_nonempty_container v then
                  (case san of
                     None \<Rightarrow> and_then (json_loop R san t work' e e' fragments b)
                       (\<lambda>(rest, fs) b. (Some (slice t copied start @ REDACTED @ rest, fs), b))
                   | Some sanitize_json \<Rightarrow> and_then (sanitize_json v b) (\<lambda>clean b.
                       and_then (json_loop R san t work' e e' (fragments @ [dumps clean]) b)
                         (\<lambda>(rest, fs) b.
                           (Some (slice t copied start @ placeholder (length fragments) @ rest, fs), b))))
                else json_loop R san t work' copied e' fragments b)"
  by pat_completeness auto
termination
  by (relation "measure (\<lambda>(R, san, t, work, copied, position, fragments, b). length t - position)")
     (auto intro: find_in_advances)

declare json_loop.simps [simp del]

definition json_work :: "pystr \<Rightarrow> int" where
  "json_work t = int (JSON_WORK_FACTOR * length t) + 1024"

definition scrub_json_fragments ::
  "pyrt \<Rightarrow> json_sanitizer option \<Rightarrow> pystr \<Rightarrow> pystr list \<Rightarrow> budget \<Rightarrow> (pystr \<times> pystr list) run" where
  "scrub_json_fragments R san t fragments b =
     (if list_ex is_json_opener t then json_loop R san t (json_work t) 0 0 fragments b
      else (Some (t, fragments), b))"

definition hold_json ::
  "pyrt \<Rightarrow> json_sanitizer option \<Rightarrow> pystr \<Rightarrow> budget \<Rightarrow> (pystr \<times> pystr list) run" where
  "hold_json R san t b =
     scrub_json_fragments R san
       (if FRAGMENT_OPEN \<in> set t \<or> FRAGMENT_CLOSE \<in> set t then no_fragment_marks t else t) [] b"

section \<open>Views\<close>

text \<open>\<open>_scrub_held\<close>, charged to the budget.\<close>

definition scrub_held_run :: "pyrt \<Rightarrow> pystr \<Rightarrow> bool \<Rightarrow> budget \<Rightarrow> pystr run" where
  "scrub_held_run R held was_cut b = (case scrub_held R held was_cut of (r, n) \<Rightarrow> (r, spend_scan n b))"

definition scrub_layers :: "pyrt \<Rightarrow> json_sanitizer option \<Rightarrow> pystr \<Rightarrow> budget \<Rightarrow> pystr run" where
  "scrub_layers R san t b =
     and_then (hold_json R san t b) (\<lambda>(held, _) b. scrub_held_run R held False b)"

definition view :: "pyrt \<Rightarrow> json_sanitizer option \<Rightarrow> pystr \<Rightarrow> budget \<Rightarrow> pystr option run" where
  "view R san form b =
     (if b_scan b < int (length form) then (Some None, b)
      else and_then (scrub_layers R san form (spend_scan (length form) b)) (\<lambda>v b. (Some (Some v), b)))"

definition decode_tokens_once :: "pyrt \<Rightarrow> pystr \<Rightarrow> pystr" where
  "decode_tokens_once R t =
     rx_sub TOKEN (\<lambda>m. map (\<lambda>c. if is_space c then c_under else c) (decode_once R (rx_text t m))) t"

definition shows_only :: "pystr \<Rightarrow> pystr \<Rightarrow> bool" where
  "shows_only shown v \<longleftrightarrow> list_all (\<lambda>piece. py_in piece v) (py_split shown REDACTED)"

text \<open>
  The loop of \<open>_shows_more_than_its_views\<close> for one way of decoding, with the rounds left.
\<close>

fun views_loop ::
  "pyrt \<Rightarrow> json_sanitizer option \<Rightarrow> (pystr \<Rightarrow> pystr) \<Rightarrow> nat \<Rightarrow> pystr \<Rightarrow> pystr \<Rightarrow> budget \<Rightarrow> bool run" where
  "views_loop R san decode 0 form shown b = (Some False, b)"
| "views_loop R san decode (Suc n) form shown b =
     (let decoded = decode form in
        if decoded = form then (Some False, b)
        else if MAX_VIEW_LENGTH < length decoded then (Some True, b)
        else and_then (view R san decoded b) (\<lambda>v b.
          case v of
            None \<Rightarrow> (Some True, b)
          | Some w \<Rightarrow>
              let shown' = decode shown in
                if \<not> shows_only shown' w then (Some True, b)
                else views_loop R san decode n decoded shown' b))"

definition shows_more_than_its_views ::
  "pyrt \<Rightarrow> json_sanitizer option \<Rightarrow> pystr \<Rightarrow> pystr \<Rightarrow> budget \<Rightarrow> bool run" where
  "shows_more_than_its_views R san scrubbed original b =
     (if \<not> snd (decoded_forms R original) then (Some True, b)
      else let marked = no_fragment_marks scrubbed in
        and_then (views_loop R san (decode_once R) MAX_DECODE_ROUNDS original marked b) (\<lambda>more b.
          if more then (Some True, b)
          else views_loop R san (decode_tokens_once R) MAX_DECODE_ROUNDS original marked b))"

definition scrub_decoded_views ::
  "pyrt \<Rightarrow> json_sanitizer option \<Rightarrow> pystr \<Rightarrow> pystr \<Rightarrow> budget \<Rightarrow> pystr run" where
  "scrub_decoded_views R san scrubbed original b =
     (if has_escapes original
      then and_then (shows_more_than_its_views R san scrubbed original b)
             (\<lambda>more b. (Some (if more then REDACTED else scrubbed), b))
      else (Some scrubbed, b))"

section \<open>One string\<close>

text \<open>
  \<open>_FRAGMENT.sub(...)\<close>: every placeholder is replaced by its fragment; \<open>None\<close> if a number
  names no fragment (\<open>IndexError\<close>).
\<close>

definition fragment_index :: "pystr \<Rightarrow> rxm \<Rightarrow> nat" where
  "fragment_index t m = (case rx_group t m 1 of Some ds \<Rightarrow> dec_value ds | None \<Rightarrow> 0)"

definition restore_fragments :: "pystr list \<Rightarrow> pystr \<Rightarrow> pystr option" where
  "restore_fragments fragments t =
     (if list_ex (\<lambda>m. length fragments \<le> fragment_index t m) (rx_iterate FRAGMENT t 0) then None
      else Some (rx_sub FRAGMENT (\<lambda>m. fragments ! fragment_index t m) t))"

definition fill_fragments :: "pystr list \<Rightarrow> pystr \<Rightarrow> pystr option" where
  "fill_fragments fragments t = (if fragments = [] then Some t else restore_fragments fragments t)"

text \<open>The end of \<open>_scrub\<close>: what is emitted of \<open>scrubbed\<close>.\<close>

definition finish_scrub :: "pystr \<Rightarrow> pystr \<Rightarrow> pystr list \<Rightarrow> bool \<Rightarrow> pystr option" where
  "finish_scrub scrubbed held fragments was_cut =
     (if was_cut then
        (if scrubbed \<noteq> held \<or> rx_found CUT_INDICATOR held then Some TRUNCATED_SENSITIVE
         else map_option (\<lambda>s. if s \<noteq> [] then s @ [c_space] @ TRUNCATED else TRUNCATED)
           (fill_fragments fragments (take (find_or 0 (py_rfind held [c_space] 0 (length held))) held)))
      else fill_fragments fragments scrubbed)"

definition scrub_string :: "pyrt \<Rightarrow> json_sanitizer option \<Rightarrow> pystr \<Rightarrow> budget \<Rightarrow> pystr run" where
  "scrub_string R san t b =
     (let limit = min (int MAX_STRING_LENGTH) (b_scan b) in
        if limit \<le> 0 then (Some TRUNCATED, b)
        else let was_cut = limit < int (length t); text = take (nat limit) t in
          and_then (hold_json R san text (spend_scan (length text) b)) (\<lambda>(held, fragments) b.
          and_then (scrub_held_run R held was_cut b) (\<lambda>scrubbed b.
          and_then (scrub_decoded_views R san scrubbed held b) (\<lambda>scrubbed b.
            (finish_scrub scrubbed held fragments was_cut, b)))))"

section \<open>The levels\<close>

text \<open>
  JSON inside a string is sanitised with strings scrubbed one level deeper. The decoder
  makes no exception objects and no references (\<open>raw_decode_own\<close>), so neither the heap nor
  the description of exceptions is ever asked.
\<close>

definition json_ctx :: "pyrt \<Rightarrow> (pystr \<Rightarrow> budget \<Rightarrow> pystr run) \<Rightarrow> ctx" where
  "json_ctx R scrub =
     \<lparr>x_rt = R,
      x_heap = (\<lambda>_. \<lparr>co_kind = Sequence, co_type = OtherType, co_len = None, co_entries = [], co_items = [], co_fails = True\<rparr>),
      x_scrub = scrub, x_describe = (\<lambda>_ b. (None, b)), x_nested = True\<rparr>"

primrec scrub_within :: "pyrt \<Rightarrow> nat \<Rightarrow> pystr \<Rightarrow> budget \<Rightarrow> pystr run" where
  "scrub_within R 0 = scrub_string R None"
| "scrub_within R (Suc k) = scrub_string R (Some (sanitize_at (json_ctx R (scrub_within R k)) 0))"

text \<open>\<open>_scrub(text, budget, 0)\<close>\<close>

definition scrub :: "pyrt \<Rightarrow> pystr \<Rightarrow> budget \<Rightarrow> pystr run" where
  "scrub R = scrub_within R MAX_JSON_NESTING"

definition scrub_text :: "pyrt \<Rightarrow> pystr \<Rightarrow> pystr" where
  "scrub_text R t = (case fst (scrub R t new_budget) of None \<Rightarrow> UNREADABLE | Some s \<Rightarrow> s)"

definition trusted_identifier :: "pyrt \<Rightarrow> pyval \<Rightarrow> identifier_kind \<Rightarrow> pystr \<Rightarrow> pystr" where
  "trusted_identifier R v kind fallback =
     (case v of
        VStr True t \<Rightarrow>
          (if t = [] \<or> MAX_IDENTIFIER_LENGTH < length t then fallback
           else if \<not> rx_fullmatches (IDENTIFIER_GRAMMARS kind) t then fallback
           else if fst (scrub R t new_budget) = Some t then t else fallback)
      | _ \<Rightarrow> fallback)"

section \<open>What scrubbing spends\<close>

text \<open>
  The contract of the JSON sanitiser with the scrubber that calls it: it gives no budget
  back. Then neither does the scrubber.
\<close>

locale json_user =
  fixes R :: pyrt and san :: "json_sanitizer option" and slack :: nat
  assumes sanitize_spends: "san = Some f \<Longrightarrow> run_spends slack b (f v b)"
begin

lemma json_loop_spends: "run_spends slack b (json_loop R san t work copied position fragments b)"
proof (induction "length t - position" arbitrary: work copied position fragments b rule: less_induct)
  case less
  show ?case
  proof (cases "find_in is_json_opener t position (length t)")
    case None
    then show ?thesis by (simp add: json_loop.simps)
  next
    case start: (Some start)
    note ahead = find_in_advances [OF start, of "start + 1"]
    have failed: "run_spends slack b (json_loop R san t work' copied (start + 1) fragments b)" for work' b
      using less ahead by simp
    have found: "run_spends slack b (json_loop R san t work' copied' (max e (start + 1)) fragments' b)"
      for work' copied' e fragments' b
      using less ahead(2) by simp
    have replaced: "run_spends slack b
        (and_then (json_loop R san t work' copied' (max e (start + 1)) fragments' b) (\<lambda>(rest, fs) b. (Some (p @ rest, fs), b)))"
      for work' copied' e fragments' b p
      by (rule run_spends_and_then [OF found]) auto
    note later = failed found replaced [where p = "_ @ _", simplified append_assoc]
    have json: "run_spends slack b (and_then (f v b) (\<lambda>clean b.
        and_then (json_loop R san t work' copied' (max e (start + 1)) (fragments' clean) b)
          (\<lambda>(rest, fs) b. (Some (p @ q @ rest, fs), b))))"
      if "san = Some f" for f v work' copied' e fragments' b p q
      by (rule run_spends_and_then [OF sanitize_spends [OF that] later(3)])
    note unfold = json_loop.simps [of R san t work copied position fragments b, unfolded start option.case(2) Let_def]
    show ?thesis
    proof (cases san)
      case None
      then show ?thesis
        using later [unfolded None, simplified]
        unfolding unfold unfolding None by (cases "raw_decode R t start") (simp_all split: prod.splits)
    next
      case (Some f)
      then show ?thesis
        using later [unfolded Some, simplified] json [OF Some, unfolded Some, simplified]
        unfolding unfold unfolding Some by (cases "raw_decode R t start") (simp_all split: prod.splits)
    qed
  qed
qed

lemma hold_json_spends: "run_spends slack b (hold_json R san t b)"
  by (simp add: hold_json_def scrub_json_fragments_def json_loop_spends)

lemma scrub_held_run_spends: "run_spends slack b (scrub_held_run R held was_cut b)"
  by (simp add: scrub_held_run_def spend_scan_spends split: prod.splits)

lemma scrub_layers_spends: "run_spends slack b (scrub_layers R san t b)"
  unfolding scrub_layers_def
  by (rule run_spends_and_then [OF hold_json_spends]) (simp add: scrub_held_run_spends split: prod.splits)

lemma view_spends: "run_spends slack b (view R san form b)"
proof -
  have "run_spends slack b1 (and_then (scrub_layers R san form b1) (\<lambda>v b. (Some (Some v), b)))" for b1
    by (rule run_spends_and_then [OF scrub_layers_spends]) simp
  then show ?thesis
    unfolding view_def by (auto intro: run_spends_trans [OF spend_scan_spends])
qed

lemma views_loop_spends: "run_spends slack b (views_loop R san decode n form shown b)"
proof (induction n arbitrary: form shown b)
  case (Suc n)
  show ?case
    by (auto simp: Let_def intro!: run_spends_and_then [OF view_spends] Suc split: option.splits)
qed simp

lemma scrub_decoded_views_spends: "run_spends slack b (scrub_decoded_views R san scrubbed original b)"
proof -
  have "run_spends slack b (shows_more_than_its_views R san scrubbed original b)"
    unfolding shows_more_than_its_views_def Let_def
    by (auto intro!: run_spends_and_then [OF views_loop_spends] views_loop_spends)
  then show ?thesis
    unfolding scrub_decoded_views_def by (auto intro: run_spends_and_then)
qed

lemma scrub_string_spends: "run_spends slack b (scrub_string R san t b)"
proof -
  have rest: "run_spends slack b1
      (and_then (hold_json R san w b1) (\<lambda>(held, fragments) b.
       and_then (scrub_held_run R held was_cut b) (\<lambda>scrubbed b.
       and_then (scrub_decoded_views R san scrubbed held b) (\<lambda>scrubbed b.
         (finish_scrub scrubbed held fragments was_cut, b)))))" for b1 w was_cut
    by (auto intro!: run_spends_and_then [OF hold_json_spends] run_spends_and_then [OF scrub_held_run_spends]
        run_spends_and_then [OF scrub_decoded_views_spends])
  then show ?thesis
    unfolding scrub_string_def Let_def by (simp add: run_spends_trans [OF spend_scan_spends rest] del: length_take)
qed

end

text \<open>The levels discharge the two contracts for each other.\<close>

lemma scrub_within_spends: "run_spends k b (scrub_within R k t b)"
proof (induction k arbitrary: t b)
  case 0
  have "json_user None 0" by unfold_locales simp
  from json_user.scrub_string_spends [OF this] show ?case by simp
next
  case (Suc k)
  have "sanitizer (json_ctx R (scrub_within R k)) k"
    by unfold_locales (simp_all add: json_ctx_def Suc)
  from sanitizer.sanitize_at_good [OF this]
  have "json_user (Some (sanitize_at (json_ctx R (scrub_within R k)) 0)) (Suc k)"
    by unfold_locales (auto simp: good_def)
  from json_user.scrub_string_spends [OF this] show ?case by simp
qed

interpretation json_level: sanitizer "json_ctx R (scrub_within R k)" k for R k
  by unfold_locales (simp_all add: json_ctx_def scrub_within_spends)

interpretation scrub_level: json_user R "Some (sanitize_at (json_ctx R (scrub_within R k)) 0)" "Suc k" for R k
  using json_level.sanitize_at_good by unfold_locales (auto simp: good_def)

lemma scrub_spends: "run_spends MAX_JSON_NESTING b (scrub R t b)"
  unfolding scrub_def by (rule scrub_within_spends)

section \<open>Texts without JSON and without escapes\<close>

lemma hold_json_none:
  assumes "\<not> list_ex is_json_opener t" "FRAGMENT_OPEN \<notin> set t" "FRAGMENT_CLOSE \<notin> set t"
  shows "hold_json R san t b = (Some (t, []), b)"
  using assms by (simp add: hold_json_def scrub_json_fragments_def)

lemma scrub_string_quiet:
  assumes "length t \<le> MAX_STRING_LENGTH" "int (length t) \<le> b_scan b" "0 < b_scan b"
    "\<And>b. hold_json R san t b = (Some (t, []), b)" "\<not> has_escapes t"
  shows "fst (scrub_string R san t b) = fst (scrub_held R t False)"
proof -
  have "\<not> min (int MAX_STRING_LENGTH) (b_scan b) \<le> 0"
    "\<not> min (int MAX_STRING_LENGTH) (b_scan b) < int (length t)"
    "take (nat (min (int MAX_STRING_LENGTH) (b_scan b))) t = t"
    using assms(1-3) by (auto simp: MAX_STRING_LENGTH_def)
  then show ?thesis
    using assms(4,5)
    by (cases "scrub_held R t False"; cases "fst (scrub_held R t False)")
      (simp_all add: scrub_string_def scrub_held_run_def scrub_decoded_views_def finish_scrub_def fill_fragments_def
        del: length_take)
qed

lemma scrub_quiet:
  assumes "length t \<le> MAX_STRING_LENGTH" "\<And>san b. hold_json R san t b = (Some (t, []), b)" "\<not> has_escapes t"
  shows "fst (scrub R t new_budget) = fst (scrub_held R t False)"
proof -
  have "fst (scrub_string R san t new_budget) = fst (scrub_held R t False)" for san
    using assms by (intro scrub_string_quiet) (simp_all add: new_budget_def MAX_EVENT_SCAN_def MAX_STRING_LENGTH_def)
  then have "fst (scrub_within R k t new_budget) = fst (scrub_held R t False)" for k by (cases k) simp_all
  then show ?thesis by (simp add: scrub_def)
qed

text \<open>Rules that need white space leave a text without it alone.\<close>

lemma no_space_match:
  assumes "list_all (\<lambda>c. \<not> is_space c) t"
  shows "rx_match spaces1 t i c = []"
proof -
  have "rx_match (RxSet is_space) t i c = []" for i c
    using assms by (auto simp: list_all_length)
  then show ?thesis by (simp add: spaces1_def rx_iter.simps [of _ _ _ "Suc 0"])
qed

lemma scrub_tokens_no_space:
  assumes "list_all (\<lambda>c. \<not> is_space c) t" "\<not> py_in jwt_mark t" "\<not> py_in (lit ''PRIVATE KEY-----'') t"
  shows "scrub_tokens R t = t"
proof -
  note ns = no_space_match [OF assms(1)]
  have "rx_search (BEARER R) t 0 = None" "rx_search (DIGEST R) t 0 = None" "rx_search (TOKEN_VALUE R) t 0 = None"
    by (simp_all add: rx_search_None BEARER_def DIGEST_def TOKEN_VALUE_def ns)
  then have "mask_bearer R t = t" "mask_digest R t = t" "mask_token_value R t = t"
    by (simp_all add: mask_bearer_def mask_digest_def mask_token_value_def bearer.sub_unmatched
        digest.sub_unmatched token_value.sub_unmatched)
  with assms show ?thesis by (simp add: scrub_tokens_def mask_pem_def mask_jwts_def)
qed

lemma py_in_subset: "py_in p t \<Longrightarrow> set p \<subseteq> set t"
proof -
  assume "py_in p t"
  then obtain i where "starts_at t p i" by (auto simp: py_in_def dest: py_find_SomeD)
  then have "p = take (length p) (drop i t)" by (simp add: starts_at_def)
  then show "set p \<subseteq> set t" by (metis set_drop_subset set_take_subset subset_trans)
qed

text \<open>
  A character of printable ASCII that none of the other rules looks at: not a delimiter,
  quote, bracket, escape, nor a \<open>?\<close> or an \<open>@\<close>.
\<close>

definition is_calm :: "pychar \<Rightarrow> bool" where
  "is_calm c \<longleftrightarrow> is_ordinary c \<and> 33 \<le> c \<and> c \<le> 126 \<and> c \<noteq> c_percent \<and> c \<noteq> c_quest \<and> c \<noteq> c_at"

lemma calm_facts:
  assumes "is_calm c"
  shows "\<not> is_space c" "\<not> is_json_opener c" "\<not> is_ambiguous c" "c \<noteq> FRAGMENT_OPEN" "c \<noteq> FRAGMENT_CLOSE"
    "is_ascii c" "c \<noteq> c_space" "c \<noteq> c_backslash" "c \<noteq> c_amp" "c \<noteq> c_percent"
  using assms by (auto simp: is_calm_def is_ordinary_def is_space_def is_json_opener_def is_ambiguous_def
      FRAGMENT_OPEN_def FRAGMENT_CLOSE_def is_ascii_def is_opener_def)

lemma calm_scrub:
  assumes "list_all is_calm t" "\<not> py_in jwt_mark t" "\<not> py_in scheme_mark t" "length t \<le> MAX_STRING_LENGTH"
  shows "fst (scrub R t new_budget) = map_option scrub_bare_authorities (scrub_pairs R t)"
proof -
  have calm: "c \<in> set t \<Longrightarrow> is_calm c" for c using assms(1) by (simp add: list_all_iff)
  have pem: "\<not> py_in (lit ''PRIVATE KEY-----'') t"
  proof
    assume "py_in (lit ''PRIVATE KEY-----'') t"
    from py_in_subset [OF this] have "c_space \<in> set t" by (simp add: lit_eval)
    with calm calm_facts(7) show False by blast
  qed
  have "scrub_tokens R t = t"
    using assms(2) pem calm calm_facts(1) by (intro scrub_tokens_no_space) (auto simp: list_all_iff)
  moreover have "c_quest \<notin> set t" using calm by (auto simp: is_calm_def)
  ultimately have free: "scrub_free_text R t False = map_option scrub_bare_authorities (scrub_pairs R t)"
    using assms(3) by (simp add: scrub_free_text_def scrub_signed_references_def scrub_urls_def)
  have "fst (scrub R t new_budget) = fst (scrub_held R t False)"
  proof (rule scrub_quiet [OF assms(4)])
    show "hold_json R san t b = (Some (t, []), b)" for san b
      using calm calm_facts(2,4,5) by (intro hold_json_none) (force simp: list_ex_iff)+
    show "\<not> has_escapes t"
      using calm calm_facts(6,8-10) by (force simp: has_escapes_def list_all_iff list_ex_iff)
  qed
  moreover have "\<not> list_ex is_ambiguous t" using calm calm_facts(3) by (auto simp: list_ex_iff)
  ultimately show ?thesis by (simp add: scrub_held_def free split: option.split)
qed

text \<open>
  C26: \<open>scrub_text("key=value")\<close> for a key the pair rule takes as sensitive. The whole text is of
  characters no other rule claims (printable ASCII without blank, delimiter, quote, bracket,
  backslash, \<open>%\<close>, \<open>&\<close>, \<open>?\<close> or \<open>@\<close>), has the mark of neither a JWT nor a URL, fits the string limit, and the
  value does not start with \<open>>\<close>. Then no value is shown: it is replaced by the mask, but for the
  one-letter values out of \<open>bBuUrReE\<close>, where the \<open>IndexError\<close> of the pair scanner is caught and the
  whole text, key included, is lost.
\<close>

theorem scrub_text_masks_assignment:
  assumes "is_sensitive_text_key R k" "list_all (is_key_char R) k" "k \<noteq> []" "v \<noteq> []" "hd v \<noteq> c_gt"
    "list_all is_calm (k @ c_eq # v)" "\<not> py_in jwt_mark (k @ c_eq # v)" "\<not> py_in scheme_mark (k @ c_eq # v)"
    "length (k @ c_eq # v) \<le> MAX_STRING_LENGTH"
  shows "scrub_text R (k @ c_eq # v) =
    (if length v = 1 \<and> is_string_prefix (hd v) then UNREADABLE else k @ c_eq # REDACTED)"
proof (cases "length v = 1 \<and> is_string_prefix (hd v)")
  case True
  then obtain c where c: "v = [c]" "is_string_prefix c" by (cases v) auto
  from calm_scrub [OF assms(6-9), of R] lone_prefix_raises [OF assms(1-3) c(2)] c True show ?thesis
    by (simp add: scrub_text_def)
next
  case False
  have calm: "list_all is_calm k" "list_all is_calm v" using assms(6) by simp_all
  then have v: "list_all is_ordinary v" "is_calm (hd v)"
    using assms(4) by (auto simp: list_all_iff is_calm_def)
  have pairs: "scrub_pairs R (k @ c_eq # v) = Some (k @ c_eq # REDACTED)"
    by (rule scrub_pairs_masks_value [OF assms(1-4) v(1) calm_facts(1) [OF v(2)] assms(5) False])
  have "c_at \<notin> set k" using calm(1) by (auto simp: list_all_iff is_calm_def)
  then have "scrub_bare_authorities (k @ c_eq # REDACTED) = k @ c_eq # REDACTED"
    by (simp add: scrub_bare_authorities_def REDACTED_def lit_eval)
  with calm_scrub [OF assms(6-9), of R] pairs have "scrub_text R (k @ c_eq # v) = k @ c_eq # REDACTED"
    by (simp add: scrub_text_def)
  then show ?thesis unfolding if_not_P [OF False] .
qed

theorem scrub_text_masks_assignment_witness:
  "scrub_text ascii_runtime (lit ''pwd=x=y'') = lit ''pwd=[REDACTED]'' \<and> scrub_text ascii_runtime (lit ''pwd=b'') = UNREADABLE"
proof -
  note evaluate = lit_eval is_calm_def is_ordinary_def MAX_STRING_LENGTH_def
  have "scrub_text ascii_runtime (lit ''pwd'' @ c_eq # lit ''x=y'') =
      (if length (lit ''x=y'') = 1 \<and> is_string_prefix (hd (lit ''x=y'')) then UNREADABLE else lit ''pwd'' @ c_eq # REDACTED)"
    by (rule scrub_text_masks_assignment [OF pwd_is_sensitive]) (simp_all add: evaluate, code_simp+)
  moreover have "scrub_text ascii_runtime (lit ''pwd'' @ c_eq # [98]) =
      (if length [98 :: pychar] = 1 \<and> is_string_prefix (hd [98]) then UNREADABLE else lit ''pwd'' @ c_eq # REDACTED)"
    by (rule scrub_text_masks_assignment [OF pwd_is_sensitive]) (simp_all add: evaluate, code_simp+)
  moreover have "is_string_prefix 98" by code_simp
  ultimately show ?thesis by (simp add: lit_eval REDACTED_def)
qed

section \<open>Text that is cut\<close>

text \<open>
  What lies beyond the limit has no influence: two texts that agree on their first
  \<open>MAX_STRING_LENGTH\<close> characters and both go on are scrubbed to the same result.
\<close>

theorem scrub_text_ignores_what_is_cut:
  assumes "length p = MAX_STRING_LENGTH" "x \<noteq> []" "y \<noteq> []"
  shows "scrub_text R (p @ x) = scrub_text R (p @ y)"
proof -
  have "scrub_string R san (p @ x) new_budget = scrub_string R san (p @ y) new_budget" for san
    using assms
    by (simp add: scrub_string_def new_budget_def MAX_EVENT_SCAN_def MAX_STRING_LENGTH_def)
  then have "scrub_within R k (p @ x) new_budget = scrub_within R k (p @ y) new_budget" for k
    by (cases k) simp_all
  then show ?thesis by (simp add: scrub_text_def scrub_def)
qed

theorem scrub_text_ignores_what_is_cut_witness:
  "scrub_text ascii_runtime (replicate 16384 97 @ [98]) = scrub_text ascii_runtime (replicate 16384 97 @ [99])"
  by (rule scrub_text_ignores_what_is_cut) (simp_all add: MAX_STRING_LENGTH_def)

text \<open>
  A text that had to be cut and shows any sign of a credential in the examined part is
  replaced whole.
\<close>

theorem scrub_text_cut_with_indicator:
  assumes "length p = MAX_STRING_LENGTH" "x \<noteq> []" "rx_found CUT_INDICATOR p"
    "\<not> list_ex is_json_opener p" "FRAGMENT_OPEN \<notin> set p" "FRAGMENT_CLOSE \<notin> set p"
  shows "scrub_text R (p @ x) \<in> {TRUNCATED_SENSITIVE, UNREADABLE}"
proof -
  have "fst (scrub_string R san (p @ x) new_budget) \<in> {Some TRUNCATED_SENSITIVE, None}" for san
  proof -
    have limit: "\<not> min (int MAX_STRING_LENGTH) (b_scan new_budget) \<le> 0"
      "min (int MAX_STRING_LENGTH) (b_scan new_budget) < int (length (p @ x))"
      "take (nat (min (int MAX_STRING_LENGTH) (b_scan new_budget))) (p @ x) = p"
      using assms(1,2) by (auto simp: new_budget_def MAX_EVENT_SCAN_def MAX_STRING_LENGTH_def)
    have "fst (and_then m (\<lambda>s b. and_then (f s b) (\<lambda>s b. (finish_scrub s p [] True, b))))
        \<in> {Some TRUNCATED_SENSITIVE, None}" for m :: "pystr run" and f :: "pystr \<Rightarrow> budget \<Rightarrow> pystr run"
      using assms(3) by (auto simp: and_then_def finish_scrub_def split: prod.splits option.splits)
    with limit assms(4-6) show ?thesis
      by (simp add: scrub_string_def hold_json_none del: length_append)
  qed
  then have "fst (scrub_within R k (p @ x) new_budget) \<in> {Some TRUNCATED_SENSITIVE, None}" for k
    by (cases k) simp_all
  from this [of MAX_JSON_NESTING] show ?thesis by (auto simp: scrub_text_def scrub_def)
qed

theorem scrub_text_cut_with_indicator_witness:
  "scrub_text ascii_runtime ((c_at # replicate 16383 97) @ [98]) \<in> {TRUNCATED_SENSITIVE, UNREADABLE}"
proof (rule scrub_text_cut_with_indicator)
  let ?p = "c_at # replicate 16383 97 :: pystr"
  have "rx_match (RxSet (\<lambda>c. c = c_at)) ?p 0 Map.empty \<noteq> []" by simp
  have "rx_match CUT_INDICATOR ?p 0 Map.empty \<noteq> []"
    by (simp add: CUT_INDICATOR_def rx_words_def lit_eval ci_eq_def)
  then show "rx_found CUT_INDICATOR ?p"
    unfolding rx_found_def using rx_search_None [of CUT_INDICATOR ?p 0] by auto
qed (simp_all add: MAX_STRING_LENGTH_def is_json_opener_def FRAGMENT_OPEN_def FRAGMENT_CLOSE_def list_ex_iff)

section \<open>Ambiguous characters\<close>

text \<open>
  A text holding a control character, a line break or another character the grammars
  disagree about comes out unchanged or masked whole, never masked in part.
\<close>

theorem scrub_text_ambiguous:
  assumes "list_ex is_ambiguous t" "\<not> has_escapes t" "\<not> list_ex is_json_opener t" "length t \<le> MAX_STRING_LENGTH"
    "FRAGMENT_OPEN \<notin> set t" "FRAGMENT_CLOSE \<notin> set t"
  shows "scrub_text R t \<in> {t, REDACTED, UNREADABLE}"
proof -
  have "fst (scrub R t new_budget) = fst (scrub_held R t False)"
    using assms by (intro scrub_quiet hold_json_none)
  then show ?thesis
    using scrub_held_ambiguous [of R t False] assms(1) by (auto simp: scrub_text_def split: option.split)
qed

theorem scrub_text_ambiguous_witness:
  "scrub_text ascii_runtime (lit ''pwd=x'' @ [c_nl] @ lit ''y'') \<in>
    {lit ''pwd=x'' @ [c_nl] @ lit ''y'', REDACTED, UNREADABLE}"
  by (rule scrub_text_ambiguous)
    (simp_all add: lit_eval has_escapes_def MAX_STRING_LENGTH_def FRAGMENT_OPEN_def FRAGMENT_CLOSE_def)

section \<open>Identifiers\<close>

text \<open>The characters of the identifier grammars.\<close>

definition is_identifier_char :: "pychar \<Rightarrow> bool" where
  "is_identifier_char c \<longleftrightarrow> is_aalnum c \<or> c \<in> {c_under, c_dot, c_dash, c_colon, c_plus, c_space}"

lemma identifier_chars: "rx_fullmatches (IDENTIFIER_GRAMMARS kind) t \<Longrightarrow> list_all is_identifier_char t"
  by (erule rx_fullmatches_only, cases kind)
    (auto simp: rx_python_name_def rx_dotted_name_def adigits_def is_identifier_char_def is_aalnum_def
      is_aalpha_def is_adigit_def is_aupper_def is_alower_def rx_ch_def lit_eval)

text \<open>
  \<open>trusted_identifier\<close> returns the fallback, or the value itself, which is then a non-empty
  string of at most 128 characters of the identifier alphabet that the scrubber leaves as it
  is. Nothing of a rejected value is kept.
\<close>

theorem trusted_identifier_correct:
  "trusted_identifier R v kind fallback = fallback \<or>
   (\<exists>t. v = VStr True t \<and> trusted_identifier R v kind fallback = t \<and> t \<noteq> [] \<and> length t \<le> MAX_IDENTIFIER_LENGTH
      \<and> rx_fullmatches (IDENTIFIER_GRAMMARS kind) t \<and> list_all is_identifier_char t \<and> scrub_text R t = t)"
  using identifier_chars
  by (auto simp: trusted_identifier_def scrub_text_def split: pyval.splits bool.splits if_splits)

end
