(* ===== verification/Exceptions.thy ===== *)
theory Exceptions
  imports Scrub
begin

text \<open>
  Exceptions, tracebacks and stacks (\<open>redaction.py\<close>, from \<open>_summary_part\<close> to \<open>stack_text\<close>), and the
  public entry points of the sanitiser that can meet an exception.

  An exception is a record of what the code reads from it: the qualified name of its class
  when that is an exact string, what its \<open>errors()\<close> returns, what \<open>str()\<close> returns, the members
  of a group, the linked exceptions, and the frames of its traceback. \<open>None\<close> for a text is a
  conversion that raises.
\<close>

section \<open>Exceptions as data\<close>

datatype loc_part = LocInt int | LocText pystr | LocOther

text \<open>
  One entry of \<open>errors()\<close>: the parts of its location (none when it is absent or not a list),
  its message and its type, each when it is an exact string.
\<close>

record problem =
  pr_loc :: "loc_part list"
  pr_msg :: "pystr option"
  pr_kind :: "pystr option"

text \<open>
  \<open>errors()\<close>: not callable or not a list, raising, or a list whose entries are exact
  dictionaries or something else.
\<close>

datatype errors_result = NoErrors | ErrorsRaise | Errors "problem option list"

text \<open>A frame: file name, line number, function name; \<open>None\<close> when it has no code object.\<close>

record frame =
  fr_code :: "(pyval \<times> pyval) option"
  fr_line :: pyval

record exception =
  ex_name :: "pystr option"
  ex_errors :: errors_result
  ex_str :: "pystr option"
  ex_group :: "nat list option"
  ex_cause :: "nat option"
  ex_context :: "nat option"
  ex_suppress :: bool
  ex_traceback :: "frame list option"

section \<open>Descriptions\<close>

definition type_name :: "exception \<Rightarrow> pystr" where
  "type_name e = (case ex_name e of
      Some n \<Rightarrow> if rx_fullmatches TYPE_NAME n then n else lit ''object'' | None \<Rightarrow> lit ''object'')"

definition shorten :: "nat \<Rightarrow> pystr \<Rightarrow> pystr" where
  "shorten limit t = (if length t \<le> limit then t else take limit t @ [c_space] @ TRUNCATED)"

definition summary_part :: "pyrt \<Rightarrow> pystr option \<Rightarrow> nat \<Rightarrow> budget \<Rightarrow> pystr run" where
  "summary_part R v limit b =
     (case v of
        None \<Rightarrow> (Some UNSUPPORTED, b)
      | Some t \<Rightarrow> and_then (scrub R t b) (\<lambda>s b. (Some (shorten limit s), b)))"

definition location_part :: "pyrt \<Rightarrow> loc_part \<Rightarrow> budget \<Rightarrow> pystr run" where
  "location_part R p b =
     (case p of
        LocInt i \<Rightarrow>
          (if bit_length i \<le> MAX_INT_BITS then (Some (py_str_int i), b)
           else summary_part R None MAX_SUBSCRIPT_LENGTH b)
      | LocText t \<Rightarrow> summary_part R (Some t) MAX_SUBSCRIPT_LENGTH b
      | LocOther \<Rightarrow> summary_part R None MAX_SUBSCRIPT_LENGTH b)"

fun run_list :: "('a \<Rightarrow> budget \<Rightarrow> 'b run) \<Rightarrow> 'a list \<Rightarrow> budget \<Rightarrow> 'b list run" where
  "run_list f [] b = (Some [], b)"
| "run_list f (x # xs) b =
     and_then (f x b) (\<lambda>y b. and_then (run_list f xs b) (\<lambda>ys b. (Some (y # ys), b)))"

definition problem_text :: "pyrt \<Rightarrow> problem \<Rightarrow> budget \<Rightarrow> pystr run" where
  "problem_text R p b =
     and_then (run_list (location_part R) (take MAX_DEPTH (pr_loc p)) b) (\<lambda>parts b.
     and_then (summary_part R (pr_msg p) MAX_KEY_LENGTH b) (\<lambda>message b.
     and_then (summary_part R (pr_kind p) MAX_SUBSCRIPT_LENGTH b) (\<lambda>kind b.
       let location = py_join [c_dot] parts in
       (Some ((if location = [] then lit ''<root>'' else location) @ lit '': '' @ message
          @ lit '' ['' @ kind @ lit '']''), b))))"

definition validation_summary :: "pyrt \<Rightarrow> exception \<Rightarrow> budget \<Rightarrow> pystr option run" where
  "validation_summary R e b =
     (case ex_errors e of
        NoErrors \<Rightarrow> (Some None, b)
      | ErrorsRaise \<Rightarrow> (None, b)
      | Errors es \<Rightarrow>
          and_then (run_list (problem_text R) (List.map_filter id (take MAX_SUMMARY_ERRORS es)) b)
            (\<lambda>problems b. (Some (Some (dec_digits (length es) @ lit '' validation error(s): ''
               @ py_join (lit ''; '') problems)), b)))"

definition exception_message :: "pyrt \<Rightarrow> exception \<Rightarrow> budget \<Rightarrow> pystr run" where
  "exception_message R e b =
     (let plain = (\<lambda>b. scrub R (case ex_str e of
             None \<Rightarrow> lit ''<unprintable message>'' | Some t \<Rightarrow> take (MAX_STRING_LENGTH + 1) t) b)
      in and_then (case validation_summary R e b of
             (Some (Some s), b1) \<Rightarrow> (Some s, b1)
           | (_, b1) \<Rightarrow> plain b1)
           (\<lambda>scrubbed b. (Some (shorten MAX_MESSAGE_LENGTH scrubbed), b)))"

text \<open>
  The members of a group. \<open>describe\<close> describes one member; the loop stops when no node is
  left.
\<close>

fun describe_members :: "(nat \<Rightarrow> budget \<Rightarrow> pystr run) \<Rightarrow> nat list \<Rightarrow> budget \<Rightarrow> pystr list run" where
  "describe_members describe [] b = (Some [], b)"
| "describe_members describe (m # ms) b =
     (if b_nodes b \<le> 0 then (Some [TRUNCATED], b)
      else and_then (describe m (spend_node b)) (\<lambda>t b.
        and_then (describe_members describe ms b) (\<lambda>ts b. (Some (t # ts), b))))"

text \<open>
  \<open>_describe_exception\<close>. The first number is the nesting of groups that still fits the
  interpreter's stack; beyond it the call raises \<open>RecursionError\<close>.
\<close>

primrec describe_within :: "pyrt \<Rightarrow> (nat \<Rightarrow> exception) \<Rightarrow> nat \<Rightarrow> nat \<Rightarrow> budget \<Rightarrow> pystr run" where
  "describe_within R E 0 e b = (None, b)"
| "describe_within R E (Suc room) e b =
     and_then (exception_message R (E e) b) (\<lambda>message b.
       let t = type_name (E e) @ lit '': '' @ message in
       case ex_group (E e) of
         None \<Rightarrow> (Some t, b)
       | Some members \<Rightarrow>
           and_then (describe_members (describe_within R E room) (take MAX_SUB_EXCEPTIONS members) b)
             (\<lambda>ts b. (Some (t @ lit '' ['' @ py_join (lit ''; '') ts @ lit '']''), b)))"

definition describe :: "pyrt \<Rightarrow> (nat \<Rightarrow> exception) \<Rightarrow> nat \<Rightarrow> budget \<Rightarrow> pystr run" where
  "describe R E = describe_within R E (rt_stack R)"

definition or_unreadable :: "pystr run \<Rightarrow> pystr" where
  "or_unreadable m = (case fst m of None \<Rightarrow> UNREADABLE | Some t \<Rightarrow> t)"

definition describe_exception :: "pyrt \<Rightarrow> (nat \<Rightarrow> exception) \<Rightarrow> nat \<Rightarrow> pystr" where
  "describe_exception R E e = or_unreadable (describe R E e new_budget)"

section \<open>Frames\<close>

definition frame_filename :: "pyrt \<Rightarrow> pyval \<Rightarrow> budget \<Rightarrow> pystr run" where
  "frame_filename R v b =
     (case v of
        VStr _ t \<Rightarrow>
          (if MAX_FILENAME_LENGTH < length t then (Some (lit ''<filename too long>''), b)
           else if t = [] \<or> \<not> list_all (is_printable R) t \<or> c_dquote \<in> set t \<or> list_ex is_ambiguous t
           then (Some (lit ''<unsafe filename>''), b)
           else and_then (scrub R t b) (\<lambda>s b. (Some (if s = t then t else lit ''<unsafe filename>''), b)))
      | _ \<Rightarrow> (Some (lit ''<unknown file>''), b))"

definition frame_text :: "pystr \<Rightarrow> pystr \<Rightarrow> pystr \<Rightarrow> pystr" where
  "frame_text filename number name =
     lit ''  File '' @ [c_dquote] @ filename @ [c_dquote] @ lit '', line '' @ number @ lit '', in '' @ name"

definition line_number :: "pyval \<Rightarrow> pystr" where
  "line_number v = (case v of
      VInt i \<Rightarrow> if 0 \<le> i \<and> i < 1000000000 then py_str_int i else lit ''?'' | _ \<Rightarrow> lit ''?'')"

definition frame_name :: "pyval \<Rightarrow> pystr" where
  "frame_name v = (case v of
      VStr True n \<Rightarrow> if rx_fullmatches FRAME_NAME n then n else lit ''<unknown>'' | _ \<Rightarrow> lit ''<unknown>'')"

definition frame_line :: "pyrt \<Rightarrow> frame \<Rightarrow> budget \<Rightarrow> pystr run" where
  "frame_line R f b =
     (let number = line_number (fr_line f);
          fallback = frame_text (lit ''<unsafe filename>'') number (lit ''<unknown>'')
      in case fr_code f of
           None \<Rightarrow> (Some fallback, b)
         | Some (file, name) \<Rightarrow>
             and_then (frame_filename R file b) (\<lambda>filename b.
               let line = frame_text filename number (frame_name name); stacked = line @ [c_nl] @ line in
               and_then (scrub R stacked b) (\<lambda>s b. (Some (if s = stacked then line else fallback), b))))"

text \<open>A \<open>deque(maxlen=n)\<close> that everything was appended to: the last \<open>n\<close>.\<close>

definition last_n :: "nat \<Rightarrow> 'a list \<Rightarrow> 'a list" where
  "last_n n xs = drop (length xs - n) xs"

definition traceback_frames :: "pyrt \<Rightarrow> frame list \<Rightarrow> budget \<Rightarrow> pystr list run" where
  "traceback_frames R trace b =
     and_then (run_list (frame_line R) (last_n MAX_TRACEBACK_FRAMES (take MAX_TRACEBACK_WALK trace)) b)
       (\<lambda>lines b. (Some (lines
          @ (if MAX_TRACEBACK_WALK < length trace then [[c_space, c_space] @ TRUNCATED] else [])), b))"

section \<open>Tracebacks\<close>

datatype link = Cause | Context

text \<open>The exceptions of the chain, newest first, each with how it is linked to the newer one.\<close>

fun exception_chain ::
  "(nat \<Rightarrow> exception) \<Rightarrow> nat \<Rightarrow> nat list \<Rightarrow> nat option \<Rightarrow> link option \<Rightarrow> (nat \<times> link option) list" where
  "exception_chain E 0 seen current l = []"
| "exception_chain E (Suc n) seen None l = []"
| "exception_chain E (Suc n) seen (Some e) l =
     (if e \<in> set seen then []
      else (e, l) #
        (case ex_cause (E e) of
           Some c \<Rightarrow> exception_chain E n (e # seen) (Some c) (Some Cause)
         | None \<Rightarrow> (case ex_context (E e) of
             Some c \<Rightarrow> if ex_suppress (E e) then [] else exception_chain E n (e # seen) (Some c) (Some Context)
           | None \<Rightarrow> [])))"

text \<open>A line and what replaces it if its message is withheld.\<close>

type_synonym tb_unit = "pystr \<times> pystr option"

definition link_lines :: "link option \<Rightarrow> tb_unit list" where
  "link_lines l =
     [([], None),
      (if l = Some Cause
       then lit ''The above exception was the direct cause of the following exception:''
       else lit ''During handling of the above exception, another exception occurred:'', None),
      ([], None)]"

definition trace_lines :: "pyrt \<Rightarrow> frame list option \<Rightarrow> budget \<Rightarrow> tb_unit list run" where
  "trace_lines R trace b =
     (case trace of
        None \<Rightarrow> (Some [], b)
      | Some frames \<Rightarrow> and_then (traceback_frames R frames b) (\<lambda>lines b.
          (Some ((lit ''Traceback (most recent call last):'', None) # map (\<lambda>line. (line, None)) lines), b)))"

text \<open>The block of one exception; \<open>older\<close> is the next of the chain.\<close>

definition exception_block ::
  "pyrt \<Rightarrow> (nat \<Rightarrow> exception) \<Rightarrow> nat \<Rightarrow> (nat \<times> link option) option \<Rightarrow> budget \<Rightarrow> tb_unit list run" where
  "exception_block R E e older b =
     and_then (trace_lines R (ex_traceback (E e)) b) (\<lambda>trace b.
     and_then (describe R E e b) (\<lambda>description b.
       (Some ((case older of None \<Rightarrow> [] | Some (_, l) \<Rightarrow> link_lines l) @ trace
          @ [(shorten MAX_DESCRIPTION_LENGTH description, Some (type_name (E e) @ lit '': '' @ REDACTED))]), b)))"

definition block_length :: "tb_unit list \<Rightarrow> int" where
  "block_length us = int (sum_list (map (\<lambda>(line, _). length line) us) + length us)"

text \<open>The blocks, newest first, and whether all of them fit the limits.\<close>

fun traceback_blocks ::
  "pyrt \<Rightarrow> (nat \<Rightarrow> exception) \<Rightarrow> int \<Rightarrow> int \<Rightarrow> (nat \<times> link option) list \<Rightarrow> budget
    \<Rightarrow> (tb_unit list list \<times> bool) run" where
  "traceback_blocks R E lines_left length_left [] b = (Some ([], True), b)"
| "traceback_blocks R E lines_left length_left ((e, _) # chain) b =
     and_then (exception_block R E e (case chain of [] \<Rightarrow> None | c # _ \<Rightarrow> Some c) b) (\<lambda>block b.
       if lines_left < int (length block) \<or> length_left < block_length block then (Some ([], False), b)
       else and_then (traceback_blocks R E (lines_left - int (length block))
              (length_left - block_length block) chain b)
         (\<lambda>(blocks, complete) b. (Some (block # blocks, complete), b)))"

definition traceback_units :: "pyrt \<Rightarrow> (nat \<Rightarrow> exception) \<Rightarrow> nat \<Rightarrow> budget \<Rightarrow> tb_unit list run" where
  "traceback_units R E e b =
     and_then (traceback_blocks R E MAX_TRACEBACK_LINES MAX_TRACEBACK_LENGTH
         (exception_chain E MAX_EXCEPTION_CHAIN [] (Some e) None) b)
       (\<lambda>(blocks, complete) b.
          (Some ((if complete then [] else [(TRUNCATED, None)]) @ concat (rev blocks)), b))"

definition traceback_lines :: "pyrt \<Rightarrow> (nat \<Rightarrow> exception) \<Rightarrow> nat \<Rightarrow> pystr list" where
  "traceback_lines R E e =
     (case fst (traceback_units R E e new_budget) of None \<Rightarrow> [UNREADABLE] | Some us \<Rightarrow> map fst us)"

text \<open>\<open>_is_emitted_unchanged\<close>; \<open>None\<close> when the scrubber raises.\<close>

definition is_emitted_unchanged :: "pyrt \<Rightarrow> pystr \<Rightarrow> bool option" where
  "is_emitted_unchanged R t =
     (if MAX_STRING_LENGTH < length t then Some False
      else map_option (\<lambda>s. s = t) (fst (scrub R t new_budget)))"

definition is_masked_unit :: "tb_unit \<Rightarrow> bool" where
  "is_masked_unit u = (case u of (line, withheld) \<Rightarrow>
     withheld \<noteq> None \<and> (py_in REDACTED line \<or> py_in TRUNCATED_SENSITIVE line))"

definition unit_forms :: "tb_unit list \<Rightarrow> pystr list list" where
  "unit_forms us =
     [map fst us,
      map (\<lambda>i. if is_masked_unit (us ! i) \<and> i < length us - 1 then fst (us ! i) @ [c_space] else fst (us ! i))
        [0 ..< length us],
      map (\<lambda>u. if is_masked_unit u then (case snd u of Some w \<Rightarrow> if w \<noteq> [] then w else fst u | None \<Rightarrow> fst u) else fst u) us,
      map (\<lambda>u. case snd u of None \<Rightarrow> fst u | Some w \<Rightarrow> w) us]"

text \<open>The first form the scrubber emits unchanged.\<close>

fun first_unchanged :: "pyrt \<Rightarrow> pystr list list \<Rightarrow> pystr option" where
  "first_unchanged R [] = Some REDACTED"
| "first_unchanged R (lines # forms) =
     (let t = py_join [c_nl] lines in
        case is_emitted_unchanged R t of
          None \<Rightarrow> None
        | Some True \<Rightarrow> Some t
        | Some False \<Rightarrow> first_unchanged R forms)"

definition traceback_text :: "pyrt \<Rightarrow> (nat \<Rightarrow> exception) \<Rightarrow> nat \<Rightarrow> pystr" where
  "traceback_text R E e =
     (case fst (traceback_units R E e new_budget) of
        None \<Rightarrow> UNREADABLE
      | Some us \<Rightarrow> (case first_unchanged R (unit_forms us) of None \<Rightarrow> UNREADABLE | Some t \<Rightarrow> t))"

definition render_exception :: "pyrt \<Rightarrow> (nat \<Rightarrow> exception) \<Rightarrow> nat \<Rightarrow> pystr" where
  "render_exception R E e = traceback_text R E e @ [c_nl]"

section \<open>Stacks\<close>

text \<open>\<open>frames\<close> from the innermost outwards.\<close>

definition stack_lines :: "pyrt \<Rightarrow> frame list \<Rightarrow> pystr list" where
  "stack_lines R frames =
     (case fst (run_list (frame_line R) (take MAX_TRACEBACK_FRAMES frames) new_budget) of
        None \<Rightarrow> [UNREADABLE]
      | Some lines \<Rightarrow> rev (lines @ [lit ''Stack (most recent call last):''
          @ (if length frames \<le> MAX_TRACEBACK_FRAMES then [] else [c_space] @ TRUNCATED)]))"

definition stack_text :: "pyrt \<Rightarrow> frame list \<Rightarrow> pystr" where
  "stack_text R frames =
     (let t = py_join [c_nl] (stack_lines R frames) in
        case is_emitted_unchanged R t of None \<Rightarrow> UNREADABLE | Some True \<Rightarrow> t | Some False \<Rightarrow> REDACTED)"

section \<open>Entry points of the sanitiser\<close>

text \<open>The objects of the caller: containers and exceptions.\<close>

record world =
  w_heap :: "nat \<Rightarrow> container"
  w_exc :: "nat \<Rightarrow> exception"

definition top_ctx :: "pyrt \<Rightarrow> world \<Rightarrow> ctx" where
  "top_ctx R W = \<lparr>x_rt = R, x_heap = w_heap W, x_scrub = scrub R, x_describe = describe R (w_exc W),
     x_nested = False\<rparr>"

definition sanitize :: "pyrt \<Rightarrow> world \<Rightarrow> pyval \<Rightarrow> safe" where
  "sanitize R W v =
     (case fst (sanitize_at (top_ctx R W) 0 v new_budget) of None \<Rightarrow> SStr UNREADABLE | Some w \<Rightarrow> w)"

text \<open>\<open>None\<close> when it raises.\<close>

definition sanitize_event ::
  "pyrt \<Rightarrow> world \<Rightarrow> container \<Rightarrow> pystr list \<Rightarrow> pystr list \<Rightarrow> pystr list \<Rightarrow> (pystr \<times> safe) list option" where
  "sanitize_event R W event skip leading assembled =
     fst (sanitize_event_with (top_ctx R W) event skip leading assembled new_budget)"

section \<open>What describing an exception spends\<close>

abbreviation "json_slack \<equiv> MAX_JSON_NESTING"

lemma run_list_spends:
  assumes "\<And>x b. run_spends s b (f x b)"
  shows "run_spends s b (run_list f xs b)"
  by (induction xs arbitrary: b) (auto intro!: run_spends_and_then assms)

lemma summary_part_spends: "run_spends json_slack b (summary_part R v limit b)"
  by (auto simp: summary_part_def intro!: run_spends_and_then [OF scrub_spends] split: option.split)

lemma location_part_spends: "run_spends json_slack b (location_part R p b)"
  by (auto simp: location_part_def summary_part_spends split: loc_part.split)

lemma problem_text_spends: "run_spends json_slack b (problem_text R p b)"
  unfolding problem_text_def
  by (auto simp: Let_def intro!: run_spends_and_then [OF run_list_spends] location_part_spends
      run_spends_and_then [OF summary_part_spends])

lemma validation_summary_spends: "run_spends json_slack b (validation_summary R e b)"
  unfolding validation_summary_def
  by (auto intro!: run_spends_and_then [OF run_list_spends] problem_text_spends split: errors_result.split)

lemma exception_message_spends: "run_spends json_slack b (exception_message R e b)"
proof -
  obtain r b1 where v: "validation_summary R e b = (r, b1)" by fastforce
  then have sp: "spends json_slack b b1" using validation_summary_spends [of b R e] by simp
  have plain: "run_spends json_slack b (scrub R t b1)" for t
    by (rule run_spends_trans [OF sp scrub_spends])
  have "run_spends json_slack b (and_then m (\<lambda>s b. (Some (shorten MAX_MESSAGE_LENGTH s), b)))"
    if "run_spends json_slack b m" for m
    by (rule run_spends_and_then [OF that]) simp
  then show ?thesis
    unfolding exception_message_def Let_def v using sp plain
    by (cases r; cases "the r") simp_all
qed

lemma describe_members_spends:
  assumes "\<And>m b. run_spends json_slack b (f m b)"
  shows "run_spends json_slack b (describe_members f ms b)"
proof (induction ms arbitrary: b)
  case (Cons m ms)
  have "run_spends json_slack b (and_then (f m (spend_node b)) (\<lambda>t b.
      and_then (describe_members f ms b) (\<lambda>ts b. (Some (t # ts), b))))" if "0 < b_nodes b"
  proof (rule run_spends_trans)
    show "spends json_slack b (spend_node b)" using that by (simp add: spend_node_spends)
  qed (auto intro!: run_spends_and_then [OF assms] run_spends_and_then [OF Cons])
  then show ?case by simp
qed simp

lemma describe_within_spends: "run_spends json_slack b (describe_within R E room e b)"
proof (induction room arbitrary: e b)
  case (Suc room)
  show ?case
    by (auto simp: Let_def intro!: run_spends_and_then [OF exception_message_spends]
        run_spends_and_then [OF describe_members_spends] Suc split: option.split)
qed simp

lemma describe_spends: "run_spends json_slack b (describe R E e b)"
  unfolding describe_def by (rule describe_within_spends)

interpretation top: sanitizer "top_ctx R W" json_slack for R W
  by unfold_locales (simp_all add: top_ctx_def scrub_spends describe_spends)

section \<open>Bounded output\<close>

text \<open>No budget falls below \<open>- (MAX_JSON_NESTING + 1)\<close> nodes.\<close>

definition MAX_OUTPUT_VALUES :: nat where
  "MAX_OUTPUT_VALUES = 3 * (2048 + 17)"

lemma nodes_spent:
  assumes "spends (Suc json_slack) new_budget b"
  shows "3 * (b_nodes new_budget - b_nodes b) \<le> int MAX_OUTPUT_VALUES"
  using assms
  by (simp add: spends_def new_budget_def MAX_EVENT_NODES_def MAX_JSON_NESTING_def MAX_OUTPUT_VALUES_def)

text \<open>
  C28: Whatever object it is given, cyclic, shared, hostile or endless, \<open>sanitize\<close> returns a tree
  of built-in values: at most \<open>MAX_DEPTH\<close> levels of containers, at most \<open>MAX_ITEMS + 1\<close> entries
  in each, distinct keys, integers of at most 128 bits, and at most 6,195 values in all.
\<close>

theorem sanitize_bounded:
  "bounded MAX_DEPTH (sanitize R W v) \<and> safe_size (sanitize R W v) \<le> MAX_OUTPUT_VALUES"
proof -
  obtain r b where m: "sanitize_at (top_ctx R W) 0 v new_budget = (r, b)" by fastforce
  have g: "good (Suc json_slack) MAX_DEPTH new_budget (r, b)"
    using top.sanitize_at_good [where R = R and W = W and depth = 0 and v = v and b = new_budget] m by simp
  show ?thesis
  proof (cases r)
    case None
    then show ?thesis by (simp add: sanitize_def m MAX_OUTPUT_VALUES_def)
  next
    case (Some w)
    moreover have "\<not> exhausted new_budget"
      by (simp add: exhausted_def new_budget_def MAX_EVENT_NODES_def MAX_EVENT_OUTPUT_def)
    ultimately have "bounded MAX_DEPTH w" "int (safe_size w) \<le> 3 * (b_nodes new_budget - b_nodes b)"
      using g by (simp_all add: good_def)
    moreover have "spends (Suc json_slack) new_budget b" using g by (simp add: good_def)
    ultimately show ?thesis using nodes_spent [of b] Some by (simp add: sanitize_def m)
  qed
qed

text \<open>
  C29: The same for an event: distinct field names, at most \<open>MAX_EVENT_FIELDS\<close> fields beside the
  leading ones and one marker, each field bounded as above.
\<close>

theorem sanitize_event_bounded:
  "case sanitize_event R W event skip leading assembled of
     None \<Rightarrow> True
   | Some out \<Rightarrow> entries_ok (MAX_DEPTH - 1) out
       \<and> length out \<le> MAX_EVENT_FIELDS + length leading + 1"
proof (cases "sanitize_event R W event skip leading assembled")
  case (Some out)
  then obtain b where "sanitize_event_with (top_ctx R W) event skip leading assembled new_budget = (Some out, b)"
    by (cases "sanitize_event_with (top_ctx R W) event skip leading assembled new_budget")
      (simp add: sanitize_event_def)
  from top.sanitize_event_good [OF this] show ?thesis by (simp add: Some)
qed simp

section \<open>Constructed tracebacks\<close>

lemma emitted_unchanged:
  "is_emitted_unchanged R t = Some True \<Longrightarrow> scrub_text R t = t \<and> length t \<le> MAX_STRING_LENGTH"
  by (auto simp: is_emitted_unchanged_def scrub_text_def split: if_splits)

lemma first_unchanged_emitted:
  "first_unchanged R forms = Some t \<Longrightarrow> t = REDACTED \<or> is_emitted_unchanged R t = Some True"
  by (induction forms) (auto simp: Let_def split: option.splits bool.splits)

text \<open>
  A constructed traceback is a text of at most \<open>MAX_STRING_LENGTH\<close> characters that the
  scrubber, reading it whole, emits exactly as it is; or one of two fixed markers.
\<close>

theorem traceback_text_emitted_unchanged:
  "traceback_text R E e \<in> {UNREADABLE, REDACTED} \<or>
   (scrub_text R (traceback_text R E e) = traceback_text R E e
     \<and> length (traceback_text R E e) \<le> MAX_STRING_LENGTH)"
  using emitted_unchanged first_unchanged_emitted [of R]
  by (auto simp: traceback_text_def split: option.split)

text \<open>The same for the stack of a log call.\<close>

lemma stack_text_emitted_unchanged:
  "stack_text R frames \<in> {UNREADABLE, REDACTED} \<or>
   (scrub_text R (stack_text R frames) = stack_text R frames \<and> length (stack_text R frames) \<le> MAX_STRING_LENGTH)"
  using emitted_unchanged [of R] by (auto simp: stack_text_def Let_def split: option.split bool.split)

end
