(* ===== verification/LogFields.thy ===== *)
theory LogFields
  imports Exceptions
begin

text \<open>
  \<open>platform/infrastructure/observability/logging.py\<close>, part one: the fields of an event. Which
  names stand for operational metadata, the bounded admission of call and context fields,
  the replacement of \<open>exc_info\<close> and \<open>stack_info\<close>, and the redaction processor.

  An event is a Python \<open>dict\<close> with string keys, in insertion order. Values that come from a
  library the source only calls (the level structlog computes from the method name, its time
  stamp) are fields of the record that describes a call.
\<close>

section \<open>Names\<close>

text \<open>\<open>_IDENTITY_FALLBACKS\<close>, with the grammar of each name.\<close>

definition IDENTITY_FALLBACKS :: "(pystr \<times> identifier_kind \<times> pystr) list" where
  "IDENTITY_FALLBACKS =
     [(lit ''timestamp'', Timestamp, lit ''unknown''),
      (lit ''level'', LevelName, lit ''unknown''),
      (lit ''logger'', LoggerName, lit ''untrusted_logger''),
      (lit ''service'', ServiceName, lit ''untrusted_service''),
      (lit ''environment'', EnvironmentName, lit ''untrusted_environment''),
      (lit ''request_id'', RequestId, lit ''untrusted_request_id'')]"

definition IDENTITY_NAMES :: "pystr list" where
  "IDENTITY_NAMES = map fst IDENTITY_FALLBACKS"

definition PROCESSOR_META_KEYS :: "pystr list" where
  "PROCESSOR_META_KEYS = [lit ''_record'', lit ''_from_structlog'']"

definition LEADING_FIELDS :: "pystr list" where
  "LEADING_FIELDS = [lit ''event'', lit ''exception'', lit ''stack'']"

definition ASSEMBLED_FIELDS :: "pystr list" where
  "ASSEMBLED_FIELDS = [lit ''exception'', lit ''stack'']"

definition NOT_PAYLOAD :: "pystr list" where
  "NOT_PAYLOAD = IDENTITY_NAMES @ PROCESSOR_META_KEYS"

definition UNCOUNTED :: "pystr list" where
  "UNCOUNTED = NOT_PAYLOAD @ LEADING_FIELDS @ [lit ''exc_info'', lit ''stack_info'']"

definition STRUCTLOG_KEY_PREFIX :: pystr where
  "STRUCTLOG_KEY_PREFIX = lit ''structlog_''"

definition FIELDS_NOTE :: pystr where
  "FIELDS_NOTE = lit ''event field limit reached''"

definition MAX_CONTEXT_VARIABLES :: nat where
  "MAX_CONTEXT_VARIABLES = 4 * MAX_EVENT_FIELDS"

definition RESERVED :: pystr where "RESERVED = lit ''[RESERVED]''"
definition RESERVED_NOTE :: pystr where "RESERVED_NOTE = lit ''reserved field names removed''"
definition MAX_SKIPPED_FRAMES :: nat where "MAX_SKIPPED_FRAMES = 64"

lemmas name_defs =
  IDENTITY_FALLBACKS_def IDENTITY_NAMES_def PROCESSOR_META_KEYS_def LEADING_FIELDS_def NOT_PAYLOAD_def
  UNCOUNTED_def

section \<open>Dictionaries\<close>

type_synonym 'v dict = "(pystr \<times> 'v) list"

text \<open>\<open>d.setdefault(k, v)\<close>, \<open>d.pop(k, None)\<close>, and \<open>for k, v in d.items(): e.setdefault(k, v)\<close>.\<close>

definition dict_default :: "'v dict \<Rightarrow> pystr \<Rightarrow> 'v \<Rightarrow> 'v dict" where
  "dict_default d k v = (if map_of d k = None then d @ [(k, v)] else d)"

definition dict_pop :: "'v dict \<Rightarrow> pystr \<Rightarrow> 'v dict" where
  "dict_pop d k = filter (\<lambda>(k', v). k' \<noteq> k) d"

definition dict_defaults :: "'v dict \<Rightarrow> 'v dict \<Rightarrow> 'v dict" where
  "dict_defaults d e = foldl (\<lambda>d (k, v). dict_default d k v) d e"

lemma map_of_default: "map_of (dict_default d k v) k' = (if k' = k \<and> map_of d k = None then Some v else map_of d k')"
  by (auto simp: dict_default_def map_add_def split: option.splits)

lemma map_of_pop: "map_of (dict_pop d k) = (map_of d)(k := None)"
  by (induction d) (auto simp: dict_pop_def fun_eq_iff)

lemma map_of_defaults: "map_of (dict_defaults d e) k = (case map_of d k of Some v \<Rightarrow> Some v | None \<Rightarrow> map_of e k)"
  unfolding dict_defaults_def
  by (induction e arbitrary: d) (auto simp: map_of_default split: option.splits)

section \<open>Values\<close>

text \<open>A sanitised value read again as a value: fresh containers of the pipeline.\<close>

fun value_of :: "safe \<Rightarrow> pyval" where
  "value_of SNone = VNone"
| "value_of (SBool x) = VBool x"
| "value_of (SInt i) = VInt i"
| "value_of (SFloat r) = VFloat r"
| "value_of (SStr s) = VStr True s"
| "value_of (SList vs) = VList (map value_of vs)"
| "value_of (SDict d) = VDict (map (\<lambda>(k, v). (k, value_of v)) d)"

text \<open>What the registry of structlog has under a name; a variable with its value, if it is bound.\<close>

datatype registered = NoVariable | Variable "pyval option"

text \<open>
  \<open>bool(v)\<close>; \<open>None\<close> when it raises, as \<open>len()\<close> of a container may. \<open>other\<close> is the answer of
  objects whose type decides for itself.
\<close>

fun truthy :: "(nat \<Rightarrow> container) \<Rightarrow> (pyval \<Rightarrow> bool option) \<Rightarrow> pyval \<Rightarrow> bool option" where
  "truthy H other VNone = Some False"
| "truthy H other (VBool x) = Some x"
| "truthy H other (VInt i) = Some (i \<noteq> 0)"
| "truthy H other (VFloat r) = Some (r \<noteq> lit ''0.0'' \<and> r \<noteq> lit ''-0.0'')"
| "truthy H other (VStr _ t) = Some (t \<noteq> [])"
| "truthy H other (VList vs) = Some (vs \<noteq> [])"
| "truthy H other (VDict d) = Some (d \<noteq> [])"
| "truthy H other (VRef i) = map_option (\<lambda>n. n \<noteq> 0) (co_len (H i))"
| "truthy H other v = other v"

section \<open>One logging call\<close>

record call =
  ca_world :: world
  ca_error :: exception                     \<comment> \<open>the exception of a step that raises\<close>
  ca_logger :: pyval                        \<comment> \<open>\<open>getattr(logger, "name", None)\<close>\<close>
  ca_level :: pyval                         \<comment> \<open>from \<open>structlog.stdlib.add_log_level\<close>\<close>
  ca_stamp :: pyval                         \<comment> \<open>from \<open>structlog.processors.TimeStamper\<close>\<close>
  ca_registry :: "(pystr \<times> registered) list option" \<comment> \<open>structlog's \<open>_CONTEXT_VARS\<close>; \<open>None\<close> unless a \<open>dict\<close>\<close>
  ca_context :: "(pystr \<times> pyval option) list" \<comment> \<open>the context; \<open>None\<close> is a field unbound again\<close>
  ca_server_request_id :: "pyval option"    \<comment> \<open>of \<open>current_request_context()\<close>\<close>
  ca_frames :: "(pystr option \<times> frame) list" \<comment> \<open>the calling frames with their modules\<close>
  ca_truth :: "pyval \<Rightarrow> bool option"      \<comment> \<open>\<open>bool()\<close> of an object that decides for itself\<close>
  ca_raised :: "nat option"                 \<comment> \<open>\<open>sys.exc_info()[1]\<close>\<close>

section \<open>Context fields\<close>

definition REQUEST_ID_VARIABLE :: pystr where
  "REQUEST_ID_VARIABLE = STRUCTLOG_KEY_PREFIX @ lit ''request_id''"

text \<open>\<open>_context_request_id\<close>; \<open>None\<close> is \<open>_MISSING\<close>.\<close>

definition ca_bound_request_id :: "call \<Rightarrow> pyval option" where
  "ca_bound_request_id C =
     (case ca_registry C of
        None \<Rightarrow> None
      | Some registry \<Rightarrow>
          (case map_of registry REQUEST_ID_VARIABLE of
             Some (Variable (Some v)) \<Rightarrow> Some v
           | _ \<Rightarrow> None))"

definition count_uncounted :: "'v dict \<Rightarrow> nat" where
  "count_uncounted d = length (filter (\<lambda>k. map_of d k \<noteq> None) (remdups UNCOUNTED))"

text \<open>
  One variable of the context: the places left and the event after it, or \<open>None\<close> when its field
  has no place left.
\<close>

definition merge_field :: "pyval option \<Rightarrow> int \<Rightarrow> pystr \<Rightarrow> pyval option \<Rightarrow> pyval dict \<Rightarrow> (int \<times> pyval dict) option" where
  "merge_field bound room name found ev =
     (let key = drop (length STRUCTLOG_KEY_PREFIX) name in
      if \<not> starts_at name STRUCTLOG_KEY_PREFIX 0 then Some (room, ev)
      else if key = lit ''request_id'' then
        Some (room, case (bound, found) of (None, Some v) \<Rightarrow> dict_set ev key v | _ \<Rightarrow> ev)
      else if map_of ev key \<noteq> None \<or> key \<in> set IDENTITY_NAMES then Some (room, ev)
      else case found of
        None \<Rightarrow> Some (room, ev)
      | Some v \<Rightarrow>
          if room \<le> 0 \<and> key \<notin> set UNCOUNTED then None
          else Some (if key \<in> set UNCOUNTED then room else room - 1, dict_set ev key v))"

text \<open>The loop over the context.\<close>

fun merge_loop :: "pyval option \<Rightarrow> nat \<Rightarrow> int \<Rightarrow> (pystr \<times> pyval option) list \<Rightarrow> pyval dict \<Rightarrow> pyval dict" where
  "merge_loop bound examined room [] ev = ev"
| "merge_loop bound examined room ((name, found) # vars) ev =
     (if MAX_CONTEXT_VARIABLES \<le> examined then dict_default ev TRUNCATED (VStr True FIELDS_NOTE)
      else case merge_field bound room name found ev of
        None \<Rightarrow> dict_default ev TRUNCATED (VStr True FIELDS_NOTE)
      | Some (room', ev') \<Rightarrow> merge_loop bound (Suc examined) room' vars ev')"

definition merge_bounded_contextvars :: "call \<Rightarrow> pyval dict \<Rightarrow> pyval dict" where
  "merge_bounded_contextvars C ev =
     (let ev1 = (case ca_bound_request_id C of None \<Rightarrow> ev | Some v \<Rightarrow> dict_set ev (lit ''request_id'') v)
      in merge_loop (ca_bound_request_id C) 0
           (int MAX_EVENT_FIELDS - int (length ev1) + int (count_uncounted ev1)) (ca_context C) ev1)"

section \<open>Stacks and tracebacks\<close>

definition is_logging_module :: "pystr \<Rightarrow> bool" where
  "is_logging_module name \<longleftrightarrow> starts_at name (lit ''structlog'') 0 \<or> starts_at name (lit ''logging'') 0
     \<or> starts_at name (lit ''voice_agent.platform.infrastructure.observability.logging'') 0"

fun calling_frames :: "nat \<Rightarrow> (pystr option \<times> frame) list \<Rightarrow> (pystr option \<times> frame) list" where
  "calling_frames (Suc n) ((Some name, f) # fs) =
     (if is_logging_module name then calling_frames n fs else (Some name, f) # fs)"
| "calling_frames n fs = fs"

text \<open>\<open>None\<close> when the truth value of the field raises.\<close>

definition render_stack_info :: "pyrt \<Rightarrow> call \<Rightarrow> pyval dict \<Rightarrow> pyval dict option" where
  "render_stack_info R C ev =
     (let rest = dict_pop ev (lit ''stack_info'') in
      case truthy (w_heap (ca_world C)) (ca_truth C) (case map_of ev (lit ''stack_info'') of None \<Rightarrow> VNone | Some v \<Rightarrow> v) of
        None \<Rightarrow> None
      | Some False \<Rightarrow> Some rest
      | Some True \<Rightarrow> Some (dict_set rest (lit ''stack'')
          (VStr True (stack_text R (map snd (calling_frames MAX_SKIPPED_FRAMES (ca_frames C)))))))"

text \<open>The exception an \<open>exc_info\<close> stands for.\<close>

definition exc_info_exception :: "call \<Rightarrow> pyval \<Rightarrow> nat option" where
  "exc_info_exception C v =
     (case v of
        VExc e \<Rightarrow> Some e
      | VRef i \<Rightarrow>
          (let c = w_heap (ca_world C) i in
             if co_type c = TupleType \<and> co_len c = Some 3 then
               (case co_items c of [_, VExc e, _] \<Rightarrow> Some e | _ \<Rightarrow> None)
             else ca_raised C)
      | _ \<Rightarrow> ca_raised C)"

definition render_exc_info :: "pyrt \<Rightarrow> call \<Rightarrow> pyval dict \<Rightarrow> pyval dict option" where
  "render_exc_info R C ev =
     (let rest = dict_pop ev (lit ''exc_info''); v = (case map_of ev (lit ''exc_info'') of None \<Rightarrow> VNone | Some v \<Rightarrow> v) in
      case truthy (w_heap (ca_world C)) (ca_truth C) v of
        None \<Rightarrow> None
      | Some False \<Rightarrow> Some rest
      | Some True \<Rightarrow> Some (case exc_info_exception C v of
          None \<Rightarrow> rest
        | Some e \<Rightarrow> dict_set rest (lit ''exception'') (VStr True (traceback_text R (w_exc (ca_world C)) e))))"

section \<open>Redaction of an event\<close>

definition event_container :: "pyval dict \<Rightarrow> container" where
  "event_container ev = \<lparr>co_kind = Mapping, co_type = ExactDict, co_len = Some (int (length ev)),
     co_entries = map (\<lambda>(k, v). (VStr True k, v)) ev, co_items = [], co_fails = False\<rparr>"

definition sanitized_fields :: "pyrt \<Rightarrow> call \<Rightarrow> pyval dict \<Rightarrow> safe dict option" where
  "sanitized_fields R C ev =
     sanitize_event R (ca_world C) (event_container ev) NOT_PAYLOAD LEADING_FIELDS ASSEMBLED_FIELDS"

text \<open>\<open>_identity\<close>, and the validation of one identifier.\<close>

definition identity_value :: "pyrt \<Rightarrow> pystr \<Rightarrow> pyval \<Rightarrow> pystr" where
  "identity_value R key v =
     (case map_of IDENTITY_FALLBACKS key of
        None \<Rightarrow> [] | Some (kind, fallback) \<Rightarrow> trusted_identifier R v kind fallback)"

definition identity_of :: "pyrt \<Rightarrow> pyval dict \<Rightarrow> pystr dict" where
  "identity_of R ev =
     concat (map (\<lambda>key. case map_of ev key of None \<Rightarrow> [] | Some v \<Rightarrow> [(key, identity_value R key v)]) IDENTITY_NAMES)"

definition text_fields :: "pystr dict \<Rightarrow> safe dict" where
  "text_fields d = map (\<lambda>(k, t). (k, SStr t)) d"

text \<open>\<open>{"event": event, "error_type": ..., **identity}\<close>\<close>

definition failure_event :: "pystr dict \<Rightarrow> pystr \<Rightarrow> exception \<Rightarrow> safe dict" where
  "failure_event identity event err =
     [(lit ''event'', SStr event), (lit ''error_type'', SStr (type_name err))] @ text_fields identity"

definition redact_sensitive_fields :: "pyrt \<Rightarrow> call \<Rightarrow> pyval dict \<Rightarrow> safe dict" where
  "redact_sensitive_fields R C ev =
     (let identity = identity_of R ev in
      case sanitized_fields R C ev of
        None \<Rightarrow> failure_event identity (lit ''log_event_redaction_failed'') (ca_error C)
      | Some fs \<Rightarrow> dict_defaults (text_fields identity) fs)"

section \<open>Admission\<close>

definition admitted :: "'v dict \<Rightarrow> (pystr \<Rightarrow> 'v) \<Rightarrow> int \<Rightarrow> 'v dict" where
  "admitted values of_text room =
     (if int (length values) \<le> room then values
      else let apart = concat (map (\<lambda>k. case map_of values k of None \<Rightarrow> [] | Some v \<Rightarrow> [(k, v)]) (remdups UNCOUNTED));
               kept = take (nat (max 0 room)) (filter (\<lambda>(k, v). k \<notin> set UNCOUNTED) values);
               marked = (if length kept + length apart < length values
                         then dict_set kept TRUNCATED (of_text FIELDS_NOTE) else kept)
           in foldl (\<lambda>d (k, v). dict_set d k v) marked apart)"

end
