(* ===== verification/LogTemplates.thy ===== *)
theory LogTemplates
  imports PyText
begin

text \<open>
  \<open>_is_bounded_template\<close> of \<open>logging.py\<close>: the scan that decides whether \<open>template % args\<close> may be
  evaluated, and, written independently of it, the interpreter's own reading of a format string,
  which it is compared with.
\<close>

section \<open>The scan\<close>

definition MAX_FORMAT_TEMPLATE_LENGTH :: nat where "MAX_FORMAT_TEMPLATE_LENGTH = 16384"
definition MAX_FORMAT_WIDTH :: nat where "MAX_FORMAT_WIDTH = 256"
definition MAX_FORMAT_DIRECTIVES :: nat where "MAX_FORMAT_DIRECTIVES = 64"

definition is_format_flag :: "pychar \<Rightarrow> bool" where
  "is_format_flag c \<longleftrightarrow> c = c_dash \<or> c = c_plus \<or> c = c_space \<or> c = c_hash \<or> c = 48"

text \<open>The index after an optional \<open>(key)\<close>; \<open>None\<close> if it cannot be delimited.\<close>

definition after_key :: "pystr \<Rightarrow> nat \<Rightarrow> nat option" where
  "after_key t i =
     (if starts_at t [c_lpar] i then
        (case py_find t [c_rpar] i (length t) of
           None \<Rightarrow> None
         | Some closing \<Rightarrow>
             if py_find t [c_lpar] (i + 1) closing \<noteq> None then None else Some (closing + 1))
      else Some i)"

text \<open>The index after a width or a precision; \<open>None\<close> if it is not acceptable.\<close>

definition after_number :: "pystr \<Rightarrow> nat \<Rightarrow> nat option" where
  "after_number t i =
     (if starts_at t [c_star] i then None
      else let e = run_end is_adigit t i in
        if 3 < e - i \<or> (i < e \<and> MAX_FORMAT_WIDTH < dec_value (slice t i e)) then None else Some e)"

text \<open>The index of the conversion character of the directive whose \<open>%\<close> is at \<open>i\<close>.\<close>

definition after_directive :: "pystr \<Rightarrow> nat \<Rightarrow> nat option" where
  "after_directive t i =
     (case after_key t (i + 1) of
        None \<Rightarrow> None
      | Some j \<Rightarrow> (case after_number t (run_end is_format_flag t j) of
          None \<Rightarrow> None
        | Some e \<Rightarrow> if starts_at t [c_dot] e then after_number t (e + 1) else Some e))"

lemma after_key_bounds: "after_key t i = Some j \<Longrightarrow> i \<le> j"
  by (auto simp: after_key_def dest: py_find_SomeD split: if_splits option.splits)

lemma after_number_bounds: "after_number t i = Some j \<Longrightarrow> i \<le> j"
  using run_end_ge [of i is_adigit t] by (auto simp: after_number_def Let_def simp del: run_end_ge split: if_splits)

lemma after_directive_bounds:
  assumes "after_directive t i = Some e"
  shows "i < e"
proof -
  from assms obtain j k where j: "after_key t (i + 1) = Some j"
    and k: "after_number t (run_end is_format_flag t j) = Some k"
    and e: "e = k \<or> after_number t (k + 1) = Some e"
    by (auto simp: after_directive_def split: option.splits if_splits)
  have "i + 1 \<le> j" by (rule after_key_bounds [OF j])
  moreover have "j \<le> run_end is_format_flag t j" by simp
  ultimately show ?thesis using after_number_bounds [OF k] e after_number_bounds [of t "k + 1" e] by linarith
qed

function template_loop :: "pystr \<Rightarrow> nat \<Rightarrow> nat \<Rightarrow> bool" where
  "template_loop t directives index =
     (case py_find t [c_percent] index (length t) of
        None \<Rightarrow> True
      | Some i \<Rightarrow> (case after_directive t i of
          None \<Rightarrow> False
        | Some e \<Rightarrow>
            if MAX_FORMAT_DIRECTIVES < directives + 1 then False
            else template_loop t (directives + 1) (e + 1)))"
  by pat_completeness auto
termination
proof (relation "measure (\<lambda>(t, directives, index). length t - index)")
  fix t and directives index i e :: nat
  assume "py_find t [c_percent] index (length t) = Some i" "after_directive t i = Some e"
  from py_find_SomeD [OF this(1)] after_directive_bounds [OF this(2)]
  show "((t, directives + 1, e + 1), t, directives, index) \<in> measure (\<lambda>(t, directives, index). length t - index)"
    by auto
qed simp

declare template_loop.simps [simp del]

definition is_bounded_template :: "pystr \<Rightarrow> bool" where
  "is_bounded_template t \<longleftrightarrow> length t \<le> MAX_FORMAT_TEMPLATE_LENGTH \<and> template_loop t 0 0"

section \<open>The interpreter's reading\<close>

text \<open>
  How CPython 3.12 evaluates \<open>template % args\<close> (\<open>unicode_format_arg_parse\<close>), written on the rest of
  the text and with none of the scan's helpers. After a percent sign, a second one stands for
  itself; otherwise there follow an optional key in parentheses, which may nest, flags, a width
  and after a dot a precision, each of digits or \<open>*\<close> for an argument, a length modifier, which
  is skipped, and a conversion. Anything else raises, and nothing behind it is evaluated.
\<close>

datatype field_size = FromArguments | Digits pystr

record directive =
  d_key :: "pystr option"
  d_width :: field_size
  d_precision :: "field_size option"
  d_conversion :: pychar

text \<open>The key up to the parenthesis that closes it, with the number of inner ones open.\<close>

fun key_text :: "nat \<Rightarrow> pystr \<Rightarrow> (pystr \<times> pystr) option" where
  "key_text depth [] = None"
| "key_text depth (c # u) =
     (if c = c_rpar \<and> depth = 0 then Some ([], u)
      else map_option (map_prod ((#) c) id)
        (key_text (if c = c_lpar then depth + 1 else if c = c_rpar then depth - 1 else depth) u))"

definition read_key :: "pystr \<Rightarrow> (pystr option \<times> pystr) option" where
  "read_key u =
     (case u of
        [] \<Rightarrow> Some (None, [])
      | c # u' \<Rightarrow> if c = c_lpar then map_option (map_prod Some id) (key_text 0 u') else Some (None, u))"

definition read_size :: "pystr \<Rightarrow> field_size \<times> pystr" where
  "read_size u =
     (case u of
        [] \<Rightarrow> (Digits [], [])
      | c # u' \<Rightarrow> if c = c_star then (FromArguments, u') else (Digits (takeWhile is_adigit u), dropWhile is_adigit u))"

definition read_precision :: "pystr \<Rightarrow> field_size option \<times> pystr" where
  "read_precision u =
     (case u of
        [] \<Rightarrow> (None, [])
      | c # u' \<Rightarrow> if c = c_dot then map_prod Some id (read_size u') else (None, u))"

definition read_conversion :: "pystr \<Rightarrow> (pychar \<times> pystr) option" where
  "read_conversion u =
     (case (case u of [] \<Rightarrow> [] | c # u' \<Rightarrow> if c \<in> set (lit ''hlL'') then u' else u) of
        [] \<Rightarrow> None
      | c # v \<Rightarrow> if c \<in> set (lit ''diouxXeEfFgGcrsa'') then Some (c, v) else None)"

text \<open>The directive behind a percent sign and the rest; \<open>None\<close> when evaluating it raises.\<close>

definition read_directive :: "pystr \<Rightarrow> (directive \<times> pystr) option" where
  "read_directive u =
     (case u of
        c # v \<Rightarrow>
          (if c = c_percent
           then Some (\<lparr>d_key = None, d_width = Digits [], d_precision = None, d_conversion = c_percent\<rparr>, v)
           else case read_key u of
             None \<Rightarrow> None
           | Some (k, u1) \<Rightarrow>
               (let (w, u2) = read_size (dropWhile (\<lambda>c. c \<in> set (lit ''-+ #0'')) u1);
                    (p, u3) = read_precision u2
                in map_option (\<lambda>(c, rest). (\<lparr>d_key = k, d_width = w, d_precision = p, d_conversion = c\<rparr>, rest))
                     (read_conversion u3)))
      | [] \<Rightarrow> None)"

lemma key_text_split: "key_text depth u = Some (k, r) \<Longrightarrow> u = k @ c_rpar # r"
  by (induction depth u arbitrary: k rule: key_text.induct) (auto split: if_splits)

text \<open>Before its first inner parenthesis a key has no closing one.\<close>

lemma key_text_outer: "key_text 0 u = Some (k, r) \<Longrightarrow> c_rpar \<notin> set (takeWhile (\<lambda>c. c \<noteq> c_lpar) k)"
  by (induction u arbitrary: k) (auto split: if_splits)

lemma read_key_length: "read_key u = Some (k, r) \<Longrightarrow> length r \<le> length u"
  by (auto simp: read_key_def dest!: key_text_split split: list.splits if_splits)

lemma read_size_length: "length (snd (read_size u)) \<le> length u"
  using length_dropWhile_le [of is_adigit u] by (auto simp: read_size_def split: list.split)

lemma read_precision_length: "length (snd (read_precision u)) \<le> length u"
  using read_size_length [of "tl u"] by (auto simp: read_precision_def split: list.split)

lemma read_conversion_length: "read_conversion u = Some (c, r) \<Longrightarrow> length r \<le> length u"
  by (auto simp: read_conversion_def split: list.splits if_splits)

lemma read_directive_length:
  assumes "read_directive u = Some (d, r)"
  shows "length r \<le> length u"
proof (cases "\<exists>v. u = c_percent # v")
  case True
  with assms show ?thesis by (auto simp: read_directive_def)
next
  case False
  then obtain k u1 c where "read_key u = Some (k, u1)"
    and "read_conversion (snd (read_precision (snd (read_size (dropWhile (\<lambda>c. c \<in> set (lit ''-+ #0'')) u1))))) = Some (c, r)"
    using assms by (auto simp: read_directive_def Let_def split_beta split: list.splits option.splits if_splits)
  from read_key_length [OF this(1)] read_conversion_length [OF this(2)]
    read_precision_length read_size_length length_dropWhile_le show ?thesis
    by (meson le_trans)
qed

text \<open>
  The directives that are evaluated, in order, and whether the evaluation gets to the end of
  the text.
\<close>

function reading :: "pystr \<Rightarrow> directive list \<times> bool" where
  "reading [] = ([], True)"
| "reading (c # u) =
     (if c \<noteq> c_percent then reading u
      else case read_directive u of
        None \<Rightarrow> ([], False)
      | Some (d, rest) \<Rightarrow> map_prod ((#) d) id (reading rest))"
  by pat_completeness auto
termination by (relation "measure length") (auto dest: read_directive_length)

declare reading.simps [simp del]

lemma reading_unfold:
  "reading u = (case dropWhile (\<lambda>c. c \<noteq> c_percent) u of
     [] \<Rightarrow> ([], True)
   | c # v \<Rightarrow> (case read_directive v of
       None \<Rightarrow> ([], False) | Some (d, rest) \<Rightarrow> map_prod ((#) d) id (reading rest)))"
  by (induction u) (simp_all add: reading.simps)

section \<open>The scan against the reading\<close>

text \<open>
  A size that is written out and at most 256; one that is moreover spelled with at most three
  digits; and directives of such sizes, the latter with a key that has no parenthesis in it.
\<close>

definition modest_size :: "field_size \<Rightarrow> bool" where
  "modest_size s = (case s of FromArguments \<Rightarrow> False | Digits ds \<Rightarrow> dec_value ds \<le> MAX_FORMAT_WIDTH)"

definition modest :: "directive \<Rightarrow> bool" where
  "modest d \<longleftrightarrow> modest_size (d_width d) \<and> (case d_precision d of None \<Rightarrow> True | Some p \<Rightarrow> modest_size p)"

definition short_size :: "field_size \<Rightarrow> bool" where
  "short_size s \<longleftrightarrow> modest_size s \<and> (\<forall>ds. s = Digits ds \<longrightarrow> length ds \<le> 3)"

definition plain :: "directive \<Rightarrow> bool" where
  "plain d \<longleftrightarrow> short_size (d_width d) \<and> (case d_precision d of None \<Rightarrow> True | Some p \<Rightarrow> short_size p)
     \<and> (case d_key d of None \<Rightarrow> True | Some k \<Rightarrow> c_lpar \<notin> set k)"

lemma plain_modest: "plain d \<Longrightarrow> modest d"
  by (auto simp: plain_def modest_def short_size_def split: option.splits)

lemma drop_next: "drop i t = c # u \<Longrightarrow> drop (Suc i) t = u"
  by (metis drop_Suc list.sel(3) tl_drop)

lemma drop_at: "drop i t = c # u \<Longrightarrow> i < length t \<and> t ! i = c"
  by (metis Cons_nth_drop_Suc drop_all linorder_not_le list.discI list.inject)

lemma nth_at:
  assumes "drop i t = a @ b" "i \<le> j" "j < i + length a"
  shows "t ! j = a ! (j - i)"
proof -
  have "i < length t" using assms by (cases "i < length t") auto
  then have "t ! j = drop i t ! (j - i)" using assms(2) by simp
  also have "\<dots> = a ! (j - i)" unfolding assms(1) using assms(2,3) by (simp add: nth_append less_diff_conv2)
  finally show ?thesis .
qed

lemma not_in_piece:
  assumes "drop i t = a @ b" "c \<notin> set a" "i \<le> j" "j < i + length a"
  shows "t ! j \<noteq> c"
proof -
  have "j - i < length a" using assms(3,4) by linarith
  then have "a ! (j - i) \<noteq> c" using assms(2) by (metis nth_mem)
  then show ?thesis using nth_at [OF assms(1,3,4)] by simp
qed

lemma find_here:
  assumes "drop i t = a @ c # b" "c \<notin> set a"
  shows "py_find t [c] i (length t) = Some (i + length a)"
proof -
  have n: "i + length a < length t" using arg_cong [OF assms(1), of length] by simp
  have "t ! j \<noteq> c" if "i \<le> j \<and> j < i + length a" for j
    using not_in_piece [OF assms, of j] that by simp
  moreover have "t ! (i + length a) = c" using nth_at [of i t "a @ [c]" b "i + length a"] assms(1) by simp
  ultimately show ?thesis unfolding py_find_char using n by simp
qed

lemma find_nowhere: "c \<notin> set (drop i t) \<Longrightarrow> py_find t [c] i (length t) = None"
  unfolding py_find_char_None by (auto simp: in_set_conv_nth) (metis add_diff_inverse_nat diff_less_mono linorder_not_le)

lemma find_reading:
  "reading (drop index t) = (case py_find t [c_percent] index (length t) of
     None \<Rightarrow> ([], True)
   | Some i \<Rightarrow> (case read_directive (drop (i + 1) t) of
       None \<Rightarrow> ([], False) | Some (d, rest) \<Rightarrow> map_prod ((#) d) id (reading rest)))"
proof (cases "c_percent \<in> set (drop index t)")
  case True
  then obtain a v where v: "drop index t = a @ c_percent # v" "c_percent \<notin> set a" by (meson split_list_first)
  from v(1) have "drop (index + length a) t = c_percent # v" by (metis add.commute append_eq_conv_conj drop_drop)
  then have "drop (index + length a + 1) t = v" by (simp add: drop_next)
  moreover have "dropWhile (\<lambda>c. c \<noteq> c_percent) (a @ c_percent # v) = c_percent # v"
    using v(2) by (induction a) auto
  ultimately show ?thesis using find_here [OF v] by (simp add: reading_unfold [of "a @ c_percent # v"] v(1))
next
  case False
  then have "dropWhile (\<lambda>c. c \<noteq> c_percent) (drop index t) = []" by (auto simp: dropWhile_eq_Nil_conv)
  then show ?thesis unfolding find_nowhere [OF False] reading_unfold [of "drop index t"] by (simp only: list.case option.case)
qed

text \<open>Part by part: where the reading ends is where the scan goes on, or the scan refuses.\<close>

lemma scan_key:
  assumes "drop i t = u" "i \<le> length t" "read_key u = Some (k, r)"
  shows "if (case k of None \<Rightarrow> True | Some x \<Rightarrow> c_lpar \<notin> set x)
    then \<exists>j. after_key t i = Some j \<and> drop j t = r \<and> j \<le> length t else after_key t i = None"
proof (cases k)
  case None
  with assms(3) have "r = u" "\<nexists>v. u = c_lpar # v"
    by (auto simp: read_key_def split: list.splits if_splits)
  then have "\<not> (i < length t \<and> t ! i = c_lpar)" using assms(1) Cons_nth_drop_Suc [of i t] by metis
  then show ?thesis using None assms(1,2) \<open>r = u\<close> by (auto simp: after_key_def)
next
  case (Some x)
  with assms(3) obtain v where v: "u = c_lpar # v" "key_text 0 v = Some (x, r)"
    by (auto simp: read_key_def split: list.splits if_splits)
  have here: "drop i t = (c_lpar # x) @ c_rpar # r" using key_text_split [OF v(2)] v(1) assms(1) by simp
  then have behind: "drop (Suc i) t = x @ c_rpar # r" by (simp add: drop_next)
  have opened: "i < length t" "t ! i = c_lpar" using drop_at [of i t c_lpar] here by auto
  show ?thesis
  proof (cases "c_lpar \<in> set x")
    case False
    then have "takeWhile (\<lambda>c. c \<noteq> c_lpar) x = x" by (auto simp: takeWhile_eq_all_conv)
    with key_text_outer [OF v(2)] have "c_rpar \<notin> set (c_lpar # x)" by simp
    from find_here [OF here this] have closing: "py_find t [c_rpar] i (length t) = Some (Suc (i + length x))" by simp
    have "t ! j \<noteq> c_lpar" if "i + 1 \<le> j \<and> j < Suc (i + length x)" for j
      using not_in_piece [OF behind False, of j] that by simp
    then have inner: "py_find t [c_lpar] (i + 1) (Suc (i + length x)) = None" unfolding py_find_char_None by simp
    have "drop (length x) (drop (Suc i) t) = c_rpar # r" using behind by simp
    then have close: "drop (Suc (i + length x)) t = c_rpar # r" by (simp add: add.commute)
    have "drop (Suc (Suc (i + length x))) t = r" "Suc (Suc (i + length x)) \<le> length t"
      using drop_next [OF close] drop_at [OF close] by simp_all
    moreover have "after_key t i = Some (Suc (Suc (i + length x)))"
      using closing inner opened by (simp add: after_key_def)
    ultimately show ?thesis using Some False by simp
  next
    case True
    then obtain a b where ab: "x = a @ c_lpar # b" "c_lpar \<notin> set a" by (meson split_list_first)
    then have "takeWhile (\<lambda>c. c \<noteq> c_lpar) x = a" by (auto simp: takeWhile_tail)
    with key_text_outer [OF v(2)] have outer: "c_rpar \<notin> set (c_lpar # a @ [c_lpar])" by simp
    have start: "drop i t = (c_lpar # a @ [c_lpar]) @ b @ c_rpar # r" using here ab by simp
    have "Suc (i + length a) < m" if "py_find t [c_rpar] i (length t) = Some m" for m
    proof (rule ccontr)
      assume "\<not> Suc (i + length a) < m"
      with that have m: "i \<le> m" "m < i + length (c_lpar # a @ [c_lpar])" "t ! m = c_rpar"
        by (auto simp: py_find_char)
      with not_in_piece [OF start outer m(1,2)] show False by simp
    qed
    moreover have "t ! Suc (i + length a) = c_lpar" "Suc (i + length a) < length t"
      using nth_at [OF start, of "Suc (i + length a)"] arg_cong [OF start, of length] by (simp_all add: nth_append)
    ultimately have "py_find t [c_lpar] (i + 1) m \<noteq> None" if "py_find t [c_rpar] i (length t) = Some m" for m
      using that unfolding py_find_char_None by (auto intro!: exI [of _ "Suc (i + length a)"])
    then show ?thesis using True Some opened by (auto simp: after_key_def split: option.split)
  qed
qed

text \<open>A run of the scan's characters and what is dropped of the rest.\<close>

lemma drop_run: "drop (run_end p t i) t = dropWhile p (drop i t)"
  by (metis add.commute drop_drop dropWhile_eq_drop run_end_def)

lemma slice_run: "slice t i (run_end p t i) = takeWhile p (drop i t)"
  by (simp add: slice_def run_end_def) (metis takeWhile_eq_take)

lemma format_flags: "is_format_flag = (\<lambda>c. c \<in> set (lit ''-+ #0''))"
  by (auto simp: is_format_flag_def lit_eval)

lemma scan_size:
  assumes "drop i t = u" "i \<le> length t" "read_size u = (w, r)"
  shows "if short_size w then \<exists>e. after_number t i = Some e \<and> drop e t = r \<and> e \<le> length t else after_number t i = None"
proof (cases "\<exists>v. u = c_star # v")
  case True
  then obtain v where v: "u = c_star # v" ..
  with assms(1) have "drop i t = c_star # v" by simp
  with drop_at [OF this] v assms(3) show ?thesis
    by (auto simp: read_size_def after_number_def short_size_def modest_size_def)
next
  case False
  then have star: "\<not> (i < length t \<and> t ! i = c_star)" using assms(1) Cons_nth_drop_Suc [of i t] by metis
  let ?e = "run_end is_adigit t i" and ?ds = "takeWhile is_adigit u"
  have w: "w = Digits ?ds" "r = dropWhile is_adigit u"
    using False assms(3) by (auto simp: read_size_def split: list.splits if_splits)
  have e: "drop ?e t = r" "slice t i ?e = ?ds" "?e \<le> length t"
    using assms(1) w(2) run_end_le [OF assms(2)] by (simp_all add: drop_run slice_run)
  have n: "?e - i = length ?ds" using assms(1) by (simp add: run_end_def)
  have "i < ?e \<longleftrightarrow> ?ds \<noteq> []" using assms(1) by (simp add: run_end_def)
  moreover have "dec_value [] \<le> MAX_FORMAT_WIDTH" by (simp add: dec_value_def MAX_FORMAT_WIDTH_def)
  ultimately have "after_number t i = (if short_size w then Some ?e else None)"
    using star e n by (auto simp: after_number_def Let_def w(1) short_size_def modest_size_def simp del: takeWhile_eq_Nil_iff)
  with e show ?thesis by simp
qed

lemma scan_precision:
  assumes "drop i t = u" "i \<le> length t" "read_precision u = (p, r)"
  defines "scan \<equiv> (if starts_at t [c_dot] i then after_number t (i + 1) else Some i)"
  shows "if (case p of None \<Rightarrow> True | Some s \<Rightarrow> short_size s)
    then \<exists>e. scan = Some e \<and> drop e t = r \<and> e \<le> length t else scan = None"
proof (cases "\<exists>v. u = c_dot # v")
  case True
  then obtain v where v: "u = c_dot # v" ..
  with assms(1) have at: "i < length t" "t ! i = c_dot" "drop (Suc i) t = v"
    using drop_at [of i t c_dot v] drop_next [of i t c_dot v] by auto
  obtain w where "read_size v = (w, r)" "p = Some w"
    using assms(3) v by (cases "read_size v") (auto simp: read_precision_def)
  with scan_size [OF at(3) _ this(1)] at show ?thesis by (auto simp: scan_def)
next
  case False
  then have "\<not> (i < length t \<and> t ! i = c_dot)" using assms(1) Cons_nth_drop_Suc [of i t] by metis
  moreover have "p = None" "r = u" using False assms(3) by (auto simp: read_precision_def split: list.splits if_splits)
  ultimately show ?thesis using assms(1,2) by (auto simp: scan_def)
qed

text \<open>
  The conversion: the scan steps over one character, which is the conversion or the modifier
  before it, and looks for the next percent sign.
\<close>

lemma scan_conversion:
  assumes "drop e t = u" "read_conversion u = Some (c, r)"
  shows "reading (drop (e + 1) t) = reading r"
proof (cases u)
  case Nil
  with assms(2) show ?thesis by (simp add: read_conversion_def)
next
  case (Cons m v)
  then have rest: "drop (e + 1) t = v" using drop_next assms(1) by (metis Suc_eq_plus1)
  show ?thesis
  proof (cases "m \<in> set (lit ''hlL'')")
    case True
    with assms(2) Cons obtain "v = c # r" "c \<in> set (lit ''diouxXeEfFgGcrsa'')"
      by (auto simp: read_conversion_def split: list.splits if_splits)
    then have "v = c # r" "c \<noteq> c_percent" by (auto simp: lit_eval)
    with rest show ?thesis by (simp add: reading.simps)
  next
    case False
    with assms(2) Cons rest show ?thesis by (auto simp: read_conversion_def split: if_splits)
  qed
qed

text \<open>A whole directive: the scan accepts the plain ones and goes on with the same reading.\<close>

lemma scan_directive:
  assumes "read_directive (drop (i + 1) t) = Some (d, r)" "i < length t"
  shows "if plain d then \<exists>e. after_directive t i = Some e \<and> reading (drop (e + 1) t) = reading r
    else after_directive t i = None"
proof (cases "\<exists>v. drop (i + 1) t = c_percent # v")
  case True
  then obtain v where v: "drop (i + 1) t = c_percent # v" ..
  have d: "d = \<lparr>d_key = None, d_width = Digits [], d_precision = None, d_conversion = c_percent\<rparr>" "r = v"
    using assms(1) v by (simp_all add: read_directive_def)
  have "plain d" by (simp add: d(1) plain_def short_size_def modest_size_def dec_value_def MAX_FORMAT_WIDTH_def)
  moreover have "after_directive t i = Some (i + 1)"
    using drop_at [OF v]
    by (simp add: after_directive_def after_key_def after_number_def run_end_here is_format_flag_def is_adigit_def)
  moreover have "drop (i + 1 + 1) t = v" using drop_next [OF v] by simp
  ultimately show ?thesis using d(2) by simp
next
  case False
  let ?u = "drop (i + 1) t"
  have "?u \<noteq> []" using assms(1) by (auto simp: read_directive_def)
  then obtain x v where x: "?u = x # v" "x \<noteq> c_percent" using False by (cases ?u) auto
  with assms(1) obtain k u1 where key: "read_key ?u = Some (k, u1)"
    by (auto simp: read_directive_def split: option.splits)
  obtain w u2 where size: "read_size (dropWhile (\<lambda>c. c \<in> set (lit ''-+ #0'')) u1) = (w, u2)" by force
  obtain p u3 where precision: "read_precision u2 = (p, u3)" by force
  from assms(1) x key size precision obtain c where "read_conversion u3 = Some (c, r)"
    "d = \<lparr>d_key = k, d_width = w, d_precision = p, d_conversion = c\<rparr>"
    by (auto simp: read_directive_def)
  note parts = key size precision this
  have plain: "plain d \<longleftrightarrow> short_size w \<and> (case p of None \<Rightarrow> True | Some p \<Rightarrow> short_size p)
      \<and> (case k of None \<Rightarrow> True | Some k \<Rightarrow> c_lpar \<notin> set k)"
    by (simp add: plain_def parts(5))
  have "i + 1 \<le> length t" using assms(2) by simp
  note key = scan_key [OF refl this parts(1)]
  show ?thesis
  proof (cases "case k of None \<Rightarrow> True | Some k \<Rightarrow> c_lpar \<notin> set k")
    case ok: True
    with key obtain j where j: "after_key t (i + 1) = Some j" "drop j t = u1" "j \<le> length t" by auto
    let ?f = "run_end is_format_flag t j"
    have f: "drop ?f t = dropWhile (\<lambda>c. c \<in> set (lit ''-+ #0'')) u1" "?f \<le> length t"
      using j(2) run_end_le [OF j(3)] by (simp_all add: drop_run format_flags)
    note size = scan_size [OF f(1,2) parts(2)]
    show ?thesis
    proof (cases "short_size w")
      case True
      with size obtain e where e: "after_number t ?f = Some e" "drop e t = u2" "e \<le> length t" by auto
      note precision = scan_precision [OF e(2,3) parts(3)]
      have "after_directive t i = (if starts_at t [c_dot] e then after_number t (e + 1) else Some e)"
        by (simp only: after_directive_def j(1) e(1) option.case)
      with precision True ok plain scan_conversion [OF _ parts(4)] show ?thesis by (auto split: if_splits)
    next
      case False
      with size have "after_number t ?f = None" by simp
      with False plain show ?thesis by (simp only: after_directive_def j(1) option.case simp_thms if_False)
    qed
  next
    case False
    with key have "after_key t (i + 1) = None" by (simp only: if_False)
    with False plain show ?thesis by (simp only: after_directive_def option.case simp_thms if_False)
  qed
qed

text \<open>What the interpreter evaluates of an accepted template.\<close>

lemma accepted_reading:
  "template_loop t n index \<Longrightarrow> list_all plain (fst (reading (drop index t)))
     \<and> (fst (reading (drop index t)) = [] \<or> n + length (fst (reading (drop index t))) \<le> MAX_FORMAT_DIRECTIVES)"
proof (induction t n index rule: template_loop.induct)
  case (1 t n index)
  show ?case
  proof (cases "py_find t [c_percent] index (length t)")
    case None
    then show ?thesis by (simp add: find_reading [of index])
  next
    case found: (Some i)
    then have i: "i < length t" by (simp add: py_find_char)
    from "1.prems" obtain e where e: "after_directive t i = Some e" "\<not> MAX_FORMAT_DIRECTIVES < n + 1" "template_loop t (n + 1) (e + 1)"
      unfolding template_loop.simps [of t n index] by (auto simp: found split: option.splits if_splits)
    show ?thesis
    proof (cases "read_directive (drop (i + 1) t)")
      case None
      with found show ?thesis by (simp add: find_reading [of index])
    next
      case (Some dr)
      obtain d r where dr: "dr = (d, r)" by (cases dr)
      from scan_directive [OF Some [unfolded dr] i] e(1) have "plain d" "reading (drop (e + 1) t) = reading r"
        by (auto split: if_splits)
      with "1.IH" [OF found e] e(2) found Some dr show ?thesis
        by (auto simp: find_reading [of index] map_prod_def split_beta)
    qed
  qed
qed

text \<open>A template that is read to its end is accepted when all it holds is plain.\<close>

lemma plain_reading_accepted:
  "snd (reading (drop index t)) \<Longrightarrow> list_all plain (fst (reading (drop index t)))
    \<Longrightarrow> n + length (fst (reading (drop index t))) \<le> MAX_FORMAT_DIRECTIVES \<Longrightarrow> template_loop t n index"
proof (induction t n index rule: template_loop.induct)
  case (1 t n index)
  show ?case
  proof (cases "py_find t [c_percent] index (length t)")
    case None
    then show ?thesis by (simp add: template_loop.simps [of t n index])
  next
    case found: (Some i)
    then have i: "i < length t" by (simp add: py_find_char)
    from "1.prems"(1) found obtain d r where d: "read_directive (drop (i + 1) t) = Some (d, r)"
      by (auto simp: find_reading [of index] split: option.splits)
    with found have reading: "reading (drop index t) = map_prod ((#) d) id (reading r)"
      by (simp add: find_reading [of index])
    with "1.prems"(2) have "plain d" by simp
    with scan_directive [OF d i] obtain e where e: "after_directive t i = Some e" "reading (drop (e + 1) t) = reading r"
      by auto
    have "\<not> MAX_FORMAT_DIRECTIVES < n + 1" using "1.prems"(3) reading by simp
    from "1.IH" [OF found e(1) this] "1.prems" reading e(2) have "template_loop t (n + 1) (e + 1)" by simp
    with found e(1) \<open>\<not> MAX_FORMAT_DIRECTIVES < n + 1\<close> show ?thesis by (simp add: template_loop.simps [of t n index])
  qed
qed

text \<open>
  C6: Every directive that the interpreter evaluates of a template the scan accepts has a width
  and a precision of at most 256, none of them taken from an argument, and there are at most
  64: formatting adds at most 64 times 512 characters to what the arguments call for, wherever
  the interpreter may stop with an error. And of the templates it reads to the end, the scan
  accepts exactly the short ones with at most 64 directives of such sizes that spell a size
  with at most three digits and have no parenthesis inside a key.
\<close>

theorem is_bounded_template_iff:
  "(is_bounded_template t \<longrightarrow> length t \<le> MAX_FORMAT_TEMPLATE_LENGTH
      \<and> length (fst (reading t)) \<le> MAX_FORMAT_DIRECTIVES \<and> list_all modest (fst (reading t)))
   \<and> (snd (reading t) \<longrightarrow> (is_bounded_template t \<longleftrightarrow> length t \<le> MAX_FORMAT_TEMPLATE_LENGTH
      \<and> length (fst (reading t)) \<le> MAX_FORMAT_DIRECTIVES \<and> list_all plain (fst (reading t))))"
proof -
  have accepted: "length (fst (reading t)) \<le> MAX_FORMAT_DIRECTIVES \<and> list_all plain (fst (reading t))"
    if "is_bounded_template t"
    using that accepted_reading [of t 0 0] by (auto simp: is_bounded_template_def)
  moreover have "list_all modest ds" if "list_all plain ds" for ds
    using that plain_modest by (auto simp: list_all_iff)
  moreover have "is_bounded_template t" if "snd (reading t)" "length t \<le> MAX_FORMAT_TEMPLATE_LENGTH"
    "length (fst (reading t)) \<le> MAX_FORMAT_DIRECTIVES" "list_all plain (fst (reading t))"
    using that plain_reading_accepted [of 0 t 0] by (simp add: is_bounded_template_def)
  ultimately show ?thesis by (auto simp: is_bounded_template_def)
qed

text \<open>Two templates that are read to the end, one that the interpreter refuses half way.\<close>

lemma template_readings:
  "reading (lit ''%-8.3lf %(k)s%%'') = (
     [\<lparr>d_key = None, d_width = Digits (lit ''8''), d_precision = Some (Digits (lit ''3'')), d_conversion = 102\<rparr>,
      \<lparr>d_key = Some (lit ''k''), d_width = Digits [], d_precision = None, d_conversion = 115\<rparr>,
      \<lparr>d_key = None, d_width = Digits [], d_precision = None, d_conversion = c_percent\<rparr>], True)"
  "reading (lit ''%300d'') = ([\<lparr>d_key = None, d_width = Digits (lit ''300''), d_precision = None, d_conversion = 100\<rparr>], True)"
  "reading (lit ''%l%d'') = ([], False)"
  by (simp_all add: reading.simps read_directive_def read_key_def read_size_def read_precision_def read_conversion_def
      lit_eval is_adigit_def)

theorem is_bounded_template_iff_witness:
  "is_bounded_template (lit ''%-8.3lf %(k)s%%'') \<and> \<not> is_bounded_template (lit ''%300d'')"
proof -
  note sizes = plain_def short_size_def modest_size_def modest_def dec_value_def MAX_FORMAT_WIDTH_def
    MAX_FORMAT_TEMPLATE_LENGTH_def MAX_FORMAT_DIRECTIVES_def
  have "length (lit ''%-8.3lf %(k)s%%'') \<le> MAX_FORMAT_TEMPLATE_LENGTH"
    "length (fst (reading (lit ''%-8.3lf %(k)s%%''))) \<le> MAX_FORMAT_DIRECTIVES"
    "list_all plain (fst (reading (lit ''%-8.3lf %(k)s%%'')))" "snd (reading (lit ''%-8.3lf %(k)s%%''))"
    unfolding template_readings by (simp_all add: sizes lit_eval)
  moreover have "\<not> list_all modest (fst (reading (lit ''%300d'')))"
    unfolding template_readings by (simp add: sizes lit_eval)
  ultimately show ?thesis using is_bounded_template_iff by blast
qed

end
