(* ===== verification/LogPipeline.thy ===== *)
theory LogPipeline
  imports LogFields LogTemplates
begin

text \<open>
  \<open>logging.py\<close>, part two: the bounded logger, the two instances of \<open>_EventPipeline\<close>, and the
  handler that never writes an unsanitised record.

  What lies between them belongs to structlog and to the standard library: the event dict
  structlog's formatter builds from a record (\<open>layout\<close>, which also interpolates the message)
  and the renderer that lays the final event out as a line (\<open>render\<close>). Both are arguments
  of the handler; \<open>None\<close> means that they raise.
\<close>

section \<open>The bounded logger\<close>

definition text_marker :: "pystr \<Rightarrow> pyval" where
  "text_marker t = VStr True t"

definition dict_update :: "'v dict \<Rightarrow> 'v dict \<Rightarrow> 'v dict" where
  "dict_update d e = foldl (\<lambda>d (k, v). dict_set d k v) d e"

definition logger_bind :: "pyval dict \<Rightarrow> pyval dict \<Rightarrow> pyval dict" where
  "logger_bind bound new_values =
     dict_update bound (admitted new_values text_marker (int MAX_EVENT_FIELDS - int (length bound)))"

definition logger_new :: "pyval dict \<Rightarrow> pyval dict" where
  "logger_new new_values = dict_update [] (admitted new_values text_marker (int MAX_EVENT_FIELDS))"

text \<open>\<open>_process_event\<close>: structlog copies the bound context and adds the fields of the call.\<close>

definition logger_event :: "pyval dict \<Rightarrow> pyval dict \<Rightarrow> pyval dict" where
  "logger_event bound event_kw = dict_update bound (admitted event_kw text_marker (int MAX_EVENT_FIELDS))"

section \<open>Operational metadata\<close>

text \<open>The service and environment an instance was configured with, already validated.\<close>

record pipeline =
  pl_service :: pystr
  pl_environment :: pystr

text \<open>
  A record of the standard library: its attributes (whatever a caller attached included), the
  ISO form of its creation time when that is a float in range, and the truth value of its
  arguments.
\<close>

record log_record =
  lr_attributes :: "pyval dict"
  lr_created_iso :: "pystr option"

definition attribute :: "log_record \<Rightarrow> pystr \<Rightarrow> pyval" where
  "attribute rec name = (case map_of (lr_attributes rec) name of None \<Rightarrow> VNone | Some v \<Rightarrow> v)"

definition establish_identity :: "pyrt \<Rightarrow> pipeline \<Rightarrow> call \<Rightarrow> pystr dict" where
  "establish_identity R P C =
     [(lit ''level'', identity_value R (lit ''level'') (ca_level C)),
      (lit ''logger'', identity_value R (lit ''logger'') (ca_logger C)),
      (lit ''service'', pl_service P),
      (lit ''environment'', pl_environment P),
      (lit ''timestamp'', identity_value R (lit ''timestamp'') (ca_stamp C))]"

definition record_identity :: "pyrt \<Rightarrow> log_record \<Rightarrow> pystr \<times> pystr" where
  "record_identity R rec =
     (identity_value R (lit ''logger'') (attribute rec (lit ''name'')),
      identity_value R (lit ''level'')
        (case attribute rec (lit ''levelname'') of VStr True t \<Rightarrow> VStr True (py_lower R t) | _ \<Rightarrow> VNone))"

definition record_timestamp :: "pyrt \<Rightarrow> log_record \<Rightarrow> pystr" where
  "record_timestamp R rec =
     identity_value R (lit ''timestamp'')
       (case lr_created_iso rec of
          None \<Rightarrow> VNone | Some t \<Rightarrow> VStr True (py_join [90] (py_split t (lit ''+00:00''))))"

definition establish_record_identity :: "pyrt \<Rightarrow> pipeline \<Rightarrow> log_record \<Rightarrow> pystr dict" where
  "establish_record_identity R P rec =
     [(lit ''logger'', fst (record_identity R rec)),
      (lit ''level'', snd (record_identity R rec)),
      (lit ''service'', pl_service P),
      (lit ''environment'', pl_environment P),
      (lit ''timestamp'', record_timestamp R rec)]"

definition establish_request_id :: "pyrt \<Rightarrow> call \<Rightarrow> pystr dict \<Rightarrow> pyval option \<Rightarrow> pystr dict" where
  "establish_request_id R C identity of_event =
     (case (case ca_server_request_id C of Some v \<Rightarrow> Some v | None \<Rightarrow> of_event) of
        None \<Rightarrow> identity
      | Some v \<Rightarrow> dict_set identity (lit ''request_id'') (identity_value R (lit ''request_id'') v))"

text \<open>\<open>{key: identity[key] for key in _IDENTITY_FALLBACKS if key in identity}\<close>\<close>

definition in_order :: "pystr dict \<Rightarrow> pystr dict" where
  "in_order identity =
     concat (map (\<lambda>k. case map_of identity k of None \<Rightarrow> [] | Some t \<Rightarrow> [(k, t)]) IDENTITY_NAMES)"

section \<open>The pipeline\<close>

definition assemble :: "pyrt \<Rightarrow> call \<Rightarrow> pyval dict \<Rightarrow> pystr dict \<Rightarrow> safe dict" where
  "assemble R C ev identity =
     (case sanitized_fields R C ev of
        None \<Rightarrow> failure_event identity (lit ''log_event_redaction_failed'') (ca_error C)
      | Some fs \<Rightarrow> dict_defaults (text_fields (in_order identity)) fs)"

text \<open>
  \<open>_process\<close>: the result, or \<open>None\<close> if a step raised, and the identity as far as it had been
  established.
\<close>

definition process_event :: "pyrt \<Rightarrow> call \<Rightarrow> pyval dict \<Rightarrow> pystr dict \<Rightarrow> safe dict option \<times> pystr dict" where
  "process_event R C ev identity =
     (let merged = merge_bounded_contextvars C ev;
          reserved = list_ex (\<lambda>k. map_of merged k \<noteq> None) PROCESSOR_META_KEYS;
          payload = foldl dict_pop merged PROCESSOR_META_KEYS;
          identity' = establish_request_id R C identity (map_of payload (lit ''request_id''))
      in (case render_stack_info R C payload of
            None \<Rightarrow> None
          | Some ev1 \<Rightarrow> (case render_exc_info R C ev1 of
              None \<Rightarrow> None
            | Some ev2 \<Rightarrow>
                (let result = assemble R C ev2 identity'
                 in Some (if reserved then dict_set result RESERVED (SStr RESERVED_NOTE) else result))),
          identity'))"

definition values_of :: "safe dict \<Rightarrow> pyval dict" where
  "values_of d = map (\<lambda>(k, v). (k, value_of v)) d"

text \<open>The instance before the log record.\<close>

definition first_pass :: "pyrt \<Rightarrow> pipeline \<Rightarrow> call \<Rightarrow> pyval dict \<Rightarrow> safe dict" where
  "first_pass R P C ev =
     (case process_event R C ev (establish_identity R P C) of
        (None, identity) \<Rightarrow> failure_event identity (lit ''log_processing_failed'') (ca_error C)
      | (Some result, _) \<Rightarrow> result)"

text \<open>
  The final instance. \<open>rec\<close> is the record the formatter is working on, \<open>processed\<close> whether it
  took the record for an event of the first instance.
\<close>

definition final_pass :: "pyrt \<Rightarrow> pipeline \<Rightarrow> call \<Rightarrow> log_record \<Rightarrow> bool \<Rightarrow> pyval dict \<Rightarrow> pyval dict" where
  "final_pass R P C rec processed ev =
     (let payload = foldl dict_pop ev PROCESSOR_META_KEYS;
          identity = establish_request_id R C (establish_record_identity R P rec) None;
          (event, identity') =
            (if processed then (Some payload, identity)
             else map_prod (map_option values_of) id (process_event R C payload identity))
      in case event of
           None \<Rightarrow> values_of (failure_event identity' (lit ''log_processing_failed'') (ca_error C))
         | Some ev' \<Rightarrow>
             let identity'' = establish_request_id R C identity' (map_of ev' (lit ''request_id''))
             in dict_defaults (values_of (text_fields (in_order identity''))) ev')"

section \<open>Records\<close>

definition RECORD_ATTRIBUTES :: "pystr list" where
  "RECORD_ATTRIBUTES = map lit
     [''name'', ''msg'', ''args'', ''levelname'', ''levelno'', ''pathname'', ''filename'', ''module'',
      ''exc_info'', ''exc_text'', ''stack_info'', ''lineno'', ''funcName'', ''created'', ''msecs'',
      ''relativeCreated'', ''thread'', ''threadName'', ''processName'', ''process'', ''taskName'']"

definition bounded_copy :: "log_record \<Rightarrow> log_record" where
  "bounded_copy rec = rec\<lparr>lr_attributes :=
     concat (map (\<lambda>n. case map_of (lr_attributes rec) n of None \<Rightarrow> [] | Some v \<Rightarrow> [(n, v)]) RECORD_ATTRIBUTES)\<rparr>"

datatype message_args = NoArgs | DictArgs "safe dict" | TupleArgs "safe list"

text \<open>What the formatter is given: an event of the pipeline, or a message and its arguments.\<close>

datatype prepared =
    EventRecord log_record
  | MessageRecord log_record pystr message_args

datatype message_failure = UnboundedFormat | RaisedError

text \<open>
  \<open>_with_sanitized_arguments\<close>; \<open>produced\<close> is the event the first instance produced last in
  this thread.
\<close>

definition with_sanitized_arguments ::
  "pyrt \<Rightarrow> call \<Rightarrow> nat option \<Rightarrow> log_record \<Rightarrow> message_failure + prepared" where
  "with_sanitized_arguments R C produced rec =
     (let W = ca_world C; safe_rec = bounded_copy rec; message = attribute rec (lit ''msg'');
          args = truthy (w_heap W) (ca_truth C) (attribute rec (lit ''args''));
          interpolated = (\<lambda>template.
            if \<not> is_bounded_template template then Inl UnboundedFormat
            else case sanitize R W (attribute rec (lit ''args'')) of
              SDict d \<Rightarrow> Inr (MessageRecord safe_rec template (DictArgs d))
            | SList vs \<Rightarrow> Inr (MessageRecord safe_rec template (TupleArgs vs))
            | _ \<Rightarrow> Inl RaisedError)
      in case message of
           VStr exact t \<Rightarrow>
             (case args of
                None \<Rightarrow> Inl RaisedError
              | Some False \<Rightarrow>
                  Inr (MessageRecord safe_rec (if exact then t else take (MAX_FORMAT_TEMPLATE_LENGTH + 1) t) NoArgs)
              | Some True \<Rightarrow> interpolated (take (MAX_FORMAT_TEMPLATE_LENGTH + 1) t))
         | VRef i \<Rightarrow>
             (if co_type (w_heap W i) = ExactDict \<and> produced = Some i then Inr (EventRecord safe_rec)
              else Inr (MessageRecord safe_rec
                (case sanitize R W message of SStr s \<Rightarrow> s | v \<Rightarrow> dumps_ascii v) NoArgs))
         | _ \<Rightarrow> Inr (MessageRecord safe_rec (case sanitize R W message of SStr s \<Rightarrow> s | v \<Rightarrow> dumps_ascii v) NoArgs))"

definition emergency_line :: "pyrt \<Rightarrow> log_record \<Rightarrow> pystr \<Rightarrow> pystr \<Rightarrow> pystr" where
  "emergency_line R rec event error_type =
     dumps_ascii (SDict
       [(lit ''event'', SStr event),
        (lit ''level'', SStr (snd (record_identity R rec))),
        (lit ''logger'', SStr (fst (record_identity R rec))),
        (lit ''timestamp'', SStr (record_timestamp R rec)),
        (lit ''error_type'', SStr error_type)])"

definition MAX_RENDERED_EVENT_LENGTH :: nat where
  "MAX_RENDERED_EVENT_LENGTH = 131072"

text \<open>
  \<open>FailClosedStreamHandler.format\<close>. The processors the formatter runs are those
  \<open>configure_logging\<close> installs: the final instance, \<open>redact_sensitive_fields\<close>, the renderer.
\<close>

definition format_record ::
  "pyrt \<Rightarrow> pipeline \<Rightarrow> call \<Rightarrow> nat option \<Rightarrow> (prepared \<Rightarrow> (pyval dict \<times> bool) option)
    \<Rightarrow> (safe dict \<Rightarrow> pystr option) \<Rightarrow> log_record \<Rightarrow> pystr" where
  "format_record R P C produced layout render rec =
     (case with_sanitized_arguments R C produced rec of
        Inl UnboundedFormat \<Rightarrow>
          emergency_line R rec (lit ''log_record_unsafe_format'') (lit ''UnboundedLogFormat'')
      | Inl RaisedError \<Rightarrow>
          emergency_line R rec (lit ''log_record_unrenderable'') (type_name (ca_error C))
      | Inr p \<Rightarrow>
          (let line = (case layout p of
                 None \<Rightarrow> None
               | Some (ev, processed) \<Rightarrow>
                   (let safe_rec = (case p of EventRecord r \<Rightarrow> r | MessageRecord r _ _ \<Rightarrow> r)
                    in render (redact_sensitive_fields R C (final_pass R P C safe_rec processed ev))))
           in case line of
                None \<Rightarrow> emergency_line R rec (lit ''log_record_unrenderable'') (type_name (ca_error C))
              | Some l \<Rightarrow>
                  if MAX_RENDERED_EVENT_LENGTH < length l
                  then emergency_line R rec (lit ''log_record_oversized'') (lit ''OversizedLogRecord'')
                  else l))"

text \<open>What \<open>handleError\<close> writes to stderr.\<close>

definition handle_error :: "pyrt \<Rightarrow> log_record \<Rightarrow> exception option \<Rightarrow> pystr" where
  "handle_error R rec err =
     lit ''voice_agent.logging: a log record could not be written (logger='' @ fst (record_identity R rec)
       @ lit '', level='' @ snd (record_identity R rec) @ lit '', error=''
       @ (case err of None \<Rightarrow> lit ''unknown'' | Some e \<Rightarrow> type_name e) @ lit '')'' @ [c_nl]"

section \<open>Installation\<close>

text \<open>The part of the logging configuration that \<open>configure_logging\<close> sets.\<close>

record logging_state =
  ls_pipeline :: "pipeline option"
  ls_root_handlers :: "nat list"
  ls_root_level :: pystr
  ls_handlers :: "pystr \<Rightarrow> nat list"
  ls_propagate :: "pystr \<Rightarrow> bool"

definition UVICORN_LOGGERS :: "pystr list" where
  "UVICORN_LOGGERS = map lit [''uvicorn'', ''uvicorn.error'', ''uvicorn.access'']"

text \<open>\<open>handler\<close> names the handler object the call creates.\<close>

definition configure_logging ::
  "pyrt \<Rightarrow> pyval \<Rightarrow> pyval \<Rightarrow> pystr \<Rightarrow> nat \<Rightarrow> logging_state \<Rightarrow> logging_state" where
  "configure_logging R service_name environment log_level handler st =
     \<lparr>ls_pipeline = Some \<lparr>pl_service = identity_value R (lit ''service'') service_name,
                          pl_environment = identity_value R (lit ''environment'') environment\<rparr>,
      ls_root_handlers = [handler],
      ls_root_level = log_level,
      ls_handlers = (\<lambda>n. if n \<in> set UVICORN_LOGGERS then [] else ls_handlers st n),
      ls_propagate = (\<lambda>n. n \<in> set UVICORN_LOGGERS \<or> ls_propagate st n)\<rparr>"

end
