(* ===== verification/Secrecy.thy ===== *)
theory Secrecy
  imports Exceptions
begin

text \<open>
  Noninterference of the structured sanitiser: what stands under a key that names sensitive
  data has no influence on the output, on the budget, or on whether the call raises.
\<close>

section \<open>Objects that differ only in secrets\<close>

definition is_secret_key :: "pyrt \<Rightarrow> pyval \<Rightarrow> bool" where
  "is_secret_key R k = (case k of VStr _ t \<Rightarrow> is_sensitive_key R t | _ \<Rightarrow> False)"

definition same_but_secrets :: "pyrt \<Rightarrow> (pyval \<times> pyval) list \<Rightarrow> (pyval \<times> pyval) list \<Rightarrow> bool" where
  "same_but_secrets R = list_all2 (\<lambda>(k, v) (k', v'). k' = k \<and> (v' = v \<or> is_secret_key R k))"

definition same_container :: "pyrt \<Rightarrow> container \<Rightarrow> container \<Rightarrow> bool" where
  "same_container R c c' \<longleftrightarrow> co_kind c' = co_kind c \<and> co_len c' = co_len c \<and> co_items c' = co_items c
     \<and> co_fails c' = co_fails c \<and> same_but_secrets R (co_entries c) (co_entries c')"

lemma same_but_secrets_refl [simp]: "same_but_secrets R es es"
  by (auto simp: same_but_secrets_def intro!: list.rel_refl)

lemma truncated_not_sensitive: "\<not> is_sensitive_key R TRUNCATED"
  by code_simp

section \<open>Equal runs\<close>

lemma sanitize_key_secret:
  assumes "sanitize_key X key b = (Some (sensitive, safe_key), b')" "is_secret_key (x_rt X) key"
  shows "sensitive"
  using assms
  by (auto simp: is_secret_key_def sanitize_key_def Let_def and_then_Some split_beta split: pyval.splits)

lemma sanitize_key_heap: "sanitize_key (X\<lparr>x_heap := H\<rparr>) key b = sanitize_key X key b"
  by (simp add: sanitize_key_def split: pyval.split)

lemma entries_loop_secret:
  assumes "same_but_secrets (x_rt X) es es'"
  shows "entries_loop (X\<lparr>x_heap := H\<rparr>) san assemble r len fails left admitted result es' b
    = entries_loop X san assemble r len fails left admitted result es b"
  using assms
proof (induction es arbitrary: es' left admitted result b)
  case Nil
  then have "es' = []" by (simp add: same_but_secrets_def)
  then show ?case by (cases left) simp_all
next
  case (Cons e es)
  obtain key item where e: "e = (key, item)" by fastforce
  from Cons.prems obtain item' fs where es': "es' = (key, item') # fs" and rest: "same_but_secrets (x_rt X) es fs"
    and item: "item' = item \<or> is_secret_key (x_rt X) key"
    by (auto simp: same_but_secrets_def list_all2_Cons1 e)
  have IH: "entries_loop (X\<lparr>x_heap := H\<rparr>) san assemble r len fails left' admitted' result' fs
      = entries_loop X san assemble r len fails left' admitted' result' es" for left' admitted' result'
    by (rule ext) (rule Cons.IH [OF rest])
  show ?case
  proof (cases left)
    case (Suc l)
    have trunc: "key = VStr True TRUNCATED \<Longrightarrow> item' = item"
      using item truncated_not_sensitive [of "x_rt X"] by (auto simp: is_secret_key_def)
    obtain k b1 where k: "sanitize_key X key b = (k, b1)" by fastforce
    consider (raises) "k = None" | (masked) sk where "k = Some (True, sk)" | (shown) sk where "k = Some (False, sk)"
      by (cases k) auto
    then show ?thesis
    proof cases
      case raises
      then show ?thesis using trunc by (auto simp: e es' Suc sanitize_key_heap k IH)
    next
      case masked
      then show ?thesis using trunc by (auto simp: e es' Suc sanitize_key_heap k IH split: prod.split)
    next
      case shown
      then have "item' = item" using k sanitize_key_secret [of X key b False] item by auto
      then show ?thesis by (simp add: e es' Suc sanitize_key_heap k shown IH)
    qed
  qed simp
qed

lemma sanitize_value_heap:
  "sanitize_value (X\<lparr>x_heap := H\<rparr>) containers v b = sanitize_value X containers v b"
proof (induction v arbitrary: b)
  case (VEnum v)
  then show ?case by (simp add: sanitize_value.simps [of _ _ "VEnum v"])
qed (simp_all add: sanitize_value.simps text_value_def marker_value_def charged_def Let_def cong: option.case_cong)

lemma sanitize_container_secret:
  assumes "\<And>i. same_container (x_rt X) (x_heap X i) (H i)"
  shows "sanitize_container (X\<lparr>x_heap := H\<rparr>) deeper v b = sanitize_container X deeper v b"
proof -
  have same: "co_kind (H i) = co_kind (x_heap X i)" "co_len (H i) = co_len (x_heap X i)"
    "co_items (H i) = co_items (x_heap X i)" "co_fails (H i) = co_fails (x_heap X i)"
    "same_but_secrets (x_rt X) (co_entries (x_heap X i)) (co_entries (H i))" for i
    using assms [of i] by (simp_all add: same_container_def)
  have "expand (X\<lparr>x_heap := H\<rparr>) san kind len fails es' vs b0 = expand X san kind len fails es vs b0"
    if "same_but_secrets (x_rt X) es es'" for san kind len fails es es' vs b0
    using entries_loop_secret [OF that] by (simp add: expand_def sanitize_entries_def)
  from this [OF same(5)] this [OF same_but_secrets_refl] show ?thesis
    by (simp add: sanitize_container_def same Let_def split: pyval.split option.split)
qed

lemma sanitize_within_secret:
  assumes "\<And>i. same_container (x_rt X) (x_heap X i) (H i)"
  shows "sanitize_within (X\<lparr>x_heap := H\<rparr>) d = sanitize_within X d"
proof (induction d)
  case 0
  have "sanitize_container (X\<lparr>x_heap := H\<rparr>) None = sanitize_container X None"
    by (intro ext sanitize_container_secret assms)
  then show ?case by (intro ext) (simp add: sanitize_value_heap)
next
  case (Suc d)
  have "sanitize_container (X\<lparr>x_heap := H\<rparr>) (Some (sanitize_within X d)) = sanitize_container X (Some (sanitize_within X d))"
    by (intro ext sanitize_container_secret assms)
  then show ?case by (intro ext) (simp add: sanitize_value_heap Suc)
qed

section \<open>Fields laid out as text\<close>

lemma collect_one_heap:
  assumes "\<And>i. co_kind (H' i) = co_kind (H i) \<and> co_items (H' i) = co_items (H i) \<and> co_fails (H' i) = co_fails (H i)"
  shows "collect_one H' deeper v g = collect_one H deeper v g"
  by (simp add: collect_one_def assms split: pyval.split option.split)

lemma assembled_text_heap:
  assumes "\<And>i. co_kind (H' i) = co_kind (H i) \<and> co_items (H' i) = co_items (H i) \<and> co_fails (H' i) = co_fails (H i)"
  shows "assembled_text H' = assembled_text H"
proof -
  have "collect_fragments H' d = collect_fragments H d" for d
    by (induction d) (simp; intro ext; simp add: collect_one_heap [OF assms])+
  then show ?thesis by (intro ext) (simp only: assembled_text_def)
qed

lemma event_get_secret:
  assumes "same_but_secrets R es es'" "\<not> is_sensitive_key R k"
  shows "event_get es' k = event_get es k"
  using assms(1) unfolding same_but_secrets_def
  by (induction es es' rule: list_all2_induct)
    (use assms(2) in \<open>auto simp: is_secret_key_def split: pyval.split\<close>)

lemma leading_fields_secret:
  assumes "\<And>i. same_container (x_rt X) (x_heap X i) (H i)" "same_but_secrets (x_rt X) es es'"
    "\<forall>k\<in>set ks. \<not> is_sensitive_key (x_rt X) k"
  shows "leading_fields (X\<lparr>x_heap := H\<rparr>) assembled es' result ks b = leading_fields X assembled es result ks b"
  using assms(3)
proof (induction ks arbitrary: result b)
  case (Cons k ks)
  have "assembled_text H = assembled_text (x_heap X)"
    using assms(1) by (intro assembled_text_heap) (auto simp: same_container_def)
  then have "sanitize_field (X\<lparr>x_heap := H\<rparr>) assembled k v b = sanitize_field X assembled k v b" for v b
    by (simp add: sanitize_field_def sanitize_at_def sanitize_within_secret [OF assms(1)])
  moreover have "leading_fields (X\<lparr>x_heap := H\<rparr>) assembled es' result' ks
      = leading_fields X assembled es result' ks" for result'
    by (rule ext) (use Cons in simp)
  ultimately show ?case using Cons.prems event_get_secret [OF assms(2)] by (simp split: option.split)
qed simp

section \<open>The entry points\<close>

definition same_world :: "pyrt \<Rightarrow> world \<Rightarrow> world \<Rightarrow> bool" where
  "same_world R W W' \<longleftrightarrow> w_exc W' = w_exc W \<and> (\<forall>i. same_container R (w_heap W i) (w_heap W' i))"

lemma top_ctx_heap: "w_exc W' = w_exc W \<Longrightarrow> top_ctx R W' = (top_ctx R W)\<lparr>x_heap := w_heap W'\<rparr>"
  by (simp add: top_ctx_def)

lemma sanitize_event_same_but_secrets:
  assumes "same_world R W W'" "same_container R event event'" "\<forall>k\<in>set leading. \<not> is_sensitive_key R k"
  shows "sanitize_event R W' event' skip leading assembled = sanitize_event R W event skip leading assembled"
proof -
  let ?X = "top_ctx R W"
  have rt: "x_rt ?X = R" "x_heap ?X = w_heap W" by (simp_all add: top_ctx_def)
  have heap: "same_container (x_rt ?X) (x_heap ?X i) (w_heap W' i)" for i
    using assms(1) by (simp add: same_world_def rt)
  have ev: "co_len event' = co_len event" "co_fails event' = co_fails event"
    "same_but_secrets (x_rt ?X) (co_entries event) (co_entries event')"
    using assms(2) by (simp_all add: same_container_def rt)
  have X': "top_ctx R W' = ?X\<lparr>x_heap := w_heap W'\<rparr>"
    using assms(1) by (intro top_ctx_heap) (simp add: same_world_def)
  have text_of: "assembled_text (w_heap W') = assembled_text (w_heap W)"
    using assms(1) by (intro assembled_text_heap) (auto simp: same_world_def same_container_def)
  have san: "sanitize_at (?X\<lparr>x_heap := w_heap W'\<rparr>) 1 = sanitize_at ?X 1"
    by (intro ext) (simp add: sanitize_at_def sanitize_within_secret [OF heap])
  have "leading_fields (?X\<lparr>x_heap := w_heap W'\<rparr>) assembled (co_entries event') [] leading b =
      leading_fields ?X assembled (co_entries event) [] leading b" for b
    using assms(3) by (intro leading_fields_secret heap ev) (simp add: rt)
  moreover have "entries_loop (?X\<lparr>x_heap := w_heap W'\<rparr>) san' assemble r len fails left adm result (co_entries event')
      = entries_loop ?X san' assemble r len fails left adm result (co_entries event)"
    for san' assemble r len fails left adm result
    by (rule ext) (rule entries_loop_secret [OF ev(3)])
  ultimately show ?thesis
    unfolding sanitize_event_def sanitize_event_with_def sanitize_entries_def X' san
    by (simp add: ev text_of rt)
qed

text \<open>
  Changing whatever stands under sensitive keys, anywhere in the objects of the caller and
  however deep, does not change what \<open>sanitize_event\<close> returns: neither the masked fields nor,
  through the shared budget, any other. No leading field may have a sensitive name.
\<close>

theorem sanitize_event_hides_secrets:
  assumes "same_world R W W'" "same_container R event event'" "\<forall>k\<in>set leading. \<not> is_sensitive_key R k"
  shows "sanitize_event R W' event' skip leading assembled = sanitize_event R W event skip leading assembled"
  using assms by (rule sanitize_event_same_but_secrets)

lemma sanitize_same_world:
  assumes "same_world R W W'"
  shows "sanitize R W' v = sanitize R W v"
proof -
  have "same_container (x_rt (top_ctx R W)) (x_heap (top_ctx R W) i) (w_heap W' i)" for i
    using assms by (simp add: same_world_def top_ctx_def)
  note same = sanitize_within_secret [OF this]
  have "top_ctx R W' = (top_ctx R W)\<lparr>x_heap := w_heap W'\<rparr>"
    using assms by (intro top_ctx_heap) (simp add: same_world_def)
  then show ?thesis by (simp add: sanitize_def sanitize_at_def same)
qed

text \<open>The same for \<open>sanitize\<close>.\<close>

theorem sanitize_hides_secrets:
  assumes "same_world R W W'"
  shows "sanitize R W' v = sanitize R W v"
  using assms by (rule sanitize_same_world)

section \<open>Examples\<close>

text \<open>Two worlds whose only object is a mapping with a password.\<close>

definition secret_mapping :: "pystr \<Rightarrow> container" where
  "secret_mapping s = \<lparr>co_kind = Mapping, co_type = ExactDict, co_len = Some 1, co_entries = [(VStr True (lit ''pwd''), VStr True s)],
     co_items = [], co_fails = False\<rparr>"

definition plain_exception :: exception where
  "plain_exception = \<lparr>ex_name = None, ex_errors = NoErrors, ex_str = None, ex_group = None, ex_cause = None,
     ex_context = None, ex_suppress = False, ex_traceback = None\<rparr>"

definition secret_world :: "pystr \<Rightarrow> world" where
  "secret_world s = \<lparr>w_heap = (\<lambda>_. secret_mapping s), w_exc = (\<lambda>_. plain_exception)\<rparr>"

lemma pwd_is_secret: "is_sensitive_key ascii_runtime (lit ''pwd'')"
  by code_simp

lemma secret_mappings: "same_container ascii_runtime (secret_mapping s) (secret_mapping s')"
  by (simp add: same_container_def secret_mapping_def same_but_secrets_def is_secret_key_def pwd_is_secret)

lemma secret_worlds: "same_world ascii_runtime (secret_world s) (secret_world s')"
  by (simp add: same_world_def secret_world_def secret_mappings)

theorem sanitize_event_hides_secrets_witness:
  "sanitize_event ascii_runtime (secret_world (lit ''a'')) (secret_mapping (lit ''a'')) [] [] [] =
   sanitize_event ascii_runtime (secret_world (lit ''b'')) (secret_mapping (lit ''b'')) [] [] []"
  by (rule sanitize_event_hides_secrets [OF secret_worlds secret_mappings]) simp

theorem sanitize_hides_secrets_witness:
  "sanitize ascii_runtime (secret_world (lit ''a'')) (VRef 0) = sanitize ascii_runtime (secret_world (lit ''b'')) (VRef 0)"
  by (rule sanitize_hides_secrets [OF secret_worlds])

end
