(* ===== verification/LogFacts.thy ===== *)
theory LogFacts
  imports LogPipeline Secrecy
begin

text \<open>
  What the logging pipeline guarantees: the operational metadata of a line is that of its
  record, its server context and the configuration, whatever the event holds; the fields of
  loggers and events are bounded; a line is bounded; values under sensitive keys have no
  influence on what is laid out.
\<close>

section \<open>Operational metadata\<close>

lemma trusted_identifier_again [simp]:
  "trusted_identifier R (VStr True (trusted_identifier R v kind fallback)) kind fallback
     = trusted_identifier R v kind fallback"
  by (auto simp: trusted_identifier_def split: pyval.splits bool.splits)

lemma identity_value_again [simp]:
  "identity_value R k (VStr True (identity_value R k v)) = identity_value R k v \<or> map_of IDENTITY_FALLBACKS k = None"
  by (auto simp: identity_value_def split: option.split)

lemma identity_cases [simp]:
  "IDENTITY_NAMES = [lit ''timestamp'', lit ''level'', lit ''logger'', lit ''service'', lit ''environment'', lit ''request_id'']"
  by (simp add: IDENTITY_NAMES_def IDENTITY_FALLBACKS_def)

lemma map_of_selected:
  "map_of (concat (map (\<lambda>k. case m k of None \<Rightarrow> [] | Some v \<Rightarrow> [(k, f k v)]) ks)) k
     = (if k \<in> set ks then map_option (f k) (m k) else None)"
  by (induction ks) (auto split: option.split)

lemma map_of_values [simp]: "map_of (values_of d) k = map_option value_of (map_of d k)"
  by (induction d) (auto simp: values_of_def)

lemma map_of_text_fields [simp]: "map_of (text_fields d) k = map_option SStr (map_of d k)"
  by (induction d) (auto simp: text_fields_def)

lemma map_of_identity_of:
  "map_of (identity_of R ev) k = (if k \<in> set IDENTITY_NAMES then map_option (identity_value R k) (map_of ev k) else None)"
  unfolding identity_of_def by (rule map_of_selected)

lemma map_of_in_order:
  "map_of (in_order d) k = (if k \<in> set IDENTITY_NAMES then map_of d k else None)"
  using map_of_selected [where m = "map_of d" and f = "\<lambda>k v. v" and ks = IDENTITY_NAMES and k = k]
  by (simp add: in_order_def option.map_ident del: identity_cases)

lemma map_of_failure_event:
  "map_of (failure_event d event err) k =
     (if k = lit ''event'' then Some (SStr event) else if k = lit ''error_type'' then Some (SStr (type_name err))
      else map_option SStr (map_of d k))"
  by (simp add: failure_event_def)

lemma map_of_redact:
  assumes "k \<in> set IDENTITY_NAMES" "map_of ev k = Some v"
  shows "map_of (redact_sensitive_fields R C ev) k = Some (SStr (identity_value R k v))"
  using assms
  by (auto simp: redact_sensitive_fields_def map_of_failure_event map_of_defaults map_of_identity_of Let_def
      split: option.split)

text \<open>The metadata the final instance has established, after the event was processed.\<close>

lemma process_event_identity:
  "snd (process_event R C ev identity) = identity
    \<or> (\<exists>v. snd (process_event R C ev identity) = establish_request_id R C identity v)"
  unfolding process_event_def Let_def snd_conv by blast

lemma not_identity: "lit ''event'' \<notin> set IDENTITY_NAMES" "lit ''error_type'' \<notin> set IDENTITY_NAMES"
  by simp_all

lemma map_of_establish_request_id:
  "map_of (establish_request_id R C d v) k =
     (if k = lit ''request_id'' then
        (case (case ca_server_request_id C of Some x \<Rightarrow> Some x | None \<Rightarrow> v) of
           None \<Rightarrow> map_of d k | Some x \<Rightarrow> Some (identity_value R k x))
      else map_of d k)"
  by (auto simp: establish_request_id_def map_of_dict_set split: option.split)

lemma map_of_record_identity:
  "map_of (establish_record_identity R P rec) (lit ''timestamp'') = Some (record_timestamp R rec)"
  "map_of (establish_record_identity R P rec) (lit ''level'') = Some (snd (record_identity R rec))"
  "map_of (establish_record_identity R P rec) (lit ''logger'') = Some (fst (record_identity R rec))"
  "map_of (establish_record_identity R P rec) (lit ''service'') = Some (pl_service P)"
  "map_of (establish_record_identity R P rec) (lit ''environment'') = Some (pl_environment P)"
  "map_of (establish_record_identity R P rec) (lit ''request_id'') = None"
  by (simp_all add: establish_record_identity_def)

lemma final_pass_identity:
  assumes "k \<in> set IDENTITY_NAMES" "k \<noteq> lit ''request_id''"
    "map_of (establish_record_identity R P rec) k = Some t"
  shows "map_of (final_pass R P C rec processed ev) k = Some (VStr True t)"
proof -
  let ?i = "establish_request_id R C (establish_record_identity R P rec) None"
  have i: "map_of ?i k = Some t" using assms by (simp add: map_of_establish_request_id)
  have p: "map_of (snd (process_event R C e ?i)) k = Some t" for e
    using process_event_identity [of R C e ?i] i assms(2)
    by (auto simp: map_of_establish_request_id)
  show ?thesis using assms(1,2) i p not_identity
    by (auto simp: final_pass_def Let_def map_of_defaults map_of_failure_event map_of_in_order
        map_of_establish_request_id split_beta map_prod_def simp del: identity_cases split: option.split)
qed

lemma final_pass_request_id:
  assumes "ca_server_request_id C = Some v"
  shows "map_of (final_pass R P C rec processed ev) (lit ''request_id'')
     = Some (VStr True (identity_value R (lit ''request_id'') v))"
proof -
  let ?i = "establish_request_id R C (establish_record_identity R P rec) None" and ?k = "lit ''request_id''"
  have i: "map_of ?i ?k = Some (identity_value R ?k v)" using assms by (simp add: map_of_establish_request_id)
  have p: "map_of (snd (process_event R C e ?i)) ?k = Some (identity_value R ?k v)" for e
    using process_event_identity [of R C e ?i] i assms
    by (auto simp: map_of_establish_request_id)
  show ?thesis using i p assms
    by (auto simp: final_pass_def Let_def map_of_defaults map_of_failure_event map_of_in_order
        map_of_establish_request_id split_beta map_prod_def split: option.split)
qed

text \<open>
  C2: What a line says about its logger, level, time, service and environment is what the
  record and the configuration say, validated; and its request ID is the one the server
  assigned, where it did. No event, whatever fields it holds and whether or not it is
  processed or fails, can change them.
\<close>

theorem line_metadata_established:
  "let P = the (ls_pipeline (configure_logging R service_name environment log_level handler st));
       out = redact_sensitive_fields R C (final_pass R P C rec processed ev)
   in map_of out (lit ''timestamp'') = Some (SStr (record_timestamp R rec))
    \<and> map_of out (lit ''level'') = Some (SStr (snd (record_identity R rec)))
    \<and> map_of out (lit ''logger'') = Some (SStr (fst (record_identity R rec)))
    \<and> map_of out (lit ''service'') = Some (SStr (identity_value R (lit ''service'') service_name))
    \<and> map_of out (lit ''environment'') = Some (SStr (identity_value R (lit ''environment'') environment))
    \<and> (case ca_server_request_id C of None \<Rightarrow> True | Some v \<Rightarrow>
        map_of out (lit ''request_id'') = Some (SStr (identity_value R (lit ''request_id'') v)))"
proof -
  define P where "P = the (ls_pipeline (configure_logging R service_name environment log_level handler st))"
  let ?out = "redact_sensitive_fields R C (final_pass R P C rec processed ev)"
  have again: "identity_value R k (VStr True (identity_value R k v)) = identity_value R k v"
    if "k \<in> set IDENTITY_NAMES" for k v
    using that identity_value_again [of R k v] by (auto simp: IDENTITY_FALLBACKS_def)
  have kept: "map_of ?out k = Some (SStr (identity_value R k v))"
    if "k \<in> set IDENTITY_NAMES" "k \<noteq> lit ''request_id''"
      "map_of (establish_record_identity R P rec) k = Some (identity_value R k v)" for k v
    using map_of_redact [OF that(1) final_pass_identity [OF that]] again [OF that(1)] by simp
  have "map_of ?out (lit ''request_id'') = Some (SStr (identity_value R (lit ''request_id'') v))"
    if "ca_server_request_id C = Some v" for v
    using map_of_redact [OF _ final_pass_request_id [OF that]] again [of "lit ''request_id''"] by simp
  moreover have "pl_service P = identity_value R (lit ''service'') service_name"
    "pl_environment P = identity_value R (lit ''environment'') environment"
    by (simp_all add: P_def configure_logging_def)
  ultimately show ?thesis
    using kept [of "lit ''timestamp''"] kept [of "lit ''level''"] kept [of "lit ''logger''"]
      kept [of "lit ''service''"] kept [of "lit ''environment''"]
    by (simp add: Let_def P_def [symmetric] map_of_record_identity record_timestamp_def record_identity_def
        split: option.split)
qed

section \<open>A line is bounded\<close>

lemma rx_iter_set_max:
  "(j, c') \<in> set (rx_iter m g n lo (Some h) i c) \<Longrightarrow>
    (\<And>i c j c'. (j, c') \<in> set (m i c) \<Longrightarrow> j \<le> Suc i) \<Longrightarrow> j \<le> i + h"
proof (induction m g n lo "Some h" i c arbitrary: h rule: rx_iter.induct)
  case (1 m g n lo i c)
  from "1.prems"(1) show ?case
  proof (cases rule: rx_iter_cases)
    case stop
    then show ?thesis by simp
  next
    case (more k d)
    have "j \<le> k + (h - 1)"
      by (rule "1.hyps" [OF more(2) more(1) refl _ _ _ "1.prems"(2)]) (use more in auto)
    moreover have "k \<le> Suc i" by (rule "1.prems"(2) [OF more(1)])
    ultimately show ?thesis using more(2) by (cases h) auto
  qed
qed

lemma type_name_length: "length (type_name e) \<le> 128"
proof -
  have "length n \<le> 128" if n: "rx_fullmatches TYPE_NAME n" for n
  proof -
    from n obtain c d where "(length n, c) \<in> set (rx_match (rx_rep (RxSet is_name_char) 0 127) n 1 d)"
      by (auto simp: rx_fullmatches_iff TYPE_NAME_def split: if_splits)
    then have "(length n, c) \<in> set (rx_iter (rx_match (RxSet is_name_char) n) True (length n) 0 (Some 127) 1 d)"
      by simp
    from rx_iter_set_max [OF this] show ?thesis by (auto split: if_splits)
  qed
  then show ?thesis by (auto simp: type_name_def split: option.split)
qed

lemma rendered_length_le: "rendered_length s \<le> 2 + 12 * length s"
proof -
  have "sum_list (map ascii_escape_length s) \<le> 12 * length s"
    by (induction s) (auto simp: ascii_escape_length_def)
  then show ?thesis by (simp add: rendered_length_def)
qed

lemma trusted_identifier_length:
  "length fallback \<le> 128 \<Longrightarrow> length (trusted_identifier R v kind fallback) \<le> 128"
  by (auto simp: trusted_identifier_def MAX_IDENTIFIER_LENGTH_def split: pyval.splits bool.splits)

lemma identity_value_length: "length (identity_value R k v) \<le> 128"
  by (auto simp: identity_value_def IDENTITY_FALLBACKS_def intro!: trusted_identifier_length split: option.split)

lemma emergency_line_bounded:
  assumes "length event \<le> 128" "length error_type \<le> 128"
  shows "length (emergency_line R rec event error_type) \<le> MAX_RENDERED_EVENT_LENGTH"
proof -
  have ident: "length (snd (record_identity R rec)) \<le> 128" "length (fst (record_identity R rec)) \<le> 128"
    "length (record_timestamp R rec) \<le> 128"
    by (simp_all add: record_identity_def record_timestamp_def identity_value_length)
  have str: "length (dumps_string_ascii s) \<le> 1538" if "length s \<le> 128" for s
    using rendered_length_le [of s] that by (simp add: rendered_length_dumps)
  note texts = str [OF assms(1)] str [OF assms(2)] str [OF ident(1)] str [OF ident(2)] str [OF ident(3)]
  have keys: "length (dumps_string_ascii (lit k)) \<le> 1538" if "length k \<le> 128" for k
    by (rule str) (use that in simp)
  show ?thesis
    using texts keys [of "''event''"] keys [of "''level''"] keys [of "''logger''"] keys [of "''timestamp''"]
      keys [of "''error_type''"]
    by (simp add: emergency_line_def dumps_ascii_def MAX_RENDERED_EVENT_LENGTH_def)
qed

text \<open>
  C4: Whatever the record, whatever structlog's formatter and renderer make of it, the line
  written for it has at most \<open>MAX_RENDERED_EVENT_LENGTH\<close> characters.
\<close>

theorem format_record_bounded:
  "length (format_record R P C produced layout render rec) \<le> MAX_RENDERED_EVENT_LENGTH"
  by (auto simp: format_record_def Let_def split_beta intro!: emergency_line_bounded type_name_length
      split: sum.split message_failure.split option.split)

section \<open>The fields of loggers and events\<close>

text \<open>The names that take one of the places of a dictionary.\<close>

definition counted :: "'v dict \<Rightarrow> pystr set" where
  "counted d = {k \<in> fst ` set d. k \<notin> set UNCOUNTED \<and> k \<noteq> TRUNCATED}"

text \<open>The contexts a logger can have: those \<open>bind\<close> and \<open>new\<close> build from the empty one.\<close>

inductive logger_context :: "pyval dict \<Rightarrow> bool" where
  initial: "logger_context []"
| fresh: "logger_context (logger_new kw)"
| bound: "logger_context ctx \<Longrightarrow> logger_context (logger_bind ctx kw)"

lemma finite_counted [simp]: "finite (counted d)"
  by (simp add: counted_def)

lemma counted_le: "card (counted d) \<le> length d"
proof -
  have "card (counted d) \<le> card (fst ` set d)" by (rule card_mono) (auto simp: counted_def)
  also have "\<dots> \<le> card (set d)" by (rule card_image_le) simp
  also have "\<dots> \<le> length d" by (rule card_length)
  finally show ?thesis .
qed

lemma counted_set: "counted (dict_set d k v) = counted d \<union> (if k \<notin> set UNCOUNTED \<and> k \<noteq> TRUNCATED then {k} else {})"
  using dict_set_keys [of d k v] by (auto simp: counted_def)

lemma counted_Cons: "counted ((k, v) # d) = counted d \<union> (if k \<notin> set UNCOUNTED \<and> k \<noteq> TRUNCATED then {k} else {})"
  by (auto simp: counted_def)

lemma counted_update: "counted (dict_update d e) = counted d \<union> counted e"
  unfolding dict_update_def
proof (induction e arbitrary: d)
  case (Cons kv e)
  then show ?case by (cases kv) (simp add: counted_set counted_Cons Un_assoc Un_commute)
qed (simp add: counted_def)

lemma distinct_update: "distinct (map fst d) \<Longrightarrow> distinct (map fst (dict_update d e))"
  unfolding dict_update_def
  by (induction e arbitrary: d) (auto simp: dict_set_distinct)

lemma counted_apart: "counted (concat (map (\<lambda>k. case m k of None \<Rightarrow> [] | Some v \<Rightarrow> [(k, v)]) (remdups UNCOUNTED))) = {}"
  by (auto simp: counted_def split: option.splits)

lemma admitted_counted: "int (card (counted (admitted d of_text room))) \<le> max 0 room"
proof (cases "int (length d) \<le> room")
  case True
  then show ?thesis using counted_le [of d] by (simp add: admitted_def)
next
  case False
  let ?kept = "take (nat (max 0 room)) (filter (\<lambda>(k, v). k \<notin> set UNCOUNTED) d)"
  let ?apart = "concat (map (\<lambda>k. case map_of d k of None \<Rightarrow> [] | Some v \<Rightarrow> [(k, v)]) (remdups UNCOUNTED))"
  have "counted (admitted d of_text room) = counted ?kept"
    using False counted_update [of _ ?apart]
    by (simp add: admitted_def Let_def dict_update_def [symmetric] counted_apart counted_set)
  moreover have "int (card (counted ?kept)) \<le> max 0 room"
    using counted_le [of ?kept] by (simp only: length_take)
  ultimately show ?thesis by simp
qed

lemma logger_context_counted:
  "logger_context ctx \<Longrightarrow> distinct (map fst ctx) \<and> card (counted ctx) \<le> MAX_EVENT_FIELDS"
proof (induction rule: logger_context.induct)
  case (fresh kw)
  have "counted (logger_new kw) = counted (admitted kw text_marker (int MAX_EVENT_FIELDS))"
    by (simp add: logger_new_def counted_update) (simp add: counted_def)
  then show ?case using admitted_counted [of kw text_marker "int MAX_EVENT_FIELDS"]
    by (simp add: logger_new_def distinct_update)
next
  case (bound ctx kw)
  let ?a = "admitted kw text_marker (int MAX_EVENT_FIELDS - int (length ctx))"
  have "card (counted (logger_bind ctx kw)) \<le> card (counted ctx) + card (counted ?a)"
    by (simp add: logger_bind_def counted_update card_Un_le)
  moreover have "int (card (counted ?a)) \<le> max 0 (int MAX_EVENT_FIELDS - int (length ctx))"
    by (rule admitted_counted)
  ultimately show ?case using bound counted_le [of ctx] by (auto simp: logger_bind_def distinct_update)
qed (simp add: counted_def)

text \<open>
  C5: However loggers are bound and renewed, with however many values each time: a logger never
  holds more than \<open>MAX_EVENT_FIELDS\<close> fields that count, each once, and an event made from it
  never more than twice that number.
\<close>

theorem logger_fields_bounded:
  assumes "logger_context ctx"
  shows "distinct (map fst ctx) \<and> card (counted ctx) \<le> MAX_EVENT_FIELDS
    \<and> card (counted (logger_event ctx kw)) \<le> 2 * MAX_EVENT_FIELDS"
proof -
  have "card (counted (logger_event ctx kw))
      \<le> card (counted ctx) + card (counted (admitted kw text_marker (int MAX_EVENT_FIELDS)))"
    by (simp add: logger_event_def counted_update card_Un_le)
  with admitted_counted [of kw text_marker "int MAX_EVENT_FIELDS"] logger_context_counted [OF assms]
  show ?thesis by auto
qed

theorem logger_fields_bounded_witness:
  "card (counted (logger_event (logger_bind [] [(lit ''a'', VNone)]) [])) \<le> 2 * MAX_EVENT_FIELDS"
  using logger_fields_bounded [OF logger_context.bound [OF logger_context.initial]] by blast

text \<open>What the admission keeps apart: the names that do not count are never cut off.\<close>

lemma map_of_update: "map_of (dict_update d e) k = (case map_of (rev e) k of None \<Rightarrow> map_of d k | Some v \<Rightarrow> Some v)"
  unfolding dict_update_def
  by (induction e arbitrary: d) (auto simp: map_of_dict_set map_add_def split: option.splits)

section \<open>Context fields\<close>

lemma merge_field_Some:
  assumes "merge_field b room name found ev = Some (room', ev')"
  shows "ev' = ev \<or> (b = None \<and> (\<exists>w. ev' = dict_set ev (lit ''request_id'') w))
    \<or> (\<exists>k w. map_of ev k = None \<and> k \<noteq> lit ''request_id'' \<and> ev' = dict_set ev k w)"
  using assms unfolding merge_field_def Let_def by (auto split: if_splits option.splits)

lemma merge_field_keeps:
  "merge_field b room name found ev = Some (room', ev') \<Longrightarrow> k \<noteq> lit ''request_id'' \<Longrightarrow> map_of ev k = Some v \<Longrightarrow>
    map_of ev' k = Some v"
  by (drule merge_field_Some) (auto simp: map_of_dict_set)

lemma merge_field_bound:
  "merge_field (Some w) room name found ev = Some (room', ev') \<Longrightarrow>
    map_of ev' (lit ''request_id'') = map_of ev (lit ''request_id'')"
  by (drule merge_field_Some) (auto simp: map_of_dict_set)

lemma merge_loop_keeps:
  "map_of ev k = Some v \<Longrightarrow> k \<noteq> lit ''request_id'' \<Longrightarrow> map_of (merge_loop b n room vars ev) k = Some v"
proof (induction b n room vars ev rule: merge_loop.induct)
  case 2
  then show ?case using merge_field_keeps by (fastforce simp: map_of_default split: option.split)
qed simp

lemma merge_loop_bound:
  "map_of (merge_loop (Some w) n room vars ev) (lit ''request_id'') = map_of ev (lit ''request_id'')"
proof (induction "Some w" n room vars ev rule: merge_loop.induct)
  case 2
  then show ?case by (auto simp: map_of_default TRUNCATED_def merge_field_bound split: option.split)
qed simp

text \<open>
  A field of the call is never replaced by one of the context, except the request ID; and
  a request ID bound to the context replaces that of the call.
\<close>

theorem merge_keeps_call_fields:
  "(\<forall>k v. map_of ev k = Some v \<longrightarrow> k = lit ''request_id'' \<or> map_of (merge_bounded_contextvars C ev) k = Some v)
    \<and> (case ca_bound_request_id C of None \<Rightarrow> True
        | Some v \<Rightarrow> map_of (merge_bounded_contextvars C ev) (lit ''request_id'') = Some v)"
proof -
  have "map_of (merge_bounded_contextvars C ev) k = Some v" if "map_of ev k = Some v" "k \<noteq> lit ''request_id''" for k v
    using that by (auto simp: merge_bounded_contextvars_def Let_def map_of_dict_set intro!: merge_loop_keeps split: option.split)
  moreover have "map_of (merge_bounded_contextvars C ev) (lit ''request_id'') = Some v" if "ca_bound_request_id C = Some v" for v
    using that by (simp add: merge_bounded_contextvars_def Let_def merge_loop_bound map_of_dict_set)
  ultimately show ?thesis by (auto split: option.split)
qed

end
