(* ===== verification/LogSecrecy.thy ===== *)
theory LogSecrecy
  imports LogFacts
begin

text \<open>
  Noninterference of the logging pipeline: what stands under a sensitive key, in the fields of a
  call or anywhere in the objects of the caller, has no influence on the event that handlers
  receive nor on the line that is written.
\<close>

section \<open>Events that differ only in secrets\<close>

definition same_event :: "pyrt \<Rightarrow> pyval dict \<Rightarrow> pyval dict \<Rightarrow> bool" where
  "same_event R = list_all2 (\<lambda>(k, v) (k', v'). k' = k \<and> (v' = v \<or> is_sensitive_key R k))"

definition same_objects :: "pyrt \<Rightarrow> world \<Rightarrow> world \<Rightarrow> bool" where
  "same_objects R W W' \<longleftrightarrow> same_world R W W' \<and> (\<forall>i. co_type (w_heap W' i) = co_type (w_heap W i))"

text \<open>
  The names the pipeline itself uses are not sensitive. A test that every match passes: it
  reads the leading character classes of a pattern and takes the rest for granted.
\<close>

primrec rx_may_start :: "rx \<Rightarrow> pystr \<Rightarrow> bool" where
  "rx_may_start RxEps t \<longleftrightarrow> True"
| "rx_may_start (RxSet p) t \<longleftrightarrow> (case t of [] \<Rightarrow> False | x # _ \<Rightarrow> p x)"
| "rx_may_start (RxSeq a b) t \<longleftrightarrow>
     (case a of RxSet p \<Rightarrow> (case t of [] \<Rightarrow> False | x # u \<Rightarrow> p x \<and> rx_may_start b u)
      | RxNotBehind _ \<Rightarrow> rx_may_start b t | _ \<Rightarrow> rx_may_start a t)"
| "rx_may_start (RxAlt a b) t \<longleftrightarrow> rx_may_start a t \<or> rx_may_start b t"
| "rx_may_start (RxRep g r lo hi) t \<longleftrightarrow> True"
| "rx_may_start (RxGroup g r) t \<longleftrightarrow> rx_may_start r t"
| "rx_may_start (RxAhead r) t \<longleftrightarrow> True"
| "rx_may_start (RxNotBehind p) t \<longleftrightarrow> True"
| "rx_may_start (RxWordBound w) t \<longleftrightarrow> True"
| "rx_may_start RxEnd t \<longleftrightarrow> True"
| "rx_may_start RxStart t \<longleftrightarrow> True"

lemma rx_match_may_start: "rx_match r t i c \<noteq> [] \<Longrightarrow> rx_may_start r (drop i t)"
proof (induction r arbitrary: i c)
  case (RxSet p)
  then show ?case by (auto simp: Cons_nth_drop_Suc [symmetric] split: if_splits)
next
  case (RxSeq a b)
  from RxSeq.prems obtain j d where j: "(j, d) \<in> set (rx_match a t i c)" "rx_match b t j d \<noteq> []"
    by auto
  have "rx_may_start a (drop i t)" using j(1) by (intro RxSeq.IH(1) [of i c]) auto
  moreover have "rx_may_start b (drop j t)" by (rule RxSeq.IH(2) [OF j(2)])
  ultimately show ?case using j(1)
    by (cases a) (auto simp: Cons_nth_drop_Suc [symmetric] split: if_splits)
qed (auto split: if_splits)

fun suffixes_of :: "pystr \<Rightarrow> pystr list" where
  "suffixes_of [] = [[]]"
| "suffixes_of (x # t) = (x # t) # suffixes_of t"

lemma drop_suffixes: "drop i t \<in> set (suffixes_of t)"
  by (induction t arbitrary: i) (auto simp: drop_Cons split: nat.split)

lemma rx_found_may_start: "rx_found r t \<Longrightarrow> list_ex (rx_may_start r) (suffixes_of t)"
proof -
  assume "rx_found r t"
  then obtain i where "rx_match r t i Map.empty \<noteq> []"
    by (auto simp: rx_found_def rx_search_def find_Some_iff split: option.splits)
  then show ?thesis using drop_suffixes rx_match_may_start by (fastforce simp: list_ex_iff)
qed

lemmas sensitive_key_eval =
  SENSITIVE_KEY_def COMMON_KEY_def CAPABILITY_KEY_def rx_words_def rx_pair_def rx_authorization_def
  rx_url_word_def lit_eval

lemma plain_name_not_sensitive:
  "\<not> list_ex (rx_may_start SENSITIVE_KEY) (suffixes_of t) \<Longrightarrow> \<not> has_escapes t \<Longrightarrow> \<not> is_sensitive_key R t"
  using rx_found_may_start by (auto simp: is_sensitive_key_def names_sensitive_data_def)

lemma pipeline_names_not_sensitive [simp]:
  "\<not> is_sensitive_key R (lit ''timestamp'')" "\<not> is_sensitive_key R (lit ''level'')"
  "\<not> is_sensitive_key R (lit ''logger'')" "\<not> is_sensitive_key R (lit ''service'')"
  "\<not> is_sensitive_key R (lit ''environment'')" "\<not> is_sensitive_key R (lit ''request_id'')"
  "\<not> is_sensitive_key R (lit ''event'')" "\<not> is_sensitive_key R (lit ''exception'')"
  "\<not> is_sensitive_key R (lit ''stack'')" "\<not> is_sensitive_key R (lit ''stack_info'')"
  "\<not> is_sensitive_key R (lit ''exc_info'')"
  by (rule plain_name_not_sensitive; simp add: sensitive_key_eval ci_eq_def has_escapes_def)+

lemma same_event_map_of:
  "same_event R ev ev' \<Longrightarrow> \<not> is_sensitive_key R k \<Longrightarrow> map_of ev' k = map_of ev k"
  unfolding same_event_def by (induction ev ev' rule: list_all2_induct) auto

lemma same_event_keys: "same_event R ev ev' \<Longrightarrow> map_of ev' k = None \<longleftrightarrow> map_of ev k = None"
  unfolding same_event_def by (induction ev ev' rule: list_all2_induct) auto

lemma same_event_length: "same_event R ev ev' \<Longrightarrow> length ev' = length ev"
  by (auto simp: same_event_def list_all2_lengthD)

lemma same_event_set: "same_event R ev ev' \<Longrightarrow> same_event R (dict_set ev k v) (dict_set ev' k v)"
  unfolding same_event_def by (induction ev ev' rule: list_all2_induct) auto

lemma same_event_pop: "same_event R ev ev' \<Longrightarrow> same_event R (dict_pop ev k) (dict_pop ev' k)"
  unfolding same_event_def dict_pop_def by (induction ev ev' rule: list_all2_induct) auto

lemma same_event_pops: "same_event R ev ev' \<Longrightarrow> same_event R (foldl dict_pop ev ks) (foldl dict_pop ev' ks)"
  by (induction ks arbitrary: ev ev') (auto intro: same_event_pop)

lemma same_event_default: "same_event R ev ev' \<Longrightarrow> same_event R (dict_default ev k v) (dict_default ev' k v)"
  using same_event_keys [of R ev ev' k]
  by (auto simp: dict_default_def same_event_def list_all2_appendI)

section \<open>One pass\<close>

lemma count_uncounted_same:
  assumes "\<And>k. map_of d' k = None \<longleftrightarrow> map_of d k = None"
  shows "count_uncounted d' = count_uncounted d"
  by (simp add: count_uncounted_def assms)

text \<open>Equal results, or two events that differ only in secrets.\<close>

definition same_room :: "pyrt \<Rightarrow> (int \<times> pyval dict) option \<Rightarrow> (int \<times> pyval dict) option \<Rightarrow> bool" where
  "same_room R = rel_option (\<lambda>(r, ev) (r', ev'). r' = r \<and> same_event R ev ev')"

lemma merge_field_same:
  assumes "same_event R ev ev'"
  shows "same_room R (merge_field b room name found ev) (merge_field b room name found ev')"
  using assms same_event_keys [OF assms]
  by (auto simp: merge_field_def same_room_def Let_def same_event_set split: option.split)

lemma merge_loop_same:
  "same_event R ev ev' \<Longrightarrow> same_event R (merge_loop b n room vars ev) (merge_loop b n room vars ev')"
proof (induction vars arbitrary: n room ev ev')
  case (Cons x vars)
  obtain name found where x: "x = (name, found)" by (cases x)
  from merge_field_same [OF Cons.prems, of b room name found] Cons show ?case
    by (auto simp: x same_room_def same_event_default split: option.split elim!: option.rel_cases)
qed simp

lemma merge_same:
  assumes "same_event R ev ev'"
  shows "same_event R (merge_bounded_contextvars C ev) (merge_bounded_contextvars C ev')"
proof -
  define start where "start e = (case ca_bound_request_id C of None \<Rightarrow> e | Some v \<Rightarrow> dict_set e (lit ''request_id'') v)"
    for e :: "pyval dict"
  have "same_event R (start ev) (start ev')"
    using assms by (auto simp: start_def same_event_set split: option.split)
  then show ?thesis
    using same_event_length [of R "start ev" "start ev'"] count_uncounted_same [of "start ev'" "start ev"]
      same_event_keys [of R "start ev" "start ev'"]
    by (simp add: merge_bounded_contextvars_def start_def [symmetric] Let_def merge_loop_same)
qed

locale two_worlds =
  fixes R :: pyrt and C C' :: call
  assumes objects: "same_objects R (ca_world C) (ca_world C')"
    and rest: "C' = C\<lparr>ca_world := ca_world C'\<rparr>"
begin

lemma parts [simp]:
  "ca_error C' = ca_error C" "ca_server_request_id C' = ca_server_request_id C" "ca_truth C' = ca_truth C"
  "ca_frames C' = ca_frames C" "ca_raised C' = ca_raised C" "ca_logger C' = ca_logger C" "ca_level C' = ca_level C"
  "ca_stamp C' = ca_stamp C" "ca_context C' = ca_context C" "ca_bound_request_id C' = ca_bound_request_id C"
  by (subst rest, simp add: ca_bound_request_id_def)+

lemma world: "same_world R (ca_world C) (ca_world C')"
  and types [simp]: "co_type (w_heap (ca_world C') i) = co_type (w_heap (ca_world C) i)"
  using objects by (simp_all add: same_objects_def)

lemma same_parts [simp]:
  "co_len (w_heap (ca_world C') i) = co_len (w_heap (ca_world C) i)"
  "co_items (w_heap (ca_world C') i) = co_items (w_heap (ca_world C) i)"
  "w_exc (ca_world C') = w_exc (ca_world C)"
  using world by (auto simp: same_world_def same_container_def)

lemma truthy_same [simp]: "truthy (w_heap (ca_world C')) f v = truthy (w_heap (ca_world C)) f v"
  by (cases v) auto

lemma exc_info_same [simp]: "exc_info_exception C' v = exc_info_exception C v"
  by (simp add: exc_info_exception_def Let_def split: pyval.split)

lemma merge_other [simp]: "merge_bounded_contextvars C' ev = merge_bounded_contextvars C ev"
  by (simp add: merge_bounded_contextvars_def)

lemma request_id_same [simp]: "establish_request_id R C' d v = establish_request_id R C d v"
  by (simp add: establish_request_id_def)

lemma stack_same:
  assumes "same_event R ev ev'"
  shows "rel_option (same_event R) (render_stack_info R C ev) (render_stack_info R C' ev')"
proof -
  have "map_of ev' (lit ''stack_info'') = map_of ev (lit ''stack_info'')"
    using assms by (rule same_event_map_of) simp
  then show ?thesis using assms
    by (auto simp: render_stack_info_def Let_def same_event_set same_event_pop split: option.split bool.split)
qed

lemma exception_same:
  assumes "same_event R ev ev'"
  shows "rel_option (same_event R) (render_exc_info R C ev) (render_exc_info R C' ev')"
proof -
  have "map_of ev' (lit ''exc_info'') = map_of ev (lit ''exc_info'')"
    using assms by (rule same_event_map_of) simp
  then show ?thesis using assms
    by (auto simp: render_exc_info_def Let_def same_event_set same_event_pop split: option.split bool.split)
qed

lemma container_same:
  assumes "same_event R ev ev'"
  shows "same_container R (event_container ev) (event_container ev')"
proof -
  have "same_but_secrets R (map (\<lambda>(k, v). (VStr True k, v)) ev) (map (\<lambda>(k, v). (VStr True k, v)) ev')"
    using assms unfolding same_event_def same_but_secrets_def
    by (induction ev ev' rule: list_all2_induct) (auto simp: is_secret_key_def)
  then show ?thesis using same_event_length [OF assms] by (simp add: same_container_def event_container_def)
qed

lemma sanitized_same:
  "same_event R ev ev' \<Longrightarrow> sanitized_fields R C' ev' = sanitized_fields R C ev"
  unfolding sanitized_fields_def
  by (rule sanitize_event_same_but_secrets [OF world container_same]) (auto simp: LEADING_FIELDS_def)

lemma assemble_same: "same_event R ev ev' \<Longrightarrow> assemble R C' ev' identity = assemble R C ev identity"
  by (simp add: assemble_def sanitized_same cong: option.case_cong)

lemma process_same:
  assumes "same_event R ev ev'"
  shows "process_event R C' ev' identity = process_event R C ev identity"
proof -
  let ?p = "\<lambda>e. foldl dict_pop (merge_bounded_contextvars C e) PROCESSOR_META_KEYS"
  have p: "same_event R (?p ev) (?p ev')" by (intro same_event_pops merge_same assms)
  have rid: "map_of (?p ev') (lit ''request_id'') = map_of (?p ev) (lit ''request_id'')"
    by (rule same_event_map_of [OF p]) simp
  have reserved: "(map_of (merge_bounded_contextvars C ev') k = None) = (map_of (merge_bounded_contextvars C ev) k = None)" for k
    by (rule same_event_keys [OF merge_same [OF assms]])
  have "list_ex (\<lambda>k. map_of (merge_bounded_contextvars C ev') k \<noteq> None) PROCESSOR_META_KEYS
      = list_ex (\<lambda>k. map_of (merge_bounded_contextvars C ev) k \<noteq> None) PROCESSOR_META_KEYS"
    by (simp only: reserved)
  note eqs = process_event_def Let_def rid this
  from stack_same [OF p] show ?thesis
  proof (cases rule: option.rel_cases)
    case (Some x y)
    from exception_same [OF Some(3)] show ?thesis
    proof (cases rule: option.rel_cases)
      case (Some u w)
      show ?thesis
        by (simp add: eqs \<open>render_stack_info R C _ = Some x\<close> \<open>render_stack_info R C' _ = Some y\<close> Some(1,2)
            assemble_same [OF Some(3)] del: not_None_eq)
    qed (use Some in \<open>simp add: eqs del: not_None_eq\<close>)
  qed (simp add: eqs del: not_None_eq)
qed

lemma establish_same [simp]: "establish_identity R P C' = establish_identity R P C"
  by (simp add: establish_identity_def)

lemma first_pass_same: "same_event R ev ev' \<Longrightarrow> first_pass R P C' ev' = first_pass R P C ev"
  by (auto simp: first_pass_def process_same split: prod.split option.split)

lemma final_pass_same: "final_pass R P C' rec processed ev = final_pass R P C rec processed ev"
proof -
  have "same_event R e e" for e by (auto simp: same_event_def intro!: list.rel_refl)
  from process_same [OF this] show ?thesis
    by (simp add: final_pass_def Let_def split_beta cong: option.case_cong)
qed

lemma redact_same: "redact_sensitive_fields R C' ev = redact_sensitive_fields R C ev"
proof -
  have "same_event R e e" for e by (auto simp: same_event_def intro!: list.rel_refl)
  from sanitized_same [OF this] show ?thesis by (simp add: redact_sensitive_fields_def Let_def cong: option.case_cong)
qed

lemma sanitize_same: "sanitize R (ca_world C') v = sanitize R (ca_world C) v"
  by (rule sanitize_same_world [OF world])

lemma arguments_same: "with_sanitized_arguments R C' produced rec = with_sanitized_arguments R C produced rec"
  unfolding with_sanitized_arguments_def Let_def
  by (cases "attribute rec (lit ''msg'')") (auto simp: sanitize_same split: option.split bool.split)

lemma format_same: "format_record R P C' produced layout render rec = format_record R P C produced layout render rec"
  unfolding format_record_def arguments_same Let_def
  by (auto simp: final_pass_same redact_same split: sum.split message_failure.split option.split)

end

section \<open>The interface of the pipeline\<close>

lemma two_calls:
  assumes "same_objects R (ca_world C) W'"
  shows "two_worlds R C (C\<lparr>ca_world := W'\<rparr>)"
  by unfold_locales (use assms in auto)

text \<open>
  C3: What a handler receives for a call does not depend on anything that stands under a
  sensitive key: neither in the fields of the call and its logger, nor in any object of the
  caller, however deep.
\<close>

theorem first_pass_hides_secrets:
  assumes "same_objects R (ca_world C) W'" "same_event R ev ev'"
  shows "first_pass R P (C\<lparr>ca_world := W'\<rparr>) ev' = first_pass R P C ev"
  by (rule two_worlds.first_pass_same [OF two_calls [OF assms(1)] assms(2)])

text \<open>
  C1: Nor does the line that is written for a record, its message, arguments and attributes
  included, on any path through the handler.
\<close>

theorem format_record_hides_secrets:
  assumes "same_objects R (ca_world C) W'"
  shows "format_record R P (C\<lparr>ca_world := W'\<rparr>) produced layout render rec
    = format_record R P C produced layout render rec"
  by (rule two_worlds.format_same [OF two_calls [OF assms]])

section \<open>Examples\<close>

definition secret_call :: "pystr \<Rightarrow> call" where
  "secret_call s = \<lparr>ca_world = secret_world s, ca_error = plain_exception, ca_logger = VNone, ca_level = VNone,
     ca_stamp = VNone, ca_registry = None, ca_context = [], ca_server_request_id = None, ca_frames = [],
     ca_truth = (\<lambda>_. None), ca_raised = None\<rparr>"

lemma secret_objects: "same_objects ascii_runtime (secret_world s) (secret_world s')"
  by (simp add: same_objects_def secret_worlds) (simp add: secret_world_def secret_mapping_def)

interpretation secret_calls: two_worlds ascii_runtime "secret_call s" "secret_call s'" for s s'
  by unfold_locales (simp_all add: secret_call_def secret_objects)

definition plain_pipeline :: pipeline where
  "plain_pipeline = \<lparr>pl_service = lit ''voice-agent'', pl_environment = lit ''test''\<rparr>"

definition plain_record :: log_record where
  "plain_record = \<lparr>lr_attributes = [(lit ''msg'', VRef 0)], lr_created_iso = None\<rparr>"

text \<open>A layout that hands the message on as the event, and a renderer of the field names.\<close>

definition plain_layout :: "prepared \<Rightarrow> (pyval dict \<times> bool) option" where
  "plain_layout p = Some ([(lit ''event'', VRef 0)], False)"

definition plain_render :: "safe dict \<Rightarrow> pystr option" where
  "plain_render ev = Some (concat (map fst ev))"

theorem first_pass_hides_secrets_witness:
  "first_pass ascii_runtime plain_pipeline ((secret_call (lit ''a''))\<lparr>ca_world := secret_world (lit ''b'')\<rparr>) [(lit ''pwd'', VNone)]
    = first_pass ascii_runtime plain_pipeline (secret_call (lit ''a'')) [(lit ''pwd'', VRef 0)]"
  by (rule first_pass_hides_secrets)
    (simp_all add: secret_call_def secret_objects same_event_def pwd_is_secret)

theorem format_record_hides_secrets_witness:
  "format_record ascii_runtime plain_pipeline ((secret_call (lit ''a''))\<lparr>ca_world := secret_world (lit ''b'')\<rparr>) None
      plain_layout plain_render plain_record
    = format_record ascii_runtime plain_pipeline (secret_call (lit ''a'')) None plain_layout plain_render plain_record"
  by (rule format_record_hides_secrets) (simp add: secret_call_def secret_objects)

end
