(* ===== verification/PlatformErrors.thy ===== *)
theory PlatformErrors
  imports PyText
begin

text \<open>
  \<open>platform/shared_kernel/errors\<close>: the hierarchy of the errors the platform raises
  deliberately. \<open>isinstance\<close> is the order of the class datatype.
\<close>

datatype platform_class = PlatformError | ConfigurationError | InfrastructureError | DatabaseError | CacheError

fun base_class :: "platform_class \<Rightarrow> platform_class" where
  "base_class DatabaseError = InfrastructureError"
| "base_class CacheError = InfrastructureError"
| "base_class _ = PlatformError"

fun error_code :: "platform_class \<Rightarrow> pystr" where
  "error_code PlatformError = lit ''platform_error''"
| "error_code ConfigurationError = lit ''configuration_invalid''"
| "error_code InfrastructureError = lit ''infrastructure_error''"
| "error_code DatabaseError = lit ''database_error''"
| "error_code CacheError = lit ''cache_error''"

text \<open>\<open>c \<le> d\<close>: \<open>c\<close> is \<open>d\<close> or derived from it.\<close>

instantiation platform_class :: order
begin

definition less_eq_platform_class :: "platform_class \<Rightarrow> platform_class \<Rightarrow> bool" where
  "c \<le> d \<longleftrightarrow> d = c \<or> d = base_class c \<or> d = base_class (base_class c)"

definition less_platform_class :: "platform_class \<Rightarrow> platform_class \<Rightarrow> bool" where
  "c < d \<longleftrightarrow> c \<le> d \<and> (c :: platform_class) \<noteq> d"

instance
proof
  fix x y z :: platform_class
  show "x < y \<longleftrightarrow> x \<le> y \<and> \<not> y \<le> x"
    by (cases x; cases y) (simp_all add: less_platform_class_def less_eq_platform_class_def)
  show "x \<le> x" by (simp add: less_eq_platform_class_def)
  show "x \<le> y \<Longrightarrow> y \<le> z \<Longrightarrow> x \<le> z"
    by (cases x; cases y; cases z) (simp_all add: less_eq_platform_class_def)
  show "x \<le> y \<Longrightarrow> y \<le> x \<Longrightarrow> x = y"
    by (cases x; cases y) (simp_all add: less_eq_platform_class_def)
qed

end

lemma below_infrastructure: "c \<le> InfrastructureError \<longleftrightarrow> c \<in> {InfrastructureError, DatabaseError, CacheError}"
  by (cases c) (simp_all add: less_eq_platform_class_def)

lemma platform_root: "c \<le> PlatformError"
  by (cases c) (simp_all add: less_eq_platform_class_def)

lemma code_injective: "error_code c = error_code d \<Longrightarrow> c = d"
  by (cases c; cases d) simp_all

text \<open>Diagnostic data of an error, for logs only.\<close>

datatype detail = DText pystr | DInt int | DTexts "pystr list"

record platform_error =
  pe_class :: platform_class
  pe_message :: pystr
  pe_context :: "(pystr \<times> detail) list"

definition platform_error :: "platform_class \<Rightarrow> pystr \<Rightarrow> (pystr \<times> detail) list \<Rightarrow> platform_error" where
  "platform_error c message context = \<lparr>pe_class = c, pe_message = message, pe_context = context\<rparr>"

definition reason_of :: "platform_error \<Rightarrow> detail option" where
  "reason_of e = map_of (pe_context e) (lit ''reason'')"

end
