(* ===== verification/DbErrors.thy ===== *)
theory DbErrors
  imports PlatformErrors
begin

text \<open>
  \<open>platform/infrastructure/db/errors.py\<close>: which failures mean that PostgreSQL is unavailable.

  Exceptions are objects: they have an identity (a number), and \<open>E\<close> maps it to what
  \<open>isinstance\<close>, \<open>orig\<close>, \<open>__cause__\<close> and the other attributes say. The chain of causes may be
  cyclic.
\<close>

section \<open>Exceptions of the driver\<close>

text \<open>The classes the program asks about; \<open>PyException\<close> is \<open>Exception\<close> itself.\<close>

datatype exc_class =
    PyException
  | SQLAlchemyErr
  | DBAPIErr
  | PoolTimeoutErr
  | ConnectionDoesNotExist
  | PostgresErr
  | InterfaceErr
  | OSErr
  | ConnectionErr
  | TimeoutErr
  | GaiErr
  | RedisErr
  | Platform platform_class

record exc =
  xc_type :: pystr
  xc_classes :: "exc_class list"      \<comment> \<open>the classes it is an instance of\<close>
  xc_orig :: "nat option"             \<comment> \<open>\<open>orig\<close> of a \<open>DBAPIError\<close>, when it is an exception\<close>
  xc_cause :: "nat option"
  xc_invalidated :: bool              \<comment> \<open>\<open>connection_invalidated\<close>\<close>
  xc_sqlstate :: "pystr option"       \<comment> \<open>\<open>sqlstate\<close>, when it is a string\<close>
  xc_errno :: "int option"
  xc_text :: pystr                    \<comment> \<open>\<open>str(exc)\<close>\<close>

definition is_a :: "exc \<Rightarrow> exc_class \<Rightarrow> bool" where
  "is_a e c \<longleftrightarrow> c \<in> set (xc_classes e)"

type_synonym excs = "nat \<Rightarrow> exc"

section \<open>Classification\<close>

definition UNAVAILABLE_SQLSTATE_CLASS :: pystr where
  "UNAVAILABLE_SQLSTATE_CLASS = lit ''08''"

definition UNAVAILABLE_SQLSTATES :: "pystr list" where
  "UNAVAILABLE_SQLSTATES = map lit [''57P01'', ''57P02'', ''57P03'', ''57P05'', ''53300'', ''3D000'']"

definition ACQUISITION_ONLY_SQLSTATES :: "pystr list" where
  "ACQUISITION_ONLY_SQLSTATES = map lit [''55000'']"

text \<open>The values of the \<open>errno\<close> constants on Linux.\<close>

definition NETWORK_ERRNOS :: "int list" where
  "NETWORK_ERRNOS =
     [111 \<comment> \<open>ECONNREFUSED\<close>, 104 \<comment> \<open>ECONNRESET\<close>, 103 \<comment> \<open>ECONNABORTED\<close>, 32 \<comment> \<open>EPIPE\<close>,
      100 \<comment> \<open>ENETDOWN\<close>, 101 \<comment> \<open>ENETUNREACH\<close>, 102 \<comment> \<open>ENETRESET\<close>, 112 \<comment> \<open>EHOSTDOWN\<close>,
      113 \<comment> \<open>EHOSTUNREACH\<close>, 110 \<comment> \<open>ETIMEDOUT\<close>]"

definition MAX_CHAIN :: nat where "MAX_CHAIN = 8"

text \<open>What an exception wraps.\<close>

definition wrapped_by :: "exc \<Rightarrow> nat option" where
  "wrapped_by e = (case (if is_a e DBAPIErr then xc_orig e else None) of Some i \<Rightarrow> Some i | None \<Rightarrow> xc_cause e)"

text \<open>The loop of \<open>_causes\<close>; \<open>room\<close> is what the limit leaves.\<close>

primrec causes_loop :: "nat \<Rightarrow> excs \<Rightarrow> nat option \<Rightarrow> nat list \<Rightarrow> nat list" where
  "causes_loop 0 E current chain = chain"
| "causes_loop (Suc room) E current chain =
     (case current of
        None \<Rightarrow> chain
      | Some i \<Rightarrow> if i \<in> set chain then chain else causes_loop room E (wrapped_by (E i)) (chain @ [i]))"

definition causes :: "excs \<Rightarrow> nat \<Rightarrow> nat list" where
  "causes E i = causes_loop MAX_CHAIN E (Some i) []"

definition is_network_failure :: "exc \<Rightarrow> bool" where
  "is_network_failure e \<longleftrightarrow> is_a e OSErr \<and>
     (is_a e ConnectionErr \<or> is_a e TimeoutErr \<or> is_a e GaiErr
      \<or> (\<exists>n\<in>set NETWORK_ERRNOS. xc_errno e = Some n)
      \<or> (xc_errno e = None \<and> starts_at (xc_text e) (lit ''Multiple exceptions:'') 0))"

definition says_unavailable :: "exc \<Rightarrow> bool" where
  "says_unavailable e \<longleftrightarrow>
     (is_a e DBAPIErr \<and> xc_invalidated e) \<or> is_a e PoolTimeoutErr \<or> is_a e ConnectionDoesNotExist
     \<or> (case xc_sqlstate e of None \<Rightarrow> False
        | Some s \<Rightarrow> starts_at s UNAVAILABLE_SQLSTATE_CLASS 0 \<or> s \<in> set UNAVAILABLE_SQLSTATES)
     \<or> is_network_failure e"

fun any_unavailable :: "exc list \<Rightarrow> bool" where
  "any_unavailable [] \<longleftrightarrow> False"
| "any_unavailable (e # es) \<longleftrightarrow>
     (if \<not> is_a e PyException then False else if says_unavailable e then True else any_unavailable es)"

definition is_database_unavailable :: "excs \<Rightarrow> nat \<Rightarrow> bool" where
  "is_database_unavailable E i \<longleftrightarrow> any_unavailable (map E (causes E i))"

fun any_acquisition :: "exc list \<Rightarrow> bool" where
  "any_acquisition [] \<longleftrightarrow> False"
| "any_acquisition (e # es) \<longleftrightarrow>
     (if \<not> is_a e PyException then False
      else if (case xc_sqlstate e of None \<Rightarrow> False | Some s \<Rightarrow> s \<in> set ACQUISITION_ONLY_SQLSTATES) then True
      else any_acquisition es)"

definition is_connection_acquisition_unavailable :: "excs \<Rightarrow> nat \<Rightarrow> bool" where
  "is_connection_acquisition_unavailable E i \<longleftrightarrow>
     is_database_unavailable E i \<or> any_acquisition (map E (causes E i))"

section \<open>The chain and its classification\<close>

lemma causes_loop_prefix: "\<exists>more. causes_loop n E c chain = chain @ more \<and> length more \<le> n"
proof (induction n arbitrary: c chain)
  case (Suc n)
  show ?case
  proof (cases c)
    case (Some i)
    from Suc [of "wrapped_by (E i)" "chain @ [i]"] show ?thesis
      by (auto simp: Some)
  qed simp
qed simp

lemma causes_loop_distinct: "distinct chain \<Longrightarrow> distinct (causes_loop n E c chain)"
  by (induction n arbitrary: c chain) (auto split: option.split)

text \<open>The chain ends on cyclic causes too: at most eight different exceptions, the given one first.\<close>

lemma causes_bounded: "distinct (causes E i) \<and> length (causes E i) \<le> MAX_CHAIN \<and> causes E i \<noteq> [] \<and> hd (causes E i) = i"
proof -
  have "causes E i = causes_loop 7 E (wrapped_by (E i)) [i]"
    by (simp add: causes_def MAX_CHAIN_def eval_nat_numeral)
  moreover obtain more where "causes_loop 7 E (wrapped_by (E i)) [i] = [i] @ more" "length more \<le> 7"
    using causes_loop_prefix by blast
  ultimately show ?thesis
    using causes_loop_distinct [of "[i]" 7 E "wrapped_by (E i)"] by (simp add: MAX_CHAIN_def)
qed

text \<open>Every exception of the chain but the first is what the one before it wraps.\<close>

lemma causes_loop_linked:
  assumes "chain \<noteq> [] \<Longrightarrow> c = wrapped_by (E (last chain))"
    and "\<And>k. Suc k < length chain \<Longrightarrow> wrapped_by (E (chain ! k)) = Some (chain ! Suc k)"
    and "Suc k < length (causes_loop n E c chain)"
  shows "wrapped_by (E (causes_loop n E c chain ! k)) = Some (causes_loop n E c chain ! Suc k)"
  using assms
proof (induction n arbitrary: c chain)
  case (Suc n)
  show ?case
  proof (cases c)
    case None
    with Suc.prems show ?thesis by simp
  next
    case (Some i)
    show ?thesis
    proof (cases "i \<in> set chain")
      case True
      with Suc.prems Some show ?thesis by simp
    next
      case False
      have "wrapped_by (E ((chain @ [i]) ! j)) = Some ((chain @ [i]) ! Suc j)"
        if "Suc j < length (chain @ [i])" for j
      proof (cases "Suc j = length chain")
        case True
        then have "chain \<noteq> []" by auto
        moreover from this have "chain ! j = last chain" using True by (simp add: last_conv_nth flip: True)
        ultimately have "chain \<noteq> []" "chain ! j = last chain" .
        with Suc.prems(1) Some True show ?thesis by (auto simp: nth_append)
      next
        case False
        with that have "Suc j < length chain" by simp
        with Suc.prems(2) [of j] show ?thesis by (simp add: nth_append)
      qed
      then show ?thesis
        using Suc.IH [of "chain @ [i]" "wrapped_by (E i)"] Suc.prems(3) Some False by simp
    qed
  qed
qed simp

lemma all_le_Suc: "(\<forall>j\<le>Suc k. P j) \<longleftrightarrow> P 0 \<and> (\<forall>j\<le>k. P (Suc j))"
  by (metis Suc_le_mono le0 not0_implies_Suc)

lemma any_unavailable_iff:
  "any_unavailable es \<longleftrightarrow> (\<exists>k<length es. says_unavailable (es ! k) \<and> (\<forall>j\<le>k. is_a (es ! j) PyException))"
proof (induction es)
  case (Cons e es)
  let ?Q = "\<lambda>es k. says_unavailable (es ! k) \<and> (\<forall>j\<le>k. is_a (es ! j) PyException)"
  have "(\<exists>k<length (e # es). ?Q (e # es) k) \<longleftrightarrow> ?Q (e # es) 0 \<or> (\<exists>k<length es. ?Q (e # es) (Suc k))"
    by (simp only: length_Cons Ex_less_Suc2)
  then show ?case using Cons by (simp add: all_le_Suc)
qed simp

end
