(* ===== verification/Resources.thy ===== *)
theory Resources
  imports DbErrors
begin

text \<open>
  The two resources the process owns: \<open>Database\<close> (\<open>db/session.py\<close>) and \<open>RedisClient\<close>
  (\<open>cache/redis_client.py\<close>), their release, their probes, and the transaction scope.

  What a library call does is an argument: \<open>None\<close> when it returns, \<open>Some i\<close> when it raises
  the exception \<open>i\<close>. An exception that leaves a method is one of those, or a new one of the
  platform with its cause.
\<close>

section \<open>Exceptions that leave a method\<close>

datatype raised = Heap nat | New platform_error "nat option"

fun raised_is :: "excs \<Rightarrow> raised \<Rightarrow> exc_class \<Rightarrow> bool" where
  "raised_is E (Heap i) c = is_a (E i) c"
| "raised_is E (New e cause) c =
     (case c of PyException \<Rightarrow> True | Platform d \<Rightarrow> pe_class e \<le> d | _ \<Rightarrow> False)"

fun class_name :: "platform_class \<Rightarrow> pystr" where
  "class_name PlatformError = lit ''PlatformError''"
| "class_name ConfigurationError = lit ''ConfigurationError''"
| "class_name InfrastructureError = lit ''InfrastructureError''"
| "class_name DatabaseError = lit ''DatabaseError''"
| "class_name CacheError = lit ''CacheError''"

fun raised_type :: "excs \<Rightarrow> raised \<Rightarrow> pystr" where
  "raised_type E (Heap i) = xc_type (E i)"
| "raised_type E (New e cause) = class_name (pe_class e)"

text \<open>\<open>is_database_unavailable\<close> of such an exception: a new one has no attributes but its cause.\<close>

fun raised_unavailable :: "excs \<Rightarrow> raised \<Rightarrow> bool" where
  "raised_unavailable E (Heap i) = is_database_unavailable E i"
| "raised_unavailable E (New e cause) = any_unavailable (map E (causes_loop (MAX_CHAIN - 1) E cause []))"

section \<open>A resource that is released once\<close>

text \<open>
  What the owner of a resource relies on. \<open>release o r\<close>: the outcome \<open>o\<close> of the library's
  close; the exception that leaves, and the resource afterwards. A release that fails can be
  tried again, one that has succeeded is final, and no new work is accepted once a release
  was begun.
\<close>

locale managed_resource =
  fixes release :: "'o option \<Rightarrow> 'r \<Rightarrow> 'o option \<times> 'r"
    and accepting released wf :: "'r \<Rightarrow> bool"
  assumes released_final: "released r \<Longrightarrow> release o' r = (None, r)"
    and release_outcome: "\<not> released r \<Longrightarrow> fst (release o' r) = o'"
    and release_effect: "\<not> released r \<Longrightarrow> released (snd (release o' r)) \<longleftrightarrow> o' = None"
    and release_wf: "wf r \<Longrightarrow> wf (snd (release o' r)) \<and> \<not> accepting (snd (release o' r))"
begin

text \<open>Any number of attempts.\<close>

definition attempts :: "'o option list \<Rightarrow> 'r \<Rightarrow> 'r" where
  "attempts os r = foldl (\<lambda>r o'. snd (release o' r)) r os"

lemma attempts_simps [simp]:
  "attempts [] r = r" "attempts (o' # os) r = attempts os (snd (release o' r))"
  by (simp_all add: attempts_def)

lemma released_stays: "released r \<Longrightarrow> attempts os r = r"
  by (induction os) (simp_all add: released_final)

lemma released_iff: "released (attempts os r) \<longleftrightarrow> released r \<or> None \<in> set os"
proof (induction os arbitrary: r)
  case (Cons o' os)
  show ?case
  proof (cases "released r")
    case True
    then show ?thesis using released_stays [of r "o' # os"] by simp
  next
    case False
    then show ?thesis using Cons release_effect [of r o'] by auto
  qed
qed simp

lemma refuses_after_attempt: "wf r \<Longrightarrow> os \<noteq> [] \<Longrightarrow> \<not> accepting (attempts os r)"
proof (induction os arbitrary: r)
  case (Cons o' os)
  then show ?case using release_wf [of r o'] by (cases os) auto
qed simp

end

section \<open>\<open>Database\<close>\<close>

record database =
  db_disposing :: bool
  db_disposed :: bool

definition new_database :: database where
  "new_database = \<lparr>db_disposing = False, db_disposed = False\<rparr>"

definition dispose :: "'e option \<Rightarrow> database \<Rightarrow> 'e option \<times> database" where
  "dispose engine_dispose db =
     (if db_disposed db then (None, db)
      else let db' = db\<lparr>db_disposing := True\<rparr> in
        case engine_dispose of Some e \<Rightarrow> (Some e, db') | None \<Rightarrow> (None, db'\<lparr>db_disposed := True\<rparr>))"

definition disposed_error :: raised where
  "disposed_error = New (platform_error DatabaseError (lit ''The database has been disposed.'') []) None"

definition is_connectivity_error :: "excs \<Rightarrow> nat \<Rightarrow> bool" where
  "is_connectivity_error E i \<longleftrightarrow>
     (\<exists>c\<in>set [SQLAlchemyErr, PostgresErr, InterfaceErr, OSErr, TimeoutErr]. is_a (E i) c)"

definition unreachable_message :: pystr where
  "unreachable_message = lit ''PostgreSQL is not reachable.''"

text \<open>\<open>_unreachable(exc, phase=...)\<close>\<close>

definition unreachable :: "excs \<Rightarrow> raised \<Rightarrow> pystr \<Rightarrow> raised" where
  "unreachable E x phase =
     New (platform_error DatabaseError unreachable_message
       [(lit ''reason'', DText (lit ''postgres_unreachable'')), (lit ''phase'', DText phase),
        (lit ''error_type'', DText (raised_type E x))])
       (case x of Heap i \<Rightarrow> Some i | New _ _ \<Rightarrow> None)"

text \<open>\<open>ping\<close>: the outcome of connecting and running \<open>SELECT 1\<close> in time.\<close>

definition ping :: "excs \<Rightarrow> database \<Rightarrow> nat option \<Rightarrow> raised option" where
  "ping E db query =
     (if db_disposing db then Some disposed_error
      else case query of
        None \<Rightarrow> None
      | Some i \<Rightarrow> Some (if is_connectivity_error E i
          then New (platform_error DatabaseError unreachable_message [(lit ''error_type'', DText (xc_type (E i)))]) (Some i)
          else Heap i))"

section \<open>The transaction scope\<close>

text \<open>
  What SQLAlchemy does for one scope: opening the session and its transaction, acquiring the
  connection, the session initializers, and \<open>COMMIT\<close> or \<open>ROLLBACK\<close> (an exception of the
  latter replaces the one being handled).
\<close>

record scope =
  tx_begin :: "nat option"
  tx_connection :: "nat option"
  tx_initializers :: "nat option list"
  tx_commit :: "nat option"
  tx_rollback :: "nat option"

datatype tx_event = Begin | Acquire | Initialize nat | Body | Commit | Rollback | Close

fun run_initializers :: "nat \<Rightarrow> nat option list \<Rightarrow> nat option \<times> tx_event list" where
  "run_initializers k [] = (None, [])"
| "run_initializers k (Some i # os) = (Some i, [Initialize k])"
| "run_initializers k (None # os) = (case run_initializers (Suc k) os of (r, evs) \<Rightarrow> (r, Initialize k # evs))"

text \<open>The block: connection, initializers, and the body of the caller.\<close>

definition run_block :: "excs \<Rightarrow> scope \<Rightarrow> raised + 'a \<Rightarrow> (raised + 'a) \<times> tx_event list" where
  "run_block E t body =
     (case tx_connection t of
        Some i \<Rightarrow>
          (Inl (if is_a (E i) PyException \<and> is_connection_acquisition_unavailable E i
                then unreachable E (Heap i) (lit ''connection_acquisition'') else Heap i), [Acquire])
      | None \<Rightarrow>
          (case run_initializers 0 (tx_initializers t) of
             (Some i, evs) \<Rightarrow> (Inl (Heap i), Acquire # evs)
           | (None, evs) \<Rightarrow> (body, Acquire # evs @ [Body])))"

definition run_scope :: "excs \<Rightarrow> scope \<Rightarrow> raised + 'a \<Rightarrow> (raised + 'a) \<times> tx_event list" where
  "run_scope E t body =
     (case tx_begin t of
        Some i \<Rightarrow> (Inl (Heap i), [Begin])
      | None \<Rightarrow>
          (case run_block E t body of
             (Inl x, evs) \<Rightarrow>
               (Inl (case tx_rollback t of None \<Rightarrow> x | Some i \<Rightarrow> Heap i), Begin # evs @ [Rollback, Close])
           | (Inr v, evs) \<Rightarrow>
               (case tx_commit t of
                  None \<Rightarrow> (Inr v, Begin # evs @ [Commit, Close])
                | Some i \<Rightarrow> (Inl (Heap i), Begin # evs @ [Commit, Rollback, Close]))))"

text \<open>The outer handler.\<close>

definition normalise :: "excs \<Rightarrow> raised \<Rightarrow> raised" where
  "normalise E x =
     (if \<not> raised_is E x PyException then x
      else if raised_is E x (Platform DatabaseError) \<or> \<not> raised_unavailable E x then x
      else unreachable E x (lit ''transaction''))"

definition transaction :: "excs \<Rightarrow> database \<Rightarrow> scope \<Rightarrow> raised + 'a \<Rightarrow> (raised + 'a) \<times> tx_event list" where
  "transaction E db t body =
     (if db_disposing db then (Inl disposed_error, [])
      else case run_scope E t body of
        (Inl x, evs) \<Rightarrow> (Inl (normalise E x), evs)
      | (Inr v, evs) \<Rightarrow> (Inr v, evs))"

section \<open>\<open>RedisClient\<close>\<close>

record redis =
  rc_closing :: bool
  rc_closed :: bool

definition new_redis :: redis where
  "new_redis = \<lparr>rc_closing = False, rc_closed = False\<rparr>"

definition close_redis :: "'e option \<Rightarrow> redis \<Rightarrow> 'e option \<times> redis" where
  "close_redis aclose rc =
     (if rc_closed rc then (None, rc)
      else let rc' = rc\<lparr>rc_closing := True\<rparr> in
        case aclose of Some e \<Rightarrow> (Some e, rc') | None \<Rightarrow> (None, rc'\<lparr>rc_closed := True\<rparr>))"

definition cache_error :: "pystr \<Rightarrow> pystr \<Rightarrow> (pystr \<times> detail) list \<Rightarrow> nat option \<Rightarrow> raised" where
  "cache_error message reason extra cause =
     New (platform_error CacheError message ((lit ''reason'', DText reason) # extra)) cause"

definition is_redis_failure :: "excs \<Rightarrow> nat \<Rightarrow> bool" where
  "is_redis_failure E i \<longleftrightarrow> is_a (E i) RedisErr \<or> is_a (E i) OSErr \<or> is_a (E i) TimeoutErr"

text \<open>The reply to \<open>PING\<close>: whether it is exactly \<open>True\<close>.\<close>

definition redis_ping :: "excs \<Rightarrow> redis \<Rightarrow> nat + bool \<Rightarrow> raised option" where
  "redis_ping E rc reply =
     (if rc_closing rc then Some (New (platform_error CacheError (lit ''The Redis client has been closed.'') []) None)
      else case reply of
        Inl i \<Rightarrow> Some (if is_redis_failure E i
          then cache_error (lit ''Redis is not reachable.'') (lit ''redis_unreachable'')
                 [(lit ''error_type'', DText (xc_type (E i)))] (Some i)
          else Heap i)
      | Inr ok \<Rightarrow>
          if ok then None
          else Some (cache_error (lit ''Redis answered PING with an unexpected reply.'')
                 (lit ''redis_ping_unexpected_reply'') [] None))"

text \<open>\<open>int(t)\<close> of a string; \<open>None\<close> is the \<open>ValueError\<close>.\<close>

fun strip_left :: "pystr \<Rightarrow> pystr" where
  "strip_left [] = []"
| "strip_left (c # t) = (if is_space c then strip_left t else c # t)"

definition py_strip :: "pystr \<Rightarrow> pystr" where
  "py_strip t = rev (strip_left (rev (strip_left t)))"

fun digit_groups :: "pyrt \<Rightarrow> pystr \<Rightarrow> bool" where
  "digit_groups R [] \<longleftrightarrow> False"
| "digit_groups R [c] \<longleftrightarrow> is_digit R c"
| "digit_groups R (c # d # t) \<longleftrightarrow> is_digit R c \<and> (if d = c_under then digit_groups R t else digit_groups R (d # t))"

definition py_int :: "pyrt \<Rightarrow> pystr \<Rightarrow> int option" where
  "py_int R t =
     (let u = py_strip t;
          ds = (if u \<noteq> [] \<and> (hd u = c_plus \<or> hd u = c_dash) then tl u else u);
          digits = filter (\<lambda>c. c \<noteq> c_under) ds
      in if \<not> digit_groups R ds \<or> 4300 < length digits then None
         else Some (if u \<noteq> ds \<and> hd u = c_dash then - int (int_value R digits) else int (int_value R digits)))"

definition parse_major_minor :: "pyrt \<Rightarrow> pystr \<Rightarrow> int \<times> int" where
  "parse_major_minor R version =
     (case py_split version [c_dot] of
        a # b # _ \<Rightarrow> (case (py_int R a, py_int R b) of (Some x, Some y) \<Rightarrow> (x, y) | _ \<Rightarrow> (0, 0))
      | _ \<Rightarrow> (0, 0))"

definition older :: "int \<times> int \<Rightarrow> int \<times> int \<Rightarrow> bool" where
  "older v w \<longleftrightarrow> fst v < fst w \<or> (fst v = fst w \<and> snd v < snd w)"

definition MINIMUM_REDIS_VERSION :: "int \<times> int" where
  "MINIMUM_REDIS_VERSION = (7, 2)"

text \<open>\<open>verify_baseline\<close>: \<open>info\<close> is the version of the server information, or its failure.\<close>

definition verify_redis_baseline :: "pyrt \<Rightarrow> excs \<Rightarrow> redis \<Rightarrow> nat + bool \<Rightarrow> nat + pystr \<Rightarrow> raised + pystr" where
  "verify_redis_baseline R E rc reply info =
     (case redis_ping E rc reply of
        Some x \<Rightarrow> Inl x
      | None \<Rightarrow>
          (case info of
             Inl i \<Rightarrow> Inl (if is_redis_failure E i
               then cache_error (lit ''Redis server information is not available.'') (lit ''redis_info_unavailable'')
                      [(lit ''error_type'', DText (xc_type (E i)))] (Some i)
               else Heap i)
           | Inr version \<Rightarrow>
               if older (parse_major_minor R version) MINIMUM_REDIS_VERSION
               then Inl (cache_error (lit ''Redis is older than the supported minimum.'') (lit ''redis_version_unsupported'')
                      [(lit ''server_version'', DText version)] None)
               else Inr version))"

section \<open>Both are managed resources\<close>

definition database_wf :: "database \<Rightarrow> bool" where
  "database_wf db \<longleftrightarrow> (db_disposed db \<longrightarrow> db_disposing db)"

definition redis_wf :: "redis \<Rightarrow> bool" where
  "redis_wf rc \<longleftrightarrow> (rc_closed rc \<longrightarrow> rc_closing rc)"

interpretation database: managed_resource dispose "\<lambda>db. \<not> db_disposing db" db_disposed database_wf
  by unfold_locales (auto simp: dispose_def database_wf_def Let_def split: option.split)

interpretation redis: managed_resource close_redis "\<lambda>rc. \<not> rc_closing rc" rc_closed redis_wf
  by unfold_locales (auto simp: close_redis_def redis_wf_def Let_def split: option.split)

end
