(* ===== verification/Runtime.thy ===== *)
theory Runtime
  imports Resources
begin

text \<open>
  \<open>platform/infrastructure/runtime.py\<close>: the owner of the database and the Redis client, as a
  transition system. A step is what the event loop runs between two suspension points of
  \<open>start()\<close>, of a \<open>stop()\<close>, or of the release task; which of them runs next, how each awaited
  call ends and when a caller is cancelled is not determined.

  Beside the fields of the object, the state says at which \<open>await\<close> the single \<open>start()\<close> that
  got past its guard is suspended, and at which the release task. It also records whether the
  pools of the two resources are open in fact, which the program does not look at.
\<close>

section \<open>The object\<close>

datatype runtime_state = NEW | STARTING | READY | STOPPING | STOPPED

text \<open>Where the release task is: created, awaiting one of the two releases, done or cancelled.\<close>

datatype release_task = Created | ClosingRedis | DisposingDatabase | TaskDone | TaskCancelled

text \<open>Where \<open>start()\<close> is suspended.\<close>

datatype start_pc = NoStart | VerifyingDatabase | VerifyingRedis

record runtime =
  ir_state :: runtime_state
  ir_database :: "database option"
  ir_redis :: "redis option"
  ir_task :: "release_task option"
  ir_start :: start_pc
  ir_database_open :: bool
  ir_redis_open :: bool

definition new_runtime :: runtime where
  "new_runtime = \<lparr>ir_state = NEW, ir_database = None, ir_redis = None, ir_task = None, ir_start = NoStart,
     ir_database_open = False, ir_redis_open = False\<rparr>"

definition owned_resources :: "runtime \<Rightarrow> pystr list" where
  "owned_resources s =
     (if ir_database s = None then [] else [lit ''postgres'']) @ (if ir_redis s = None then [] else [lit ''redis''])"

text \<open>The properties \<open>database\<close> and \<open>redis\<close>; \<open>None\<close> is the \<open>RuntimeError\<close>.\<close>

definition the_database :: "runtime \<Rightarrow> database option" where
  "the_database s = (if ir_state s \<noteq> READY then None else ir_database s)"

definition the_redis :: "runtime \<Rightarrow> redis option" where
  "the_redis s = (if ir_state s \<noteq> READY then None else ir_redis s)"

section \<open>The release task\<close>

definition finish_release :: "runtime \<Rightarrow> runtime" where
  "finish_release s =
     (if owned_resources s \<noteq> [] then s\<lparr>ir_task := Some TaskDone\<rparr>
      else s\<lparr>ir_task := Some TaskDone, ir_state := STOPPED\<rparr>)"

text \<open>
  The task up to its next suspension: from the start of the database part, and from the start.
  A release that has been started refuses new work of its resource.
\<close>

definition release_database :: "runtime \<Rightarrow> runtime" where
  "release_database s =
     (case ir_database s of
        None \<Rightarrow> finish_release s
      | Some db \<Rightarrow> s\<lparr>ir_task := Some DisposingDatabase, ir_database := Some (snd (dispose (Some ()) db))\<rparr>)"

definition release_redis :: "runtime \<Rightarrow> runtime" where
  "release_redis s =
     (case ir_redis s of
        None \<Rightarrow> release_database s
      | Some rc \<Rightarrow> s\<lparr>ir_task := Some ClosingRedis, ir_redis := Some (snd (close_redis (Some ()) rc))\<rparr>)"

text \<open>
  How an awaited release ends: \<open>Released\<close> when the library has closed the pool, \<open>NotReleased\<close>
  when it raised or the timeout expired.
\<close>

datatype release_end = Released | NotReleased

definition redis_ended :: "release_end \<Rightarrow> runtime \<Rightarrow> runtime" where
  "redis_ended r s = release_database
     (case r of Released \<Rightarrow> s\<lparr>ir_redis := None, ir_redis_open := False\<rparr> | NotReleased \<Rightarrow> s)"

definition database_ended :: "release_end \<Rightarrow> runtime \<Rightarrow> runtime" where
  "database_ended r s = finish_release
     (case r of Released \<Rightarrow> s\<lparr>ir_database := None, ir_database_open := False\<rparr> | NotReleased \<Rightarrow> s)"

text \<open>\<open>_release\<close> creates a task unless one is running.\<close>

definition task_running :: "runtime \<Rightarrow> bool" where
  "task_running s \<longleftrightarrow> (case ir_task s of None \<Rightarrow> False | Some t \<Rightarrow> t \<notin> {TaskDone, TaskCancelled})"

definition request_release :: "runtime \<Rightarrow> runtime" where
  "request_release s = (if task_running s then s else s\<lparr>ir_task := Some Created\<rparr>)"

section \<open>\<open>start\<close> and \<open>stop\<close>\<close>

text \<open>Any failure of \<open>start()\<close>, its cancellation included.\<close>

definition start_failed :: "runtime \<Rightarrow> runtime" where
  "start_failed s = request_release (s\<lparr>ir_state := STOPPING, ir_start := NoStart\<rparr>)"

text \<open>\<open>stop()\<close> up to its suspension; \<open>None\<close> is the \<open>RuntimeError\<close>.\<close>

definition stop :: "runtime \<Rightarrow> runtime option" where
  "stop s =
     (case ir_state s of
        NEW \<Rightarrow> Some (s\<lparr>ir_state := STOPPED\<rparr>)
      | STOPPED \<Rightarrow> Some s
      | STARTING \<Rightarrow> None
      | READY \<Rightarrow> Some (request_release (s\<lparr>ir_state := STOPPING\<rparr>))
      | STOPPING \<Rightarrow> Some (request_release s))"

section \<open>Steps\<close>

datatype label =
    Start bool            \<comment> \<open>whether the engine could be created\<close>
  | DatabaseVerified bool \<comment> \<open>whether the Redis client could be created\<close>
  | RedisVerified
  | StartFails
  | Stop
  | TaskRuns
  | RedisReleaseEnds release_end
  | DatabaseReleaseEnds release_end
  | TaskCancelledAt

inductive step :: "runtime \<Rightarrow> label \<Rightarrow> runtime \<Rightarrow> bool" where
  start: "ir_state s = NEW \<Longrightarrow>
    step s (Start True) (s\<lparr>ir_state := STARTING, ir_start := VerifyingDatabase,
      ir_database := Some new_database, ir_database_open := True\<rparr>)"
| start_raises: "ir_state s = NEW \<Longrightarrow> step s (Start False) (start_failed (s\<lparr>ir_state := STARTING\<rparr>))"
| database_verified: "ir_start s = VerifyingDatabase \<Longrightarrow>
    step s (DatabaseVerified True) (s\<lparr>ir_start := VerifyingRedis, ir_redis := Some new_redis, ir_redis_open := True\<rparr>)"
| redis_raises: "ir_start s = VerifyingDatabase \<Longrightarrow> step s (DatabaseVerified False) (start_failed s)"
| redis_verified: "ir_start s = VerifyingRedis \<Longrightarrow> step s RedisVerified (s\<lparr>ir_start := NoStart, ir_state := READY\<rparr>)"
| start_fails: "ir_start s \<noteq> NoStart \<Longrightarrow> step s StartFails (start_failed s)"
| stop: "stop s = Some t \<Longrightarrow> step s Stop t"
| task_runs: "ir_task s = Some Created \<Longrightarrow> step s TaskRuns (release_redis s)"
| redis_ends: "ir_task s = Some ClosingRedis \<Longrightarrow> step s (RedisReleaseEnds r) (redis_ended r s)"
| database_ends: "ir_task s = Some DisposingDatabase \<Longrightarrow> step s (DatabaseReleaseEnds r) (database_ended r s)"
| task_cancelled: "task_running s \<Longrightarrow> step s TaskCancelledAt (s\<lparr>ir_task := Some TaskCancelled\<rparr>)"

inductive reachable :: "runtime \<Rightarrow> bool" where
  initial: "reachable new_runtime"
| onward: "reachable s \<Longrightarrow> step s l t \<Longrightarrow> reachable t"

inductive_cases start_step: "step s (Start b) t"
inductive_cases task_step: "step s TaskRuns t"
inductive_cases redis_step: "step s (RedisReleaseEnds r) t"
inductive_cases database_step: "step s (DatabaseReleaseEnds r) t"
inductive_simps stop_step: "step s Stop t"

code_pred step .

lemmas lifecycle_defs =
  release_redis_def release_database_def finish_release_def redis_ended_def database_ended_def
  request_release_def start_failed_def owned_resources_def task_running_def

section \<open>Waiting for the release\<close>

text \<open>
  The loop of \<open>_release\<close> that waits for the task: what wakes the caller, in order. \<open>None\<close>: it
  is still waiting.
\<close>

datatype wake = CallerCancelled | TaskReturned | TaskRaised | TaskItselfCancelled

datatype waited = Returned | CancelledError | OtherError

fun await_release :: "bool \<Rightarrow> wake list \<Rightarrow> waited option" where
  "await_release pending [] = None"
| "await_release pending (CallerCancelled # ws) = await_release True ws"
| "await_release pending (TaskReturned # ws) = Some (if pending then CancelledError else Returned)"
| "await_release pending (TaskRaised # ws) = Some OtherError"
| "await_release pending (TaskItselfCancelled # ws) = Some CancelledError"

section \<open>Readiness\<close>

datatype check_status = OK | FAILED | SKIPPED

record readiness_report =
  rr_ready :: bool
  rr_checks :: "(pystr \<times> check_status) list"

definition readiness :: "bool \<Rightarrow> check_status \<Rightarrow> check_status \<Rightarrow> readiness_report" where
  "readiness ready postgres redis =
     \<lparr>rr_ready = ready, rr_checks = [(lit ''postgres'', postgres), (lit ''redis'', redis)]\<rparr>"

text \<open>
  The method takes the two resources at once and probes them one after the other; a \<open>stop\<close> may
  run while it waits for the first answer, so \<open>meanwhile\<close> is what happens to the Redis client
  until its turn comes. An exception that is no \<open>InfrastructureError\<close> leaves the method.
\<close>

definition check_readiness :: "excs \<Rightarrow> runtime \<Rightarrow> nat option \<Rightarrow> (redis \<Rightarrow> redis) \<Rightarrow> nat + bool \<Rightarrow> raised + readiness_report" where
  "check_readiness E s query meanwhile reply =
     (case (ir_database s, ir_redis s) of
        (Some db, Some rc) \<Rightarrow>
          (if ir_state s \<noteq> READY then Inr (readiness False SKIPPED SKIPPED)
           else case ping E db query of
             Some x \<Rightarrow> (if raised_is E x (Platform InfrastructureError) then Inr (readiness False FAILED SKIPPED) else Inl x)
           | None \<Rightarrow> (case redis_ping E (meanwhile rc) reply of
               Some x \<Rightarrow> (if raised_is E x (Platform InfrastructureError) then Inr (readiness False OK FAILED) else Inl x)
             | None \<Rightarrow> Inr (readiness True OK OK)))
      | _ \<Rightarrow> Inr (readiness False SKIPPED SKIPPED))"

end
