(* ===== verification/Transactions.thy ===== *)
theory Transactions
  imports Resources
begin

text \<open>
  What the transaction scope promises its callers: when it commits, and which exceptions leave
  it.
\<close>

section \<open>Commit and rollback\<close>

text \<open>Everything before the body succeeds.\<close>

definition scope_opens :: "database \<Rightarrow> scope \<Rightarrow> bool" where
  "scope_opens db t \<longleftrightarrow> \<not> db_disposing db \<and> tx_begin t = None \<and> tx_connection t = None
     \<and> list_all (\<lambda>r. r = None) (tx_initializers t)"

lemma initializers_run:
  "fst (run_initializers k os) = None \<longleftrightarrow> list_all (\<lambda>r. r = None) os"
  by (induction k os rule: run_initializers.induct) (auto split: prod.split)

lemma initializers_events:
  "list_all (\<lambda>r. r = None) os \<Longrightarrow> snd (run_initializers k os) = map Initialize [k ..< k + length os]"
  by (induction k os rule: run_initializers.induct) (auto simp: upt_conv_Cons simp del: upt_Suc split: prod.split)

lemma initializers_only: "x \<in> set (snd (run_initializers k os)) \<Longrightarrow> \<exists>j. x = Initialize j"
  by (induction k os rule: run_initializers.induct) (auto split: prod.splits)

lemma block_opens:
  assumes "tx_connection t = None" "list_all (\<lambda>r. r = None) (tx_initializers t)"
  shows "run_block E t body = (body, Acquire # map Initialize [0 ..< length (tx_initializers t)] @ [Body])"
proof -
  obtain r evs where run: "run_initializers 0 (tx_initializers t) = (r, evs)" by (rule prod.exhaust)
  then show ?thesis
    using assms initializers_run [of 0 "tx_initializers t"] initializers_events [OF assms(2), of 0]
    by (simp add: run_block_def)
qed

lemma block_fails:
  assumes "tx_connection t \<noteq> None \<or> \<not> list_all (\<lambda>r. r = None) (tx_initializers t)"
  shows "\<exists>x evs. run_block E t body = (Inl x, evs) \<and> Body \<notin> set evs \<and> Commit \<notin> set evs"
proof (cases "tx_connection t")
  case None
  obtain r evs where run: "run_initializers 0 (tx_initializers t) = (r, evs)" by (rule prod.exhaust)
  then show ?thesis
    using assms None initializers_run [of 0 "tx_initializers t"] initializers_only [of _ 0 "tx_initializers t"]
    by (fastforce simp: run_block_def)
qed (simp add: run_block_def)

lemma transaction_effects:
  "(Commit \<in> set (snd (transaction E db t body)) \<longleftrightarrow> scope_opens db t \<and> (\<exists>v. body = Inr v))
   \<and> (fst (transaction E db t body) = Inr v \<longleftrightarrow> scope_opens db t \<and> body = Inr v \<and> tx_commit t = None)
   \<and> (fst (transaction E db t body) = Inr v \<longrightarrow> snd (transaction E db t body)
        = [Begin, Acquire] @ map Initialize [0 ..< length (tx_initializers t)] @ [Body, Commit, Close])"
proof (cases "scope_opens db t")
  case True
  then show ?thesis
    by (cases body) (auto simp: transaction_def run_scope_def scope_opens_def block_opens split: option.split)
next
  case False
  show ?thesis
  proof (cases "db_disposing db \<or> tx_begin t \<noteq> None")
    case True
    then show ?thesis using False by (auto simp: transaction_def run_scope_def)
  next
    case opened: False
    with False obtain x evs where "run_block E t body = (Inl x, evs)" "Commit \<notin> set evs"
      using block_fails [of t E body] by (auto simp: scope_opens_def)
    with opened False show ?thesis by (auto simp: transaction_def run_scope_def)
  qed
qed

text \<open>
  C21: The scope attempts a commit exactly when it could be opened, every initializer ran and
  the body returned; it returns a value exactly when that commit succeeds, and then it ran the
  initializers in order, the body, the commit, and nothing else. Otherwise it never commits.
\<close>

theorem transaction_commits_iff:
  "(Commit \<in> set (snd (transaction E db t body)) \<longleftrightarrow> scope_opens db t \<and> (\<exists>v. body = Inr v))
   \<and> (fst (transaction E db t body) = Inr v \<longleftrightarrow> scope_opens db t \<and> body = Inr v \<and> tx_commit t = None)
   \<and> (fst (transaction E db t body) = Inr v \<longrightarrow> snd (transaction E db t body)
        = [Begin, Acquire] @ map Initialize [0 ..< length (tx_initializers t)] @ [Body, Commit, Close])"
  by (rule transaction_effects)

section \<open>The exceptions that leave\<close>

lemma unreachable_is_database_error: "raised_is E (unreachable E x phase) (Platform DatabaseError)"
  by (simp add: unreachable_def platform_error_def)

text \<open>
  No outage of PostgreSQL leaves the scope under its own type: an exception that leaves is
  a \<open>DatabaseError\<close>, or is not recognised as an outage, or is no \<open>Exception\<close> at all, as a
  cancellation. What is no \<open>Exception\<close> leaves as it was raised.
\<close>

theorem transaction_outage_is_database_error:
  "(case fst (transaction E db t body) of Inr v \<Rightarrow> True
    | Inl x \<Rightarrow> raised_is E x (Platform DatabaseError) \<or> \<not> raised_unavailable E x \<or> \<not> raised_is E x PyException)
   \<and> (scope_opens db t \<and> tx_rollback t = None \<and> body = Inl c \<and> \<not> raised_is E c PyException
        \<longrightarrow> fst (transaction E db t body) = Inl c)"
proof
  show "case fst (transaction E db t body) of Inr v \<Rightarrow> True
    | Inl x \<Rightarrow> raised_is E x (Platform DatabaseError) \<or> \<not> raised_unavailable E x \<or> \<not> raised_is E x PyException"
    using unreachable_is_database_error
    by (auto simp: transaction_def normalise_def disposed_error_def platform_error_def split: sum.split prod.split)
  show "scope_opens db t \<and> tx_rollback t = None \<and> body = Inl c \<and> \<not> raised_is E c PyException
        \<longrightarrow> fst (transaction E db t body) = Inl c"
    by (auto simp: transaction_def run_scope_def normalise_def scope_opens_def block_opens)
qed

text \<open>
  C22: An outage of Redis inside a transaction is reported as one of PostgreSQL: a \<open>CacheError\<close>
  whose cause is a timeout leaves the scope as \<open>DatabaseError\<close>.
\<close>

theorem transaction_blames_database:
  assumes "scope_opens db t" "tx_rollback t = None" "body = Inl (New e (Some i))" "pe_class e = CacheError"
    and "is_a (E i) PyException" "is_a (E i) OSErr" "is_a (E i) TimeoutErr"
  shows "\<exists>d. fst (transaction E db t body) = Inl (New d None) \<and> pe_class d = DatabaseError
    \<and> pe_message d = unreachable_message"
proof -
  have "raised_unavailable E (New e (Some i))"
    using assms(5-7) causes_loop_prefix [of 6 E "wrapped_by (E i)" "[i]"]
    by (auto simp: MAX_CHAIN_def says_unavailable_def is_network_failure_def eval_nat_numeral)
  moreover have "\<not> pe_class e \<le> DatabaseError" using assms(4) by (simp add: less_eq_platform_class_def)
  ultimately show ?thesis
    using assms(1-4)
    by (auto simp: transaction_def run_scope_def normalise_def scope_opens_def block_opens unreachable_def platform_error_def)
qed

text \<open>
  However often and with whatever failures in between \<open>dispose\<close> is called, the database is
  disposed exactly when one call of the engine has returned; it accepts no work after the
  first.
\<close>

theorem dispose_retried:
  "(db_disposed (fold (\<lambda>r db. snd (dispose r db)) os new_database) \<longleftrightarrow> None \<in> set os)
   \<and> (db_disposing (fold (\<lambda>r db. snd (dispose r db)) os new_database) \<longleftrightarrow> os \<noteq> [])"
proof -
  have "fold (\<lambda>r db. snd (dispose r db)) os new_database = database.attempts os new_database"
    by (simp add: database.attempts_def foldl_conv_fold)
  moreover have "db_disposing (database.attempts os new_database) \<longleftrightarrow> os \<noteq> []"
    using database.refuses_after_attempt [of new_database os] by (auto simp: new_database_def database_wf_def)
  ultimately show ?thesis by (simp add: database.released_iff) (simp add: new_database_def)
qed

section \<open>Examples\<close>

definition timeout_exc :: exc where
  "timeout_exc = \<lparr>xc_type = lit ''TimeoutError'', xc_classes = [PyException, OSErr, TimeoutErr], xc_orig = None,
     xc_cause = None, xc_invalidated = False, xc_sqlstate = None, xc_errno = None, xc_text = []\<rparr>"

definition quiet_scope :: scope where
  "quiet_scope = \<lparr>tx_begin = None, tx_connection = None, tx_initializers = [None], tx_commit = None, tx_rollback = None\<rparr>"

theorem transaction_commits_iff_witness:
  "snd (transaction (\<lambda>_. timeout_exc) new_database quiet_scope (Inr (7 :: nat)))
     = [Begin, Acquire, Initialize 0, Body, Commit, Close]"
proof -
  have "fst (transaction (\<lambda>_. timeout_exc) new_database quiet_scope (Inr (7 :: nat))) = Inr 7"
    by code_simp
  then show ?thesis
    using transaction_commits_iff [of "\<lambda>_. timeout_exc" new_database quiet_scope "Inr (7 :: nat)" 7]
    by (simp add: quiet_scope_def)
qed

theorem transaction_outage_is_database_error_witness:
  "fst (transaction (\<lambda>_. timeout_exc\<lparr>xc_classes := []\<rparr>) new_database quiet_scope (Inl (Heap 0) :: raised + nat)) = Inl (Heap 0)"
  using transaction_outage_is_database_error
    [of "\<lambda>_. timeout_exc\<lparr>xc_classes := []\<rparr>" new_database quiet_scope "Inl (Heap 0) :: raised + nat" "Heap 0"]
  by (simp add: scope_opens_def new_database_def quiet_scope_def is_a_def)

theorem transaction_blames_database_witness:
  "\<exists>d. fst (transaction (\<lambda>_. timeout_exc) new_database quiet_scope
      (Inl (New (platform_error CacheError (lit ''Redis is not reachable.'') []) (Some 0)) :: raised + nat)) = Inl (New d None)
    \<and> pe_class d = DatabaseError \<and> pe_message d = unreachable_message"
  by (rule transaction_blames_database [where i = 0 and e = "platform_error CacheError (lit ''Redis is not reachable.'') []"])
    (simp_all add: scope_opens_def new_database_def quiet_scope_def platform_error_def is_a_def timeout_exc_def)

end
