(* ===== verification/RuntimeFacts.thy ===== *)
theory RuntimeFacts
  imports Runtime Transactions
begin

text \<open>
  The lifecycle of the infrastructure: an invariant of every reachable state, its refinement of
  an abstract lifecycle of resources, and that a stop completes.
\<close>

section \<open>The invariant\<close>

definition flags_ok :: "runtime \<Rightarrow> bool" where
  "flags_ok s \<longleftrightarrow> (ir_database_open s \<longleftrightarrow> ir_database s \<noteq> None) \<and> (ir_redis_open s \<longleftrightarrow> ir_redis s \<noteq> None)"

definition place_ok :: "runtime \<Rightarrow> bool" where
  "place_ok s \<longleftrightarrow>
     (case ir_state s of
        NEW \<Rightarrow> ir_database s = None \<and> ir_redis s = None \<and> ir_task s = None \<and> ir_start s = NoStart
      | STARTING \<Rightarrow> ir_task s = None \<and> ir_database s = Some new_database
          \<and> (case ir_start s of NoStart \<Rightarrow> False | VerifyingDatabase \<Rightarrow> ir_redis s = None
             | VerifyingRedis \<Rightarrow> ir_redis s = Some new_redis)
      | READY \<Rightarrow> ir_task s = None \<and> ir_start s = NoStart \<and> ir_database s = Some new_database
          \<and> ir_redis s = Some new_redis
      | STOPPING \<Rightarrow> ir_start s = NoStart \<and>
          (case ir_task s of None \<Rightarrow> False | Some ClosingRedis \<Rightarrow> ir_redis s \<noteq> None
           | Some DisposingDatabase \<Rightarrow> ir_database s \<noteq> None | Some _ \<Rightarrow> True)
      | STOPPED \<Rightarrow> ir_start s = NoStart \<and> ir_database s = None \<and> ir_redis s = None \<and> \<not> task_running s)"

definition invariant :: "runtime \<Rightarrow> bool" where
  "invariant s \<longleftrightarrow> flags_ok s \<and> place_ok s"

lemma running_stopping: "invariant s \<Longrightarrow> task_running s \<Longrightarrow> ir_state s = STOPPING \<and> ir_start s = NoStart"
  by (cases "ir_state s") (simp_all add: invariant_def place_ok_def task_running_def)

lemma starting: "invariant s \<Longrightarrow> ir_start s \<noteq> NoStart \<Longrightarrow> ir_state s = STARTING"
  by (cases "ir_state s") (simp_all add: invariant_def place_ok_def split: option.splits)

lemma invariant_start_failed:
  assumes "flags_ok s" "ir_task s = None"
  shows "invariant (start_failed s)"
  using assms
  by (simp add: invariant_def flags_ok_def place_ok_def start_failed_def request_release_def task_running_def)

lemma no_task_starting: "invariant s \<Longrightarrow> ir_state s \<in> {NEW, STARTING, READY} \<Longrightarrow> ir_task s = None"
  by (auto simp: invariant_def place_ok_def)

text \<open>The parts of the release task, from a state in which it may run.\<close>

definition releasing :: "runtime \<Rightarrow> bool" where
  "releasing s \<longleftrightarrow> flags_ok s \<and> ir_state s = STOPPING \<and> ir_start s = NoStart"

lemma releasing_finish: "releasing s \<Longrightarrow> invariant (finish_release s)"
  by (simp add: releasing_def invariant_def flags_ok_def place_ok_def finish_release_def owned_resources_def
      task_running_def)

lemma releasing_database: "releasing s \<Longrightarrow> invariant (release_database s)"
  using releasing_finish [of s]
  by (cases "ir_database s")
    (simp_all add: release_database_def releasing_def invariant_def flags_ok_def place_ok_def)

lemma releasing_redis: "releasing s \<Longrightarrow> invariant (release_redis s)"
  using releasing_database [of s]
  by (cases "ir_redis s")
    (simp_all add: release_redis_def releasing_def invariant_def flags_ok_def place_ok_def)

lemma running_releasing: "invariant s \<Longrightarrow> task_running s \<Longrightarrow> releasing s"
  using running_stopping [of s] by (simp add: releasing_def invariant_def)

lemma releasing_dropped:
  assumes "releasing s"
  shows "releasing (s\<lparr>ir_redis := None, ir_redis_open := False\<rparr>)"
    and "releasing (s\<lparr>ir_database := None, ir_database_open := False\<rparr>)"
  using assms by (simp_all add: releasing_def flags_ok_def)

lemma releasing_ended:
  assumes "releasing s"
  shows "invariant (redis_ended r s)" "invariant (database_ended r s)"
  using assms releasing_dropped [OF assms]
  by (cases r; simp add: redis_ended_def database_ended_def releasing_database releasing_finish)+

lemma invariant_request:
  assumes "flags_ok s" "ir_state s = STOPPING" "ir_start s = NoStart" "task_running s \<Longrightarrow> place_ok s"
  shows "invariant (request_release s)"
  using assms by (cases "task_running s") (simp_all add: request_release_def invariant_def flags_ok_def place_ok_def)

lemma invariant_stop:
  assumes "invariant s" "stop s = Some t"
  shows "invariant t"
proof (cases "ir_state s")
  case NEW
  with assms show ?thesis by (auto simp: stop_def invariant_def flags_ok_def place_ok_def task_running_def)
next
  case READY
  have "invariant (request_release (s\<lparr>ir_state := STOPPING\<rparr>))"
    using assms(1) READY
    by (intro invariant_request) (simp_all add: invariant_def flags_ok_def place_ok_def task_running_def)
  with assms(2) READY show ?thesis by (simp add: stop_def)
next
  case STOPPING
  have "invariant (request_release s)"
    using assms(1) STOPPING by (intro invariant_request) (simp_all add: invariant_def place_ok_def)
  with assms(2) STOPPING show ?thesis by (simp add: stop_def)
qed (use assms in \<open>auto simp: stop_def\<close>)

lemma step_invariant: "step s l t \<Longrightarrow> invariant s \<Longrightarrow> invariant t"
proof (induction rule: step.induct)
  case (start s)
  then show ?case by (simp add: invariant_def flags_ok_def place_ok_def)
next
  case (start_raises s)
  then show ?case by (intro invariant_start_failed) (simp_all add: invariant_def flags_ok_def place_ok_def)
next
  case (database_verified s)
  with starting [of s] show ?case by (simp add: invariant_def flags_ok_def place_ok_def)
next
  case (redis_raises s)
  with starting [of s] show ?case
    by (intro invariant_start_failed) (simp_all add: no_task_starting, simp add: invariant_def)
next
  case (redis_verified s)
  with starting [of s] show ?case by (simp add: invariant_def flags_ok_def place_ok_def)
next
  case (start_fails s)
  with starting [of s] show ?case
    by (intro invariant_start_failed) (simp_all add: no_task_starting, simp add: invariant_def)
next
  case (stop s t)
  then show ?case by (rule invariant_stop [rotated])
next
  case (task_runs s)
  then show ?case by (intro releasing_redis running_releasing) (simp_all add: task_running_def)
next
  case (redis_ends s r)
  then show ?case by (intro releasing_ended running_releasing) (simp_all add: task_running_def)
next
  case (database_ends s r)
  then show ?case by (intro releasing_ended running_releasing) (simp_all add: task_running_def)
next
  case (task_cancelled s)
  with running_stopping [of s] show ?case by (simp add: invariant_def flags_ok_def place_ok_def)
qed

lemma reachable_invariant: "reachable s \<Longrightarrow> invariant s"
proof (induction rule: reachable.induct)
  case initial
  show ?case by (simp add: invariant_def flags_ok_def place_ok_def new_runtime_def)
next
  case (onward s l t)
  then show ?case by (blast intro: step_invariant)
qed

text \<open>
  C18: In every reachable state, whatever was cancelled, failed or interleaved: a pool is open in
  fact exactly while the runtime owns its resource, so none is ever orphaned; \<open>STOPPED\<close> means
  that nothing is open, and \<open>READY\<close> that both are and accept work.
\<close>

theorem nothing_orphaned:
  assumes "reachable s"
  shows "(ir_database_open s \<longleftrightarrow> ir_database s \<noteq> None) \<and> (ir_redis_open s \<longleftrightarrow> ir_redis s \<noteq> None)
    \<and> (ir_state s = STOPPED \<longrightarrow> \<not> ir_database_open s \<and> \<not> ir_redis_open s)
    \<and> (ir_state s = READY \<longrightarrow> (\<exists>db rc. the_database s = Some db \<and> the_redis s = Some rc
        \<and> \<not> db_disposing db \<and> \<not> rc_closing rc))"
  using reachable_invariant [OF assms]
  by (cases "ir_state s")
    (simp_all add: invariant_def flags_ok_def place_ok_def the_database_def the_redis_def new_database_def new_redis_def)

section \<open>An abstract lifecycle\<close>

text \<open>
  The contract, without tasks and flags: a phase and the set of open resources. Resources are
  acquired in order while opening, released one by one while draining, and the end is reached
  only with nothing open.
\<close>

datatype phase = Idle | Opening | Serving | Draining | Ended
datatype resource = Postgres | Redis

inductive lifecycle :: "phase \<times> resource set \<Rightarrow> phase \<times> resource set \<Rightarrow> bool" where
  never_used: "lifecycle (Idle, {}) (Ended, {})"
| open_first: "lifecycle (Idle, {}) (Opening, {Postgres})"
| open_nothing: "lifecycle (Idle, {}) (Draining, {})"
| open_second: "lifecycle (Opening, {Postgres}) (Opening, {Postgres, Redis})"
| serve: "lifecycle (Opening, {Postgres, Redis}) (Serving, {Postgres, Redis})"
| abort: "lifecycle (Opening, R) (Draining, R)"
| drain: "lifecycle (Serving, R) (Draining, R)"
| free: "r \<in> R \<Longrightarrow> lifecycle (Draining, R) (Draining, R - {r})"
| finish: "R \<subseteq> {r} \<Longrightarrow> lifecycle (Draining, R) (Ended, {})"

fun phase_of :: "runtime_state \<Rightarrow> phase" where
  "phase_of NEW = Idle"
| "phase_of STARTING = Opening"
| "phase_of READY = Serving"
| "phase_of STOPPING = Draining"
| "phase_of STOPPED = Ended"

definition abstract :: "runtime \<Rightarrow> phase \<times> resource set" where
  "abstract s = (phase_of (ir_state s),
     (if ir_database_open s then {Postgres} else {}) \<union> (if ir_redis_open s then {Redis} else {}))"

definition lifecycle_or_stays :: "phase \<times> resource set \<Rightarrow> phase \<times> resource set \<Rightarrow> bool" where
  "lifecycle_or_stays a b \<longleftrightarrow> b = a \<or> lifecycle a b"

lemma abstract_simps:
  "fst (abstract s) = phase_of (ir_state s)"
  "Postgres \<in> snd (abstract s) \<longleftrightarrow> ir_database_open s" "Redis \<in> snd (abstract s) \<longleftrightarrow> ir_redis_open s"
  by (simp_all add: abstract_def)

lemma abstract_start_failed:
  "abstract (start_failed s) = (Draining, snd (abstract s))"
  by (simp add: abstract_def start_failed_def request_release_def task_running_def)

lemma abstract_finish:
  assumes "releasing s"
  shows "abstract (finish_release s) = (if snd (abstract s) = {} then (Ended, {}) else abstract s)"
  using assms
  by (auto simp: abstract_def finish_release_def owned_resources_def releasing_def flags_ok_def)

lemma abstract_database:
  assumes "releasing s"
  shows "abstract (release_database s) = (if snd (abstract s) = {} then (Ended, {}) else abstract s)"
  using abstract_finish [OF assms] assms
  by (cases "ir_database s") (auto simp: release_database_def abstract_def releasing_def flags_ok_def)

lemma abstract_redis:
  assumes "releasing s"
  shows "abstract (release_redis s) = (if snd (abstract s) = {} then (Ended, {}) else abstract s)"
  using abstract_database [OF assms] assms
  by (cases "ir_redis s") (auto simp: release_redis_def abstract_def releasing_def flags_ok_def)

lemma draining: "releasing s \<Longrightarrow> abstract s = (Draining, snd (abstract s))"
  by (simp add: abstract_def releasing_def)

lemma drains:
  assumes "releasing s" "r \<in> snd (abstract s)" "R' = snd (abstract s) - {r}"
  shows "lifecycle_or_stays (abstract s) (if R' = {} then (Ended, {}) else (Draining, R'))"
proof -
  obtain R where R: "abstract s = (Draining, R)" "r \<in> R" "R' = R - {r}"
    using draining [OF assms(1)] assms(2,3) by (metis snd_conv)
  show ?thesis
  proof (cases "R' = {}")
    case True
    with R have "R \<subseteq> {r}" by auto
    then show ?thesis using True R by (auto simp: lifecycle_or_stays_def intro: lifecycle.finish)
  next
    case False
    then show ?thesis using R by (auto simp: lifecycle_or_stays_def intro: lifecycle.free)
  qed
qed

lemma stays_or_ends:
  assumes "releasing s"
  shows "lifecycle_or_stays (abstract s) (if snd (abstract s) = {} then (Ended, {}) else abstract s)"
  using draining [OF assms] by (auto simp: lifecycle_or_stays_def intro: lifecycle.finish)

lemma refines_redis_ended:
  assumes "releasing s" "ir_redis_open s"
  shows "lifecycle_or_stays (abstract s) (abstract (redis_ended r s))"
proof (cases r)
  case Released
  let ?s = "s\<lparr>ir_redis := None, ir_redis_open := False\<rparr>"
  have "snd (abstract ?s) = snd (abstract s) - {Redis}" by (auto simp: abstract_def)
  moreover have "abstract ?s = (Draining, snd (abstract ?s))" using draining [OF releasing_dropped(1) [OF assms(1)]] .
  ultimately show ?thesis
    using drains [OF assms(1), of Redis "snd (abstract ?s)"] abstract_database [OF releasing_dropped(1) [OF assms(1)]] assms(2)
    by (simp add: redis_ended_def Released abstract_simps split: if_splits)
next
  case NotReleased
  then show ?thesis using stays_or_ends [OF assms(1)] abstract_database [OF assms(1)] by (simp add: redis_ended_def)
qed

lemma refines_database_ended:
  assumes "releasing s" "ir_database_open s"
  shows "lifecycle_or_stays (abstract s) (abstract (database_ended r s))"
proof (cases r)
  case Released
  let ?s = "s\<lparr>ir_database := None, ir_database_open := False\<rparr>"
  have "snd (abstract ?s) = snd (abstract s) - {Postgres}" by (auto simp: abstract_def)
  moreover have "abstract ?s = (Draining, snd (abstract ?s))" using draining [OF releasing_dropped(2) [OF assms(1)]] .
  ultimately show ?thesis
    using drains [OF assms(1), of Postgres "snd (abstract ?s)"] abstract_finish [OF releasing_dropped(2) [OF assms(1)]] assms(2)
    by (simp add: database_ended_def Released abstract_simps split: if_splits)
next
  case NotReleased
  then show ?thesis using stays_or_ends [OF assms(1)] abstract_finish [OF assms(1)] by (simp add: database_ended_def)
qed

lemma abstract_request [simp]: "abstract (request_release s) = abstract s"
  by (simp add: request_release_def abstract_def)

lemma refines_stop:
  assumes "invariant s" "stop s = Some t"
  shows "lifecycle_or_stays (abstract s) (abstract t)"
proof (cases "ir_state s")
  case NEW
  with assms have "t = s\<lparr>ir_state := STOPPED\<rparr>" "\<not> ir_database_open s" "\<not> ir_redis_open s"
    by (simp_all add: stop_def invariant_def flags_ok_def place_ok_def)
  with NEW show ?thesis by (simp add: lifecycle_or_stays_def abstract_def lifecycle.never_used)
next
  case READY
  with assms(2) have "abstract t = abstract (s\<lparr>ir_state := STOPPING\<rparr>)" by (auto simp: stop_def)
  with READY show ?thesis by (simp add: lifecycle_or_stays_def abstract_def lifecycle.drain)
qed (use assms(2) in \<open>auto simp: stop_def lifecycle_or_stays_def\<close>)

text \<open>
  C19: The runtime refines the abstract lifecycle: every step of it, the release task's and the
  callers' alike, is a step of the lifecycle or changes nothing of it.
\<close>

theorem runtime_refines_lifecycle:
  assumes "reachable s" "step s l t"
  shows "lifecycle_or_stays (abstract s) (abstract t)"
proof -
  note inv = reachable_invariant [OF assms(1)]
  from assms(2) inv show ?thesis
  proof (cases rule: step.cases)
    case start
    with inv show ?thesis
      by (simp add: lifecycle_or_stays_def abstract_def invariant_def flags_ok_def place_ok_def lifecycle.intros)
  next
    case start_raises
    with inv show ?thesis
      by (simp add: lifecycle_or_stays_def abstract_start_failed invariant_def flags_ok_def place_ok_def)
        (simp add: abstract_def lifecycle.intros)
  next
    case database_verified
    with inv starting [OF inv] show ?thesis
      by (simp add: lifecycle_or_stays_def abstract_def invariant_def flags_ok_def place_ok_def lifecycle.intros
          insert_commute [of Redis])
  next
    case redis_raises
    with starting [OF inv] show ?thesis
      by (simp add: lifecycle_or_stays_def abstract_start_failed) (simp add: abstract_def lifecycle.abort)
  next
    case redis_verified
    with inv starting [OF inv] show ?thesis
      by (simp add: lifecycle_or_stays_def abstract_def invariant_def flags_ok_def place_ok_def lifecycle.intros
          insert_commute [of Redis])
  next
    case start_fails
    with starting [OF inv] show ?thesis
      by (simp add: lifecycle_or_stays_def abstract_start_failed) (simp add: abstract_def lifecycle.abort)
  next
    case stop
    with inv show ?thesis by (simp add: refines_stop)
  next
    case task_runs
    then have "releasing s" using inv by (intro running_releasing) (simp_all add: task_running_def)
    then show ?thesis using task_runs stays_or_ends abstract_redis by simp
  next
    case (redis_ends r)
    then have "releasing s" using inv by (intro running_releasing) (simp_all add: task_running_def)
    moreover have "ir_redis_open s" using redis_ends inv running_stopping [OF inv]
      by (simp add: invariant_def flags_ok_def place_ok_def task_running_def)
    ultimately show ?thesis using redis_ends refines_redis_ended by simp
  next
    case (database_ends r)
    then have "releasing s" using inv by (intro running_releasing) (simp_all add: task_running_def)
    moreover have "ir_database_open s" using database_ends inv running_stopping [OF inv]
      by (simp add: invariant_def flags_ok_def place_ok_def task_running_def)
    ultimately show ?thesis using database_ends refines_database_ended by simp
  next
    case task_cancelled
    then show ?thesis by (simp add: lifecycle_or_stays_def abstract_def)
  qed
qed

section \<open>A stop completes\<close>

text \<open>
  The release task driven to its end, with the given ends of the two releases. It is never
  stuck: while it runs, exactly one of the three steps is possible.
\<close>

definition drive :: "release_end \<Rightarrow> release_end \<Rightarrow> runtime \<Rightarrow> runtime" where
  "drive redis database s =
     (let s1 = (if ir_task s = Some Created then release_redis s else s);
          s2 = (if ir_task s1 = Some ClosingRedis then redis_ended redis s1 else s1)
      in if ir_task s2 = Some DisposingDatabase then database_ended database s2 else s2)"

inductive task_steps :: "runtime \<Rightarrow> runtime \<Rightarrow> bool" where
  none: "task_steps s s"
| some: "step s l t \<Longrightarrow> l \<in> {TaskRuns} \<union> range RedisReleaseEnds \<union> range DatabaseReleaseEnds \<Longrightarrow> task_steps t u
    \<Longrightarrow> task_steps s u"

lemma drive_steps: "task_steps s (drive redis database s)"
proof -
  have one: "task_steps s (if ir_task s = Some Created then release_redis s else s)" for s
    by (auto intro: task_steps.intros step.task_runs)
  have two: "task_steps s (if ir_task s = Some ClosingRedis then redis_ended r s else s)" for s r
    by (auto intro: task_steps.intros step.redis_ends)
  have three: "task_steps s (if ir_task s = Some DisposingDatabase then database_ended r s else s)" for s r
    by (auto intro: task_steps.intros step.database_ends)
  have trans: "task_steps a b \<Longrightarrow> task_steps b c \<Longrightarrow> task_steps a c" for a b c
    by (induction rule: task_steps.induct) (auto intro: task_steps.some)
  show ?thesis unfolding drive_def Let_def by (blast intro: trans one two three)
qed

lemma task_of_finish: "ir_task (finish_release s) = Some TaskDone"
  by (simp add: finish_release_def)

lemma task_of_database: "ir_task (release_database s) = Some (if ir_database s = None then TaskDone else DisposingDatabase)"
  by (simp add: release_database_def task_of_finish split: option.split)

lemma task_of_redis:
  "ir_task (release_redis s) = Some (if ir_redis s \<noteq> None then ClosingRedis else if ir_database s = None then TaskDone else DisposingDatabase)"
  by (simp add: release_redis_def task_of_database split: option.split)

lemma drive_done: "task_running s \<Longrightarrow> ir_task (drive redis database s) = Some TaskDone"
  by (cases "the (ir_task s)"; cases redis; cases database)
    (auto simp: drive_def task_running_def Let_def task_of_redis redis_ended_def database_ended_def task_of_database
      task_of_finish split: option.splits)

lemma owned_finish: "owned_resources (finish_release s) = owned_resources s"
  by (simp add: finish_release_def owned_resources_def)

lemma owned_database: "owned_resources (release_database s) = owned_resources s"
  by (simp add: release_database_def owned_finish split: option.split) (simp add: owned_resources_def)

lemma owned_redis: "owned_resources (release_redis s) = owned_resources s"
  by (simp add: release_redis_def owned_database split: option.split) (simp add: owned_resources_def)

lemma task_steps_reachable: "task_steps s t \<Longrightarrow> reachable s \<Longrightarrow> reachable t"
  by (induction rule: task_steps.induct) (auto intro: reachable.onward)

lemma drive_created:
  assumes "ir_task s = Some Created"
  shows "owned_resources (drive redis database s) =
     (if ir_database s \<noteq> None \<and> database = NotReleased then [lit ''postgres''] else [])
     @ (if ir_redis s \<noteq> None \<and> redis = NotReleased then [lit ''redis''] else [])"
  using assms
  by (cases "ir_database s"; cases "ir_redis s"; cases redis; cases database)
    (simp_all add: drive_def release_redis_def release_database_def redis_ended_def database_ended_def
      finish_release_def owned_resources_def)

lemma drive_state:
  assumes "ir_task s = Some Created"
  shows "ir_state (drive redis database s) = (if owned_resources (drive redis database s) = [] then STOPPED else ir_state s)"
  using assms
  by (cases "ir_database s"; cases "ir_redis s"; cases redis; cases database)
    (simp_all add: drive_def release_redis_def release_database_def redis_ended_def database_ended_def
      finish_release_def owned_resources_def)

text \<open>One step of the release task, and how many are left at most.\<close>

definition task_step :: "runtime \<Rightarrow> runtime \<Rightarrow> bool" where
  "task_step s t \<longleftrightarrow> (\<exists>l \<in> {TaskRuns} \<union> range RedisReleaseEnds \<union> range DatabaseReleaseEnds. step s l t)"

definition steps_left :: "runtime \<Rightarrow> nat" where
  "steps_left s = (case ir_task s of
     Some Created \<Rightarrow> 3 | Some ClosingRedis \<Rightarrow> 2 | Some DisposingDatabase \<Rightarrow> 1 | _ \<Rightarrow> 0)"

lemma task_step_cases:
  assumes "task_step s t"
  obtains (runs) "ir_task s = Some Created" "t = release_redis s"
    | (redis) r where "ir_task s = Some ClosingRedis" "t = redis_ended r s"
    | (database) d where "ir_task s = Some DisposingDatabase" "t = database_ended d s"
  using assms by (auto simp: task_step_def elim: task_step redis_step database_step)

lemma task_of_redis_ended: "ir_task (redis_ended r s) = Some (if ir_database s = None then TaskDone else DisposingDatabase)"
  by (cases r) (simp_all add: redis_ended_def task_of_database)

lemma task_of_database_ended: "ir_task (database_ended d s) = Some TaskDone"
  by (simp add: database_ended_def task_of_finish)

lemma task_step_left: "task_step s t \<Longrightarrow> steps_left t < steps_left s"
  by (erule task_step_cases) (simp_all add: steps_left_def task_of_redis task_of_redis_ended task_of_database_ended)

lemma task_steps_left: "(task_step ^^ n) s t \<Longrightarrow> n + steps_left t \<le> steps_left s"
proof (induction n arbitrary: t)
  case (Suc n)
  then obtain u where u: "(task_step ^^ n) s u" "task_step u t" by auto
  from Suc.IH [OF u(1)] task_step_left [OF u(2)] show ?case by simp
qed simp

lemma task_step_enabled:
  assumes "task_running s"
  shows "\<exists>t. task_step s t"
proof -
  from assms consider "ir_task s = Some Created" | "ir_task s = Some ClosingRedis" | "ir_task s = Some DisposingDatabase"
    by (cases "the (ir_task s)") (auto simp: task_running_def split: option.splits)
  then show ?thesis
    unfolding task_step_def
    using step.task_runs [of s] step.redis_ends [of s Released] step.database_ends [of s Released]
    by cases blast+
qed

text \<open>However the task goes on, it goes where some ends of the two releases drive it.\<close>

lemma drive_step:
  assumes "task_step s t"
  shows "\<exists>r' d'. drive r d t = drive r' d' s"
  using assms
proof (cases rule: task_step_cases)
  case runs
  then have "drive r d s = drive r d t" by (simp add: drive_def task_of_redis)
  then show ?thesis by metis
next
  case (redis r0)
  then have "drive r0 d s = drive r d t" by (simp add: drive_def task_of_redis_ended)
  then show ?thesis by metis
next
  case (database d0)
  then have "drive r d0 s = drive r d t" by (simp add: drive_def task_of_database_ended)
  then show ?thesis by metis
qed

lemma drive_stopped: "\<not> task_running s \<Longrightarrow> drive r d s = s"
  by (auto simp: drive_def task_running_def split: option.splits)

lemma task_steps_drive: "(task_step ^^ n) s e \<Longrightarrow> \<exists>r' d'. drive r d e = drive r' d' s"
proof (induction n arbitrary: e r d)
  case 0
  then show ?case by auto
next
  case (Suc n)
  then obtain u where u: "(task_step ^^ n) s u" "task_step u e" by auto
  from drive_step [OF u(2), of r d] Suc.IH [OF u(1)] show ?case by metis
qed

lemma task_steps_relpow: "task_steps s t \<Longrightarrow> \<exists>n. (task_step ^^ n) s t"
proof (induction rule: task_steps.induct)
  case (none s)
  show ?case by (intro exI [of _ 0]) simp
next
  case (some s l t u)
  then obtain n where n: "(task_step ^^ n) t u" by blast
  have "task_step s t" using some(1,2) by (auto simp: task_step_def)
  with n have "(task_step ^^ Suc n) s u" by (rule relpowp_Suc_I2 [rotated])
  then show ?case by blast
qed

lemma relpow_reachable: "(task_step ^^ n) s t \<Longrightarrow> reachable s \<Longrightarrow> reachable t"
proof (induction n arbitrary: t)
  case (Suc n)
  then obtain u where "reachable u" "task_step u t" by auto
  then show ?case by (auto simp: task_step_def intro: reachable.onward)
qed simp

text \<open>What a release that was at any of its stages leaves behind.\<close>

definition left_over :: "release_end \<Rightarrow> release_end \<Rightarrow> runtime \<Rightarrow> pystr list" where
  "left_over redis database t =
     (if ir_database t \<noteq> None \<and> database = NotReleased then [lit ''postgres''] else [])
     @ (if ir_redis t \<noteq> None \<and> (redis = NotReleased \<or> ir_task t = Some DisposingDatabase) then [lit ''redis''] else [])"

lemma drive_leaves:
  assumes "invariant t" "task_running t"
  shows "owned_resources (drive redis database t) = left_over redis database t"
    "ir_state (drive redis database t) = (if left_over redis database t = [] then STOPPED else STOPPING)"
proof -
  have st: "ir_state t = STOPPING" using running_stopping [OF assms] by simp
  obtain pc where pc: "ir_task t = Some pc" "pc \<noteq> TaskDone" "pc \<noteq> TaskCancelled"
    using assms(2) by (auto simp: task_running_def split: option.splits)
  have place: "pc = ClosingRedis \<Longrightarrow> ir_redis t \<noteq> None" "pc = DisposingDatabase \<Longrightarrow> ir_database t \<noteq> None"
    using assms(1) st pc by (auto simp: invariant_def place_ok_def)
  note defs = drive_def release_redis_def release_database_def redis_ended_def database_ended_def
    finish_release_def owned_resources_def left_over_def
  show owned: "owned_resources (drive redis database t) = left_over redis database t"
    using pc place by (cases pc; cases redis; cases database; cases "ir_database t"; cases "ir_redis t") (simp_all add: defs)
  show "ir_state (drive redis database t) = (if left_over redis database t = [] then STOPPED else STOPPING)"
    using pc place st by (cases pc; cases redis; cases database; cases "ir_database t"; cases "ir_redis t") (simp_all add: defs)
qed

lemma stop_joins: "ir_state e = STOPPING \<Longrightarrow> task_running e \<Longrightarrow> stop e = Some e"
  by (simp add: stop_def request_release_def)

lemma stop_repeats:
  assumes "ir_state e = STOPPING" "\<not> task_running e"
  shows "stop e = Some (e\<lparr>ir_task := Some Created\<rparr>)"
    "owned_resources (e\<lparr>ir_task := Some Created\<rparr>) = owned_resources e"
    "ir_state (drive Released Released (e\<lparr>ir_task := Some Created\<rparr>)) = STOPPED"
  using assms drive_created [of "e\<lparr>ir_task := Some Created\<rparr>" Released Released]
    drive_state [of "e\<lparr>ir_task := Some Created\<rparr>" Released Released]
  by (simp_all add: stop_def request_release_def owned_resources_def)

text \<open>
  C20: What becomes of a \<open>stop()\<close> that is accepted, in any reachable state. Before a start and
  after a complete stop there is nothing to release. Otherwise a release is under way, begun by
  this call or joined at whatever stage it is: at most three of its steps are left; while it
  runs, one is possible, and a further \<open>stop()\<close> joins it too; and wherever it ends, what is
  still owned is exactly what it could not release, with \<open>STOPPED\<close> if that is nothing. If it is
  not, \<open>stop()\<close> is accepted again and begins a new release of what is left, which reaches
  \<open>STOPPED\<close> when both resources are released then. (A cancellation of the release task
  itself is not one of these steps.)
\<close>

theorem stop_completes:
  assumes "reachable s" "stop s = Some t"
  shows "if ir_state s \<in> {NEW, STOPPED} then ir_state t = STOPPED \<and> owned_resources t = []
    else task_running t
      \<and> (\<forall>n e. (task_step ^^ n) t e \<longrightarrow> n \<le> 3 \<and>
           (if task_running e then (\<exists>e'. task_step e e') \<and> stop e = Some e
            else \<exists>redis database. e = drive redis database t))
      \<and> (\<forall>redis database. let e = drive redis database t in
           (\<exists>n. (task_step ^^ n) t e) \<and> \<not> task_running e
           \<and> owned_resources e = left_over redis database t
           \<and> ir_state e = (if owned_resources e = [] then STOPPED else STOPPING)
           \<and> (owned_resources e \<noteq> [] \<longrightarrow> (\<exists>u. stop e = Some u \<and> ir_task u = Some Created
                \<and> owned_resources u = owned_resources e \<and> ir_state (drive Released Released u) = STOPPED)))"
proof (cases "ir_state s \<in> {NEW, STOPPED}")
  case True
  with assms reachable_invariant [OF assms(1)] show ?thesis
    by (auto simp: stop_def invariant_def place_ok_def owned_resources_def)
next
  case False
  have reach: "reachable t" using assms by (blast intro: reachable.onward step.stop)
  have running: "task_running t"
    using assms(2) False by (cases "ir_state s") (auto simp: stop_def request_release_def task_running_def)
  note leaves = drive_leaves [OF reachable_invariant [OF reach] running]
  have "n \<le> 3 \<and> (if task_running e then (\<exists>e'. task_step e e') \<and> stop e = Some e
      else \<exists>redis database. e = drive redis database t)" if e: "(task_step ^^ n) t e" for n e
  proof -
    have "steps_left t \<le> 3" by (simp add: steps_left_def split: option.split release_task.split)
    then have "n \<le> 3" using task_steps_left [OF e] by simp
    moreover have "stop e = Some e" if "task_running e"
      using running_stopping [OF reachable_invariant [OF relpow_reachable [OF e reach]] that] stop_joins that by simp
    moreover have "\<exists>redis database. e = drive redis database t" if "\<not> task_running e"
      using task_steps_drive [OF e, of Released Released] drive_stopped [OF that] by metis
    ultimately show ?thesis using task_step_enabled by simp
  qed
  moreover have "let e = drive redis database t in
      (\<exists>n. (task_step ^^ n) t e) \<and> \<not> task_running e
      \<and> owned_resources e = left_over redis database t
      \<and> ir_state e = (if owned_resources e = [] then STOPPED else STOPPING)
      \<and> (owned_resources e \<noteq> [] \<longrightarrow> (\<exists>u. stop e = Some u \<and> ir_task u = Some Created
           \<and> owned_resources u = owned_resources e \<and> ir_state (drive Released Released u) = STOPPED))"
    for redis database
  proof -
    let ?e = "drive redis database t"
    have done_: "\<not> task_running ?e" using drive_done [OF running, of redis database] by (simp add: task_running_def)
    have "\<exists>u. stop ?e = Some u \<and> ir_task u = Some Created \<and> owned_resources u = owned_resources ?e
        \<and> ir_state (drive Released Released u) = STOPPED" if "owned_resources ?e \<noteq> []"
    proof -
      have "ir_state ?e = STOPPING" using leaves [of redis database] that by simp
      from stop_repeats [OF this done_] show ?thesis by auto
    qed
    then show ?thesis
      using task_steps_relpow [OF drive_steps] done_ leaves [of redis database] by (simp add: Let_def)
  qed
  ultimately show ?thesis using False running by simp
qed

section \<open>Waiting and readiness\<close>

text \<open>
  However often its caller is cancelled, \<open>_release\<close> waits until the release task has ended;
  a cancellation is raised afterwards, and only a cancellation.
\<close>

theorem await_release_waits:
  "await_release pending (replicate n CallerCancelled @ ws) =
     (case ws of
        [] \<Rightarrow> None
      | TaskReturned # _ \<Rightarrow> Some (if pending \<or> 0 < n then CancelledError else Returned)
      | TaskRaised # _ \<Rightarrow> Some OtherError
      | TaskItselfCancelled # _ \<Rightarrow> Some CancelledError
      | CallerCancelled # ws' \<Rightarrow> await_release True ws')"
proof (induction n arbitrary: pending)
  case 0
  show ?case by (cases ws) (auto split: wake.split)
next
  case (Suc n)
  show ?case using Suc [of True] by (auto split: list.split wake.split)
qed

text \<open>
  The readiness report: ready exactly when the runtime is \<open>READY\<close>, both dependencies
  answered and the Redis client was not closed meanwhile; the checks are made in order and stop at the first failure.
\<close>

theorem check_readiness_correct:
  assumes "reachable s" "check_readiness E s query meanwhile reply = Inr r"
  shows "(rr_ready r \<longleftrightarrow> ir_state s = READY \<and> query = None
      \<and> \<not> rc_closing (meanwhile new_redis) \<and> reply = Inr True)
    \<and> (rr_ready r \<longleftrightarrow> map snd (rr_checks r) = [OK, OK])
    \<and> (map snd (rr_checks r) \<in> {[SKIPPED, SKIPPED], [FAILED, SKIPPED], [OK, FAILED], [OK, OK]})"
proof (cases "ir_state s = READY")
  case True
  then have "ir_database s = Some new_database" "ir_redis s = Some new_redis"
    using reachable_invariant [OF assms(1)] by (simp_all add: invariant_def place_ok_def)
  with True assms(2) show ?thesis
    by (auto simp: check_readiness_def readiness_def ping_def redis_ping_def new_database_def new_redis_def
        split: option.splits sum.splits if_splits)
next
  case False
  with assms(2) show ?thesis
    by (auto simp: check_readiness_def readiness_def split: option.splits)
qed

section \<open>Examples\<close>

lemma reachable_ready:
  "\<exists>s. reachable s \<and> ir_state s = READY \<and> ir_database s = Some new_database \<and> ir_redis s = Some new_redis
    \<and> ir_task s = None"
proof -
  let ?a = "new_runtime\<lparr>ir_state := STARTING, ir_start := VerifyingDatabase,
      ir_database := Some new_database, ir_database_open := True\<rparr>"
  let ?b = "?a\<lparr>ir_start := VerifyingRedis, ir_redis := Some new_redis, ir_redis_open := True\<rparr>"
  have "step new_runtime (Start True) ?a" by (rule step.start) (simp add: new_runtime_def)
  then have "reachable ?a" by (rule reachable.onward [OF reachable.initial])
  moreover have "step ?a (DatabaseVerified True) ?b" by (rule step.database_verified) simp
  ultimately have "reachable ?b" by (rule reachable.onward)
  moreover have "step ?b RedisVerified (?b\<lparr>ir_start := NoStart, ir_state := READY\<rparr>)"
    by (rule step.redis_verified) simp
  ultimately have "reachable (?b\<lparr>ir_start := NoStart, ir_state := READY\<rparr>)" by (rule reachable.onward)
  then show ?thesis by (intro exI conjI) (assumption, simp_all add: new_runtime_def)
qed

theorem nothing_orphaned_witness: "\<exists>s :: runtime. ir_state s = READY \<and> ir_database_open s \<and> ir_redis_open s"
proof -
  from reachable_ready obtain s where s: "reachable s" "ir_state s = READY" "ir_database s = Some new_database"
    "ir_redis s = Some new_redis" by blast
  with nothing_orphaned [OF s(1)] have "ir_database_open s \<and> ir_redis_open s" by simp
  with s(2) show ?thesis by blast
qed

theorem runtime_refines_lifecycle_witness:
  "lifecycle_or_stays (abstract new_runtime) (abstract (new_runtime\<lparr>ir_state := STOPPED\<rparr>))"
  by (rule runtime_refines_lifecycle [OF reachable.initial, of Stop]) (rule step.stop, simp add: stop_def new_runtime_def)

theorem stop_completes_witness:
  "\<exists>s t u. stop s = Some t \<and> ir_state (drive Released NotReleased t) = STOPPING
    \<and> stop (drive Released NotReleased t) = Some u \<and> ir_state (drive Released Released u) = STOPPED"
proof -
  from reachable_ready obtain s where s: "reachable s" "ir_state s = READY" "ir_task s = None"
    "ir_database s = Some new_database" by blast
  define t where "t = s\<lparr>ir_state := STOPPING, ir_task := Some Created\<rparr>"
  from s have t: "stop s = Some t" by (simp add: t_def stop_def request_release_def task_running_def)
  let ?e = "drive Released NotReleased t"
  from stop_completes [OF s(1) t] s(2) have "\<forall>redis database. let e = drive redis database t in
      owned_resources e = left_over redis database t
      \<and> ir_state e = (if owned_resources e = [] then STOPPED else STOPPING)
      \<and> (owned_resources e \<noteq> [] \<longrightarrow> (\<exists>u. stop e = Some u \<and> ir_state (drive Released Released u) = STOPPED))"
    unfolding Let_def by (simp split: if_splits) blast
  then have "owned_resources ?e = left_over Released NotReleased t
      \<and> ir_state ?e = (if owned_resources ?e = [] then STOPPED else STOPPING)
      \<and> (owned_resources ?e \<noteq> [] \<longrightarrow> (\<exists>u. stop ?e = Some u \<and> ir_state (drive Released Released u) = STOPPED))"
    unfolding Let_def by blast
  moreover have "left_over Released NotReleased t \<noteq> []" using s(4) by (simp add: left_over_def t_def)
  ultimately obtain u where "ir_state ?e = STOPPING" "stop ?e = Some u" "ir_state (drive Released Released u) = STOPPED"
    by auto
  with t show ?thesis by blast
qed

theorem check_readiness_correct_witness:
  "\<exists>s :: runtime. check_readiness (\<lambda>_. timeout_exc) s None id (Inr True) = Inr (readiness True OK OK) \<and> ir_state s = READY"
proof -
  from reachable_ready obtain s where s: "reachable s" "ir_state s = READY" "ir_database s = Some new_database"
    "ir_redis s = Some new_redis" by blast
  then have "check_readiness (\<lambda>_. timeout_exc) s None id (Inr True) = Inr (readiness True OK OK)"
    by (simp add: check_readiness_def ping_def redis_ping_def new_database_def new_redis_def)
  with check_readiness_correct [OF s(1) this] show ?thesis by (auto simp: readiness_def)
qed

end
