(* ===== verification/Hosts.thy ===== *)
theory Hosts
  imports PyRegex
begin

text \<open>
  \<open>is_single_host\<close> of \<open>platform/config/base_settings.py\<close>, with the address parser of the standard
  library that it calls.
\<close>

section \<open>Addresses\<close>

text \<open>\<open>ipaddress.IPv4Address(t)\<close> and \<open>ipaddress.IPv6Address(t)\<close>: whether they accept the text.\<close>

definition is_octet :: "pystr \<Rightarrow> bool" where
  "is_octet t \<longleftrightarrow> t \<noteq> [] \<and> list_all is_adigit t \<and> length t \<le> 3 \<and> (t = [48] \<or> hd t \<noteq> 48) \<and> dec_value t \<le> 255"

definition is_ipv4 :: "pystr \<Rightarrow> bool" where
  "is_ipv4 t \<longleftrightarrow> (let parts = py_split t [c_dot] in c_slash \<notin> set t \<and> length parts = 4 \<and> list_all is_octet parts)"

definition is_hextet :: "pystr \<Rightarrow> bool" where
  "is_hextet t \<longleftrightarrow> t \<noteq> [] \<and> list_all is_hex t \<and> length t \<le> 4"

text \<open>
  The parts between colons, an IPv4 suffix replaced by two groups (zeros here: which groups
  they are makes no difference to the acceptance). \<open>None\<close>: the suffix is no address.
\<close>

definition hextet_parts :: "pystr \<Rightarrow> pystr list option" where
  "hextet_parts t =
     (let parts = py_split t [c_colon] in
      if length parts < 3 then None
      else if c_dot \<in> set (last parts)
        then (if is_ipv4 (last parts) then Some (butlast parts @ [[48], [48]]) else None)
      else Some parts)"

text \<open>The empty parts that are neither the first nor the last.\<close>

definition skipped_parts :: "pystr list \<Rightarrow> nat list" where
  "skipped_parts parts = filter (\<lambda>i. parts ! i = []) [1 ..< length parts - 1]"

definition hextets_ok :: "pystr list \<Rightarrow> bool" where
  "hextets_ok parts \<longleftrightarrow> length parts \<le> 9 \<and>
     (case skipped_parts parts of
        [] \<Rightarrow> length parts = 8 \<and> list_all is_hextet parts
      | [i] \<Rightarrow>
          (let hi = (if hd parts = [] then i - 1 else i);
               lo = (if last parts = [] then length parts - i - 2 else length parts - i - 1)
           in (hd parts = [] \<longrightarrow> hi = 0) \<and> (last parts = [] \<longrightarrow> lo = 0) \<and> hi + lo < 8
              \<and> list_all is_hextet (take hi parts) \<and> list_all is_hextet (drop (length parts - lo) parts))
      | _ \<Rightarrow> False)"

text \<open>An address may name its zone after a percent sign; every other character is accepted there.\<close>

definition zone_split :: "pystr \<Rightarrow> (pystr \<times> pystr option) option" where
  "zone_split t =
     (case py_find t [c_percent] 0 (length t) of
        None \<Rightarrow> Some (t, None)
      | Some i \<Rightarrow>
          (let zone = drop (Suc i) t in
           if zone = [] \<or> c_percent \<in> set zone then None else Some (take i t, Some zone)))"

definition is_ipv6 :: "pystr \<Rightarrow> bool" where
  "is_ipv6 t \<longleftrightarrow> c_slash \<notin> set t \<and>
     (case zone_split t of
        None \<Rightarrow> False
      | Some (a, zone) \<Rightarrow> (case hextet_parts a of None \<Rightarrow> False | Some parts \<Rightarrow> hextets_ok parts))"

definition is_ip_address :: "pystr \<Rightarrow> bool" where
  "is_ip_address t \<longleftrightarrow> is_ipv4 t \<or> is_ipv6 t"

section \<open>Host names\<close>

definition is_label_edge :: "pychar \<Rightarrow> bool" where
  "is_label_edge c \<longleftrightarrow> is_aalnum c \<or> c = c_under"

definition is_label_char :: "pychar \<Rightarrow> bool" where
  "is_label_char c \<longleftrightarrow> is_label_edge c \<or> c = c_dash"

definition rx_label :: rx where
  "rx_label = RxSeq (RxSet is_label_edge)
     (RxRep True (RxSeq (RxRep True (RxSet is_label_char) 0 (Some 61)) (RxSet is_label_edge)) 0 (Some 1))"

definition HOSTNAME :: rx where
  "HOSTNAME = rx_seq
     [RxStart, RxAhead (RxSeq (RxRep True (RxSet (\<lambda>c. c \<noteq> c_nl)) 1 (Some 253)) RxEnd),
      rx_label, RxRep True (RxSeq (rx_ch c_dot) rx_label) 0 None, RxEnd]"

definition is_single_host :: "pystr \<Rightarrow> bool" where
  "is_single_host host \<longleftrightarrow> is_ip_address host \<or> rx_fullmatches HOSTNAME host"

lemma host_examples:
  "is_single_host (lit ''db.example.com'')" "is_single_host (lit ''127.0.0.1'')" "is_single_host (lit ''::1'')"
  "is_single_host (lit ''fe80::1%eth0'')" "is_single_host (lit ''1::2:255.1.2.3'')" "is_single_host (lit ''01.2.3.4'')"
  "\<not> is_single_host (lit ''a,b'')" "\<not> is_single_host (lit ''/run/x'')" "\<not> is_single_host (lit ''1:2'')" "\<not> is_single_host (lit ''::1::'')"
  "\<not> is_single_host (lit ''a.'')" "\<not> is_single_host (lit ''-a'')" "\<not> is_single_host []"
  "\<not> is_single_host (lit ''1:2:3:4:5:6:7:8:9'')" "is_single_host (lit ''1:2:3:4:5:6:7::'')" "\<not> is_single_host (lit ''1:2:3:4:5:6:7:8::'')"
  "\<not> is_single_host (lit ''a'' @ [c_nl])"
  by code_simp+

section \<open>What an accepted host consists of\<close>

lemma py_split_from_chars:
  "i \<le> length t \<Longrightarrow> set (drop i t) \<subseteq> \<Union> (set ` set (py_split_from t sep i)) \<union> set sep"
proof (induction t sep i rule: py_split_from.induct)
  case (1 t sep i)
  show ?case
  proof (cases "py_find t sep i (length t)")
    case None
    then show ?thesis by (simp add: py_split_from.simps [of t sep i])
  next
    case (Some j)
    show ?thesis
    proof (cases "sep = []")
      case True
      with Some show ?thesis by (simp add: py_split_from.simps [of t "[]" i])
    next
      case False
      from py_find_SomeD [OF Some] have j: "i \<le> j" "j + length sep \<le> length t" "starts_at t sep j" by auto
      have "drop i t = slice t i j @ drop j t"
        using j(1) append_take_drop_id [of "j - i" "drop i t"] by (simp add: slice_def)
      also have "drop j t = sep @ drop (j + length sep) t"
        using j(3) append_take_drop_id [of "length sep" "drop j t"] by (simp add: starts_at_def add.commute)
      finally have "set (drop i t) = set (slice t i j) \<union> set sep \<union> set (drop (j + length sep) t)" by auto
      then show ?thesis using 1(1) [OF Some False] j False Some
        by (auto simp: py_split_from.simps [of t sep i])
    qed
  qed
qed

lemma py_split_chars: "c \<in> set t \<Longrightarrow> c \<in> set sep \<or> (\<exists>p\<in>set (py_split t sep). c \<in> set p)"
  using py_split_from_chars [of 0 t sep] by (auto simp: py_split_def)

definition is_host_char :: "pychar \<Rightarrow> bool" where
  "is_host_char c \<longleftrightarrow> is_aalnum c \<or> c \<in> {c_under, c_dash, c_dot, c_colon}"

lemma ipv4_chars: "is_ipv4 t \<Longrightarrow> c \<in> set t \<Longrightarrow> is_host_char c"
  using py_split_chars [of c t "[c_dot]"]
  by (auto simp: is_ipv4_def Let_def list_all_iff is_octet_def is_host_char_def is_aalnum_def)

lemma hextets_chars:
  assumes "hextets_ok parts" "p \<in> set parts" "c \<in> set p"
  shows "is_hex c"
proof -
  have hex: "is_hex c" if "list_all is_hextet ps" "p \<in> set ps" for ps
    using that assms(3) by (auto simp: list_all_iff is_hextet_def)
  show ?thesis
  proof (cases "skipped_parts parts")
    case Nil
    with assms(1,2) hex show ?thesis by (auto simp: hextets_ok_def)
  next
    case (Cons i is')
    then have none: "is' = []" using assms(1) by (cases is') (simp_all add: hextets_ok_def)
    have "i \<in> set (skipped_parts parts)" using Cons by simp
    then have i: "parts ! i = []" "1 \<le> i" "i < length parts - 1" by (auto simp: skipped_parts_def)
    then have "parts \<noteq> []" by auto
    then have ends: "hd parts = parts ! 0" "last parts = parts ! (length parts - 1)"
      by (simp_all add: hd_conv_nth last_conv_nth)
    from assms(2) obtain k where k: "k < length parts" "parts ! k = p" by (auto simp: in_set_conv_nth)
    with assms(3) i have "k \<noteq> i" by auto
    then consider "k < i" | "i < k" by linarith
    then show ?thesis
    proof cases
      case 1
      with assms i ends k have "hd parts \<noteq> []" by (cases "k = 0") (auto simp: hextets_ok_def Cons none Let_def)
      with assms(1) have "list_all is_hextet (take i parts)" by (simp add: hextets_ok_def Cons none Let_def)
      moreover from 1 k have "p \<in> set (take i parts)" by (auto simp: in_set_conv_nth)
      ultimately show ?thesis by (rule hex)
    next
      case 2
      with assms i ends k have "last parts \<noteq> []"
        by (cases "k = length parts - 1") (auto simp: hextets_ok_def Cons none Let_def)
      with assms(1) i have "list_all is_hextet (drop (Suc i) parts)" by (simp add: hextets_ok_def Cons none Let_def)
      moreover from 2 k have "p \<in> set (drop (Suc i) parts)"
        by (auto simp: in_set_conv_nth intro!: exI [of _ "k - Suc i"])
      ultimately show ?thesis by (rule hex)
    qed
  qed
qed

text \<open>An IPv6 address without its zone.\<close>

lemma ipv6_chars:
  assumes "hextet_parts a = Some parts" "hextets_ok parts" "c \<in> set a"
  shows "is_host_char c"
proof -
  let ?ps = "py_split a [c_colon]"
  from assms(1) have len: "3 \<le> length ?ps" by (auto simp: hextet_parts_def Let_def split: if_splits)
  have char: "is_host_char c" if "p \<in> set ?ps" "c \<in> set p" for p
  proof (cases "c_dot \<in> set (last ?ps)")
    case True
    with assms(1) have v4: "is_ipv4 (last ?ps)" "parts = butlast ?ps @ [[48], [48]]"
      by (auto simp: hextet_parts_def Let_def split: if_splits)
    have "p = last ?ps \<or> p \<in> set (butlast ?ps)"
      using that(1) len by (cases ?ps rule: rev_cases) auto
    then show ?thesis
    proof
      assume "p \<in> set (butlast ?ps)"
      then have "p \<in> set parts" using v4 by simp
      from hextets_chars [OF assms(2) this that(2)] show ?thesis
        by (auto simp: is_hex_def is_host_char_def ascii_class_defs)
    qed (use ipv4_chars [OF v4(1)] that(2) in simp)
  next
    case False
    with assms(1) have "parts = ?ps" by (auto simp: hextet_parts_def Let_def split: if_splits)
    with hextets_chars [OF assms(2) _ that(2)] that(1) show ?thesis
      by (auto simp: is_hex_def is_host_char_def ascii_class_defs)
  qed
  from py_split_chars [OF assms(3), of "[c_colon]"] show ?thesis
    using char by (auto simp: is_host_char_def)
qed

lemma hostname_chars: "rx_fullmatches HOSTNAME h \<Longrightarrow> list_all is_host_char h"
  by (erule rx_fullmatches_only)
    (auto simp: HOSTNAME_def rx_label_def rx_ch_def is_label_char_def is_label_edge_def is_host_char_def)

text \<open>
  An accepted host is a non-empty text of letters, digits, underscores, hyphens, dots and
  colons, so neither a list nor a path nor a piece of another URL part; only an IPv6 address
  may be followed by a percent sign and a zone, which is not empty and has neither a second
  percent sign nor a slash.
\<close>

theorem is_single_host_shape:
  assumes "is_single_host h"
  shows "\<exists>a z. h = a @ z \<and> a \<noteq> [] \<and> list_all is_host_char a
    \<and> (z = [] \<or> (\<exists>y. z = c_percent # y \<and> y \<noteq> [] \<and> c_percent \<notin> set y \<and> c_slash \<notin> set y \<and> c_colon \<in> set a))"
proof -
  consider "is_ipv4 h" | "is_ipv6 h" | "rx_fullmatches HOSTNAME h"
    using assms by (auto simp: is_single_host_def is_ip_address_def)
  then show ?thesis
  proof cases
    case 1
    then have "h \<noteq> []" by (auto simp: is_ipv4_def py_split_def py_split_from.simps py_find_def)
    with 1 ipv4_chars show ?thesis by (intro exI [of _ h] exI [of _ "[]"]) (auto simp: list_all_iff)
  next
    case 2
    then obtain a zone parts where z: "zone_split h = Some (a, zone)" and p: "hextet_parts a = Some parts"
      "hextets_ok parts" and slash: "c_slash \<notin> set h"
      by (auto simp: is_ipv6_def split: option.splits prod.splits)
    have chars: "list_all is_host_char a" using ipv6_chars [OF p] by (simp add: list_all_iff)
    have colon: "c_colon \<in> set a"
    proof (rule ccontr)
      assume "c_colon \<notin> set a"
      then have "py_find a [c_colon] 0 (length a) = None" by (metis py_find_char_None nth_mem)
      then have "py_split a [c_colon] = [a]" by (simp add: py_split_def py_split_from.simps)
      with p(1) show False by (simp add: hextet_parts_def)
    qed
    show ?thesis
    proof (cases "py_find h [c_percent] 0 (length h)")
      case None
      with z have "h = a" by (simp add: zone_split_def)
      with chars colon show ?thesis by (intro exI [of _ h] exI [of _ "[]"]) auto
    next
      case (Some i)
      with z have y: "a = take i h" "drop (Suc i) h \<noteq> []" "c_percent \<notin> set (drop (Suc i) h)"
        by (auto simp: zone_split_def Let_def split: if_splits)
      from Some have "i < length h" "h ! i = c_percent" by (auto simp: py_find_char)
      then have "h = a @ c_percent # drop (Suc i) h" using id_take_nth_drop [of i h] by (simp add: y(1))
      moreover have "c_slash \<notin> set (drop (Suc i) h)" using slash by (meson in_set_dropD)
      moreover have "a \<noteq> []" using colon by auto
      ultimately show ?thesis using y(2,3) chars colon
        by (intro exI [of _ a] exI [of _ "c_percent # drop (Suc i) h"]) simp
    qed
  next
    case 3
    have "h \<noteq> []"
    proof
      assume "h = []"
      with 3 have "rx_fullmatches HOSTNAME []" by simp
      moreover have "\<not> rx_fullmatches HOSTNAME []" by code_simp
      ultimately show False by simp
    qed
    with hostname_chars [OF 3] show ?thesis by (intro exI [of _ h] exI [of _ "[]"]) auto
  qed
qed

definition is_host_text :: "pystr \<Rightarrow> bool" where
  "is_host_text h \<longleftrightarrow> (\<exists>a z. h = a @ z \<and> a \<noteq> [] \<and> list_all is_host_char a
     \<and> (z = [] \<or> (\<exists>y. z = c_percent # y \<and> y \<noteq> [] \<and> c_percent \<notin> set y \<and> c_slash \<notin> set y \<and> c_colon \<in> set a)))"

lemma is_single_host_text: "is_single_host h \<Longrightarrow> is_host_text h"
  unfolding is_host_text_def by (rule is_single_host_shape)

text \<open>
  C25: The zone may be any other text, a list of further hosts included: \<open>::1%0,db.example.com\<close>
  is accepted as one host.
\<close>

theorem is_single_host_accepts_any_zone:
  assumes "z \<noteq> []" "c_percent \<notin> set z" "c_slash \<notin> set z"
  shows "is_single_host (lit ''::1'' @ c_percent # z)"
proof -
  let ?h = "lit ''::1'' @ c_percent # z"
  have find: "py_find ?h [c_percent] 0 (length ?h) = Some 3"
    unfolding py_find_char by (simp add: lit_eval numeral_3_eq_3 All_less_Suc)
  have "hextet_parts (lit ''::1'') = Some [[], [], [49]]" by code_simp
  moreover have "hextets_ok [[], [], [49]]" by code_simp
  moreover have "c_slash \<notin> set (lit ''::1'')" by code_simp
  ultimately show ?thesis
    using assms find by (simp add: is_single_host_def is_ip_address_def is_ipv6_def zone_split_def)
qed

theorem is_single_host_shape_witness:
  "\<exists>a z. lit ''fe80::1%eth0'' = a @ z \<and> a \<noteq> [] \<and> list_all is_host_char a
    \<and> (z = [] \<or> (\<exists>y. z = c_percent # y \<and> y \<noteq> [] \<and> c_percent \<notin> set y \<and> c_slash \<notin> set y \<and> c_colon \<in> set a))"
  by (rule is_single_host_shape) (rule host_examples)

theorem is_single_host_accepts_any_zone_witness:
  "is_single_host (lit ''::1%0,db.example.com'')"
proof -
  have "lit ''::1'' @ c_percent # lit ''0,db.example.com'' = lit ''::1%0,db.example.com''" by code_simp
  moreover have "is_single_host (lit ''::1'' @ c_percent # lit ''0,db.example.com'')"
    by (rule is_single_host_accepts_any_zone) (code_simp)+
  ultimately show ?thesis by simp
qed

end
