(* ===== verification/Settings.thy ===== *)
theory Settings
  imports Hosts PlatformErrors Complex_Main
begin

text \<open>
  \<open>platform/config/base_settings.py\<close>, \<open>platform/config/loader.py\<close>, \<open>apps/api/settings.py\<close> and
  \<open>platform/infrastructure/db/engine.py\<close>: the typed settings, what they accept, and the arguments
  the driver gets. \<open>make_url\<close> of SQLAlchemy is a parameter; \<open>urlsplit\<close> is written out. Which
  message a refusal carries is a constructor.
\<close>

section \<open>The database URL\<close>

datatype query_value = One pystr | Several "pystr list"

record url =
  u_driver :: pystr
  u_username :: "pystr option"
  u_password :: "pystr option"
  u_host :: "pystr option"
  u_port :: "int option"
  u_database :: "pystr option"
  u_query :: "(pystr \<times> query_value) list"

text \<open>SQLAlchemy: \<open>make_url\<close> (\<open>None\<close> is an error of it) and \<open>render_as_string\<close> with the password.\<close>

record sqlalchemy =
  sa_make_url :: "pystr \<Rightarrow> url option"
  sa_render :: "url \<Rightarrow> pystr"

definition is_empty :: "pystr option \<Rightarrow> bool" where
  "is_empty t \<longleftrightarrow> t = None \<or> t = Some []"

definition DATABASE_DRIVER :: pystr where
  "DATABASE_DRIVER = lit ''postgresql+asyncpg''"

definition TEST_DATABASE_NAME_PREFIX :: pystr where
  "TEST_DATABASE_NAME_PREFIX = lit ''voice_agent_test_''"

definition FORBIDDEN_RUNTIME_DATABASE_USERS :: "pystr list" where
  "FORBIDDEN_RUNTIME_DATABASE_USERS = map lit [''postgres'', ''app_migration'', ''app_platform_admin'']"

definition DATABASE_TLS_MODES :: "pystr list" where
  "DATABASE_TLS_MODES = map lit [''require'', ''verify-ca'', ''verify-full'']"

definition DATABASE_SSL_VALUES :: "pystr list" where
  "DATABASE_SSL_VALUES = map lit [''disable'', ''allow'', ''prefer''] @ DATABASE_TLS_MODES"

definition PERMITTED_DATABASE_URL_QUERY_PARAMETERS :: "pystr list" where
  "PERMITTED_DATABASE_URL_QUERY_PARAMETERS = [lit ''ssl'']"

definition DEFAULT_POSTGRES_PORT :: int where
  "DEFAULT_POSTGRES_PORT = 5432"

datatype url_problem =
  NotAUrl | WrongDriver | Incomplete | NotOneHost | PortOutOfRange | OtherParameters | BadSsl | ForbiddenUser

definition database_url_problem :: "sqlalchemy \<Rightarrow> pystr \<Rightarrow> url_problem option" where
  "database_url_problem L raw =
     (case sa_make_url L raw of
        None \<Rightarrow> Some NotAUrl
      | Some u \<Rightarrow>
          if u_driver u \<noteq> DATABASE_DRIVER then Some WrongDriver
          else if is_empty (u_host u) \<or> is_empty (u_database u) \<or> is_empty (u_username u) then Some Incomplete
          else if \<not> is_single_host (the (u_host u)) then Some NotOneHost
          else if (case u_port u of None \<Rightarrow> False | Some p \<Rightarrow> \<not> (1 \<le> p \<and> p \<le> 65535)) then Some PortOutOfRange
          else if \<not> list_all (\<lambda>k. k \<in> set PERMITTED_DATABASE_URL_QUERY_PARAMETERS) (map fst (u_query u)) then Some OtherParameters
          else if (case map_of (u_query u) (lit ''ssl'') of
                     None \<Rightarrow> False | Some (One v) \<Rightarrow> v \<notin> set DATABASE_SSL_VALUES | Some (Several vs) \<Rightarrow> True) then Some BadSsl
          else if the (u_username u) \<in> set FORBIDDEN_RUNTIME_DATABASE_USERS then Some ForbiddenUser
          else None)"

text \<open>The numeric fields and their bounds.\<close>

record database_settings =
  ds_url :: pystr
  ds_pool_size :: int
  ds_max_overflow :: int
  ds_pool_timeout_seconds :: rat
  ds_pool_recycle_seconds :: int
  ds_connect_timeout_seconds :: rat
  ds_command_timeout_seconds :: rat

definition default_database_settings :: "pystr \<Rightarrow> database_settings" where
  "default_database_settings raw = \<lparr>ds_url = raw, ds_pool_size = 10, ds_max_overflow = 5, ds_pool_timeout_seconds = 10,
     ds_pool_recycle_seconds = 1800, ds_connect_timeout_seconds = 5, ds_command_timeout_seconds = 30\<rparr>"

definition database_settings_ok :: "sqlalchemy \<Rightarrow> database_settings \<Rightarrow> bool" where
  "database_settings_ok L s \<longleftrightarrow>
     database_url_problem L (ds_url s) = None
     \<and> 1 \<le> ds_pool_size s \<and> ds_pool_size s \<le> 100
     \<and> 0 \<le> ds_max_overflow s \<and> ds_max_overflow s \<le> 100
     \<and> 0 < ds_pool_timeout_seconds s \<and> ds_pool_timeout_seconds s \<le> 60
     \<and> 60 \<le> ds_pool_recycle_seconds s
     \<and> 0 < ds_connect_timeout_seconds s \<and> ds_connect_timeout_seconds s \<le> 60
     \<and> 0 < ds_command_timeout_seconds s \<and> ds_command_timeout_seconds s \<le> 300"

record database_target =
  dt_host :: pystr
  dt_port :: int
  dt_database :: pystr
  dt_user :: pystr

text \<open>\<open>target()\<close>: \<open>None\<close> is the error for an incomplete URL. A port of zero counts as no port.\<close>

definition target_of :: "url \<Rightarrow> database_target option" where
  "target_of u =
     (case (u_host u, u_database u, u_username u) of
        (Some h, Some d, Some n) \<Rightarrow> Some \<lparr>dt_host = h,
            dt_port = (case u_port u of None \<Rightarrow> DEFAULT_POSTGRES_PORT | Some p \<Rightarrow> if p = 0 then DEFAULT_POSTGRES_PORT else p),
            dt_database = d, dt_user = n\<rparr>
      | _ \<Rightarrow> None)"

definition database_target :: "sqlalchemy \<Rightarrow> database_settings \<Rightarrow> database_target option" where
  "database_target L s = Option.bind (sa_make_url L (ds_url s)) target_of"

section \<open>The engine\<close>

datatype connect_arg = ATarget pystr | AInt int | ASeconds rat | AUniqueNames | AServerSettings "(pystr \<times> pystr) list"

record engine_args =
  ea_url :: url
  ea_pool_size :: int
  ea_max_overflow :: int
  ea_pool_timeout :: rat
  ea_pool_recycle :: int
  ea_pre_ping :: bool
  ea_connect_args :: "(pystr \<times> connect_arg) list"

definition create_database_engine :: "sqlalchemy \<Rightarrow> database_settings \<Rightarrow> pystr \<Rightarrow> engine_args option" where
  "create_database_engine L s application_name =
     (case (sa_make_url L (ds_url s), database_target L s) of
        (Some u, Some t) \<Rightarrow> Some \<lparr>ea_url = u, ea_pool_size = ds_pool_size s, ea_max_overflow = ds_max_overflow s,
          ea_pool_timeout = ds_pool_timeout_seconds s, ea_pool_recycle = ds_pool_recycle_seconds s, ea_pre_ping = True,
          ea_connect_args =
            [(lit ''host'', ATarget (dt_host t)), (lit ''port'', AInt (dt_port t)),
             (lit ''user'', ATarget (dt_user t)), (lit ''database'', ATarget (dt_database t)),
             (lit ''timeout'', ASeconds (ds_connect_timeout_seconds s)),
             (lit ''command_timeout'', ASeconds (ds_command_timeout_seconds s)),
             (lit ''statement_cache_size'', AInt 0), (lit ''prepared_statement_cache_size'', AInt 0),
             (lit ''prepared_statement_name_func'', AUniqueNames),
             (lit ''server_settings'', AServerSettings [(lit ''application_name'', application_name)])]\<rparr>
      | _ \<Rightarrow> None)"

section \<open>\<open>urllib.parse.urlsplit\<close>\<close>

text \<open>\<open>t.partition(c)\<close> and \<open>t.rpartition(c)\<close>: what is before, whether it was found, what is after.\<close>

definition partition_at :: "pystr \<Rightarrow> pychar \<Rightarrow> pystr \<times> bool \<times> pystr" where
  "partition_at t c = (case py_find t [c] 0 (length t) of
     None \<Rightarrow> (t, False, []) | Some i \<Rightarrow> (take i t, True, drop (Suc i) t))"

definition rpartition_at :: "pystr \<Rightarrow> pychar \<Rightarrow> pystr \<times> bool \<times> pystr" where
  "rpartition_at t c = (case py_rfind t [c] 0 (length t) of
     None \<Rightarrow> ([], False, t) | Some i \<Rightarrow> (take i t, True, drop (Suc i) t))"

record split_url =
  su_scheme :: pystr
  su_netloc :: pystr
  su_path :: pystr
  su_query :: pystr
  su_fragment :: pystr

definition is_scheme_char :: "pychar \<Rightarrow> bool" where
  "is_scheme_char c \<longleftrightarrow> is_aalnum c \<or> c \<in> {c_plus, c_dash, c_dot}"

definition split_scheme :: "pyrt \<Rightarrow> pystr \<Rightarrow> pystr \<times> pystr" where
  "split_scheme R t =
     (case py_find t [c_colon] 0 (length t) of
        None \<Rightarrow> ([], t)
      | Some i \<Rightarrow> if 0 < i \<and> is_aalpha (hd t) \<and> list_all is_scheme_char (take i t)
          then (py_lower R (take i t), drop (Suc i) t) else ([], t))"

text \<open>\<open>v1.x\<close>: \<open>re.match(r"\Av[a-fA-F0-9]+\..+\Z", h)\<close>.\<close>

definition FUTURE_ADDRESS :: rx where
  "FUTURE_ADDRESS = rx_seq [rx_ch 118, rx_plus (RxSet is_hex), rx_ch c_dot, rx_plus (RxSet (\<lambda>c. c \<noteq> c_nl))]"

definition bracketed_host_ok :: "pystr \<Rightarrow> bool" where
  "bracketed_host_ok h \<longleftrightarrow> (if h \<noteq> [] \<and> hd h = 118 then rx_fullmatches FUTURE_ADDRESS h else \<not> is_ipv4 h \<and> is_ipv6 h)"

definition brackets_ok :: "pystr \<Rightarrow> bool" where
  "brackets_ok netloc \<longleftrightarrow>
     (c_lbrack \<in> set netloc \<longleftrightarrow> c_rbrack \<in> set netloc)
     \<and> (c_lbrack \<in> set netloc \<longrightarrow>
          (case partition_at (snd (snd (rpartition_at netloc c_at))) c_lbrack of
             (front, True, bracketed) \<Rightarrow>
               (case partition_at bracketed c_rbrack of
                  (host, found, port) \<Rightarrow> front = [] \<and> (port = [] \<or> hd port = c_colon) \<and> bracketed_host_ok host)
           | (front, False, bracketed) \<Rightarrow> bracketed_host_ok (fst (partition_at front c_colon))))"

definition netloc_ok :: "pyrt \<Rightarrow> pystr \<Rightarrow> bool" where
  "netloc_ok R netloc \<longleftrightarrow>
     (let n = filter (\<lambda>c. c \<notin> {c_at, c_colon, c_hash, c_quest}) netloc
      in netloc = [] \<or> list_all is_ascii netloc \<or> rt_nfkc R n = n
         \<or> list_all (\<lambda>c. c \<notin> {c_slash, c_quest, c_hash, c_at, c_colon}) (rt_nfkc R n))"

text \<open>\<open>None\<close> is the \<open>ValueError\<close>.\<close>

definition urlsplit :: "pyrt \<Rightarrow> pystr \<Rightarrow> split_url option" where
  "urlsplit R raw =
     (let t = filter (\<lambda>c. c \<notin> {9, 10, 13}) (dropWhile (\<lambda>c. c \<le> 32) raw);
          (scheme, r1) = split_scheme R t;
          has_netloc = starts_at r1 [c_slash, c_slash] 0;
          stop = (if has_netloc then run_end (\<lambda>c. c \<notin> {c_slash, c_quest, c_hash}) r1 2 else 0);
          netloc = (if has_netloc then slice r1 2 stop else []);
          (r2, _, fragment) = partition_at (drop stop r1) c_hash;
          (path, _, query) = partition_at r2 c_quest
      in if (has_netloc \<longrightarrow> brackets_ok netloc) \<and> netloc_ok R netloc
         then Some \<lparr>su_scheme = scheme, su_netloc = netloc, su_path = path, su_query = query, su_fragment = fragment\<rparr>
         else None)"

definition hostinfo :: "pystr \<Rightarrow> pystr \<times> pystr" where
  "hostinfo netloc =
     (let info = snd (snd (rpartition_at netloc c_at)) in
      case partition_at info c_lbrack of
        (_, True, bracketed) \<Rightarrow>
          (case partition_at bracketed c_rbrack of (host, _, after) \<Rightarrow> (host, snd (snd (partition_at after c_colon))))
      | (_, False, _) \<Rightarrow> (case partition_at info c_colon of (host, _, port) \<Rightarrow> (host, port)))"

text \<open>Whether reading \<open>.port\<close> raises.\<close>

definition port_ok :: "pystr \<Rightarrow> bool" where
  "port_ok port \<longleftrightarrow> port = [] \<or> (list_all is_adigit port \<and> length port \<le> 4300 \<and> dec_value port \<le> 65535)"

section \<open>Redis\<close>

datatype redis_problem = NotARedisUrl | WrongScheme | NoHost | ParametersOrFragment

definition redis_url_problem :: "pyrt \<Rightarrow> pystr \<Rightarrow> redis_problem option" where
  "redis_url_problem R raw =
     (case urlsplit R raw of
        None \<Rightarrow> Some NotARedisUrl
      | Some u \<Rightarrow>
          (case hostinfo (su_netloc u) of (host, port) \<Rightarrow>
             if \<not> port_ok port then Some NotARedisUrl
             else if su_scheme u \<noteq> lit ''redis'' \<and> su_scheme u \<noteq> lit ''rediss'' then Some WrongScheme
             else if host = [] then Some NoHost
             else if su_query u \<noteq> [] \<or> su_fragment u \<noteq> [] then Some ParametersOrFragment
             else None))"

record redis_settings =
  rs_url :: pystr
  rs_max_connections :: int
  rs_socket_timeout_seconds :: rat
  rs_socket_connect_timeout_seconds :: rat
  rs_health_check_interval_seconds :: int

definition redis_settings_ok :: "pyrt \<Rightarrow> redis_settings \<Rightarrow> bool" where
  "redis_settings_ok R s \<longleftrightarrow>
     redis_url_problem R (rs_url s) = None
     \<and> 1 \<le> rs_max_connections s \<and> rs_max_connections s \<le> 1000
     \<and> 0 < rs_socket_timeout_seconds s \<and> rs_socket_timeout_seconds s \<le> 60
     \<and> 0 < rs_socket_connect_timeout_seconds s \<and> rs_socket_connect_timeout_seconds s \<le> 60
     \<and> 0 \<le> rs_health_check_interval_seconds s \<and> rs_health_check_interval_seconds s \<le> 300"

definition uses_tls :: "pyrt \<Rightarrow> redis_settings \<Rightarrow> bool" where
  "uses_tls R s \<longleftrightarrow> map_option su_scheme (urlsplit R (rs_url s)) = Some (lit ''rediss'')"

end
