(* ===== verification/Baseline.thy ===== *)
theory Baseline
  imports Transactions MigrationGraph
begin

text \<open>
  \<open>verify_database_baseline\<close> of \<open>db/schema_baseline.py\<close>: what the process checks of the database
  it is connected to, once, at startup. The answers of the server are the input; a query that
  fails gives its exception.
\<close>

section \<open>The verification\<close>

definition REQUIRED_EXTENSIONS :: "pystr list" where
  "REQUIRED_EXTENSIONS = map lit [''pg_stat_statements'', ''pgcrypto'', ''vector'']"

definition MINIMUM_POSTGRES_VERSION_NUM :: int where
  "MINIMUM_POSTGRES_VERSION_NUM = 160000"

datatype revision_status = VERIFIED | DEPLOYMENT_GATED

record role =
  ro_name :: pystr
  ro_super :: bool
  ro_bypass :: bool

record server =
  sv_version :: "nat + int"
  sv_role :: "nat + role"
  sv_extensions :: "nat + pystr list"
  sv_can_read :: "nat + bool option"    \<comment> \<open>\<open>NULL\<close> when the table does not exist\<close>
  sv_revisions :: "nat + pystr list"

record baseline_report =
  br_version :: int
  br_role :: pystr
  br_status :: revision_status

text \<open>A query, and what follows it when it answers.\<close>

definition query :: "nat + 'a \<Rightarrow> ('a \<Rightarrow> raised + 'b) \<Rightarrow> raised + 'b" where
  "query q k = (case q of Inl i \<Rightarrow> Inl (Heap i) | Inr x \<Rightarrow> k x)"

definition refuse :: "pystr \<Rightarrow> pystr \<Rightarrow> (pystr \<times> detail) list \<Rightarrow> raised + 'b" where
  "refuse message reason extra =
     Inl (New (platform_error DatabaseError message ((lit ''reason'', DText reason) # extra)) None)"

definition verify_body :: "server \<Rightarrow> raised + baseline_report" where
  "verify_body sv =
     query (sv_version sv) (\<lambda>version.
       if version < MINIMUM_POSTGRES_VERSION_NUM then
         refuse (lit ''PostgreSQL is older than the supported minimum.'') (lit ''postgres_version_unsupported'')
           [(lit ''server_version_num'', DInt version)]
       else query (sv_role sv) (\<lambda>role.
         if ro_super role \<or> ro_bypass role then
           refuse (lit ''The application runtime role must not be a superuser or bypass RLS.'')
             (lit ''runtime_role_overprivileged'') [(lit ''role'', DText (ro_name role))]
         else query (sv_extensions sv) (\<lambda>installed.
           let missing = sorted_set (filter (\<lambda>e. e \<notin> set installed) REQUIRED_EXTENSIONS) in
           if missing \<noteq> [] then
             refuse (lit ''Required PostgreSQL extensions are not installed.'') (lit ''required_extension_missing'')
               [(lit ''missing'', DTexts missing)]
           else query (sv_can_read sv) (\<lambda>can_read.
             case can_read of
               None \<Rightarrow> refuse (lit ''The database has not been migrated.'') (lit ''schema_not_migrated'') []
             | Some False \<Rightarrow>
                 Inr \<lparr>br_version = version, br_role = ro_name role, br_status = DEPLOYMENT_GATED\<rparr>
             | Some True \<Rightarrow> query (sv_revisions sv) (\<lambda>found.
                 if sort found \<noteq> [EXPECTED_SCHEMA_HEAD] then
                   refuse (lit ''The database schema revision does not match this build.'')
                     (lit ''schema_revision_mismatch'')
                     [(lit ''expected'', DText EXPECTED_SCHEMA_HEAD), (lit ''found'', DTexts (sort found))]
                 else Inr \<lparr>br_version = version, br_role = ro_name role, br_status = VERIFIED\<rparr>)))))"

definition verify_database_baseline :: "excs \<Rightarrow> database \<Rightarrow> scope \<Rightarrow> server \<Rightarrow> raised + baseline_report" where
  "verify_database_baseline E db t sv =
     (case fst (transaction E db t (verify_body sv)) of
        Inr r \<Rightarrow> Inr r
      | Inl x \<Rightarrow> Inl
          (if raised_is E x (Platform DatabaseError) then x
           else case x of
             New _ _ \<Rightarrow> x
           | Heap i \<Rightarrow>
               if is_connectivity_error E i
               then New (platform_error DatabaseError unreachable_message
                 [(lit ''reason'', DText (lit ''postgres_unreachable'')), (lit ''error_type'', DText (xc_type (E i)))]) (Some i)
               else x))"

section \<open>What it accepts\<close>

text \<open>The baseline, as a predicate on the answers of the server.\<close>

definition meets_baseline :: "server \<Rightarrow> baseline_report \<Rightarrow> bool" where
  "meets_baseline sv r \<longleftrightarrow>
     (\<exists>role installed can_read.
        sv_version sv = Inr (br_version r) \<and> 160000 \<le> br_version r
        \<and> sv_role sv = Inr role \<and> \<not> ro_super role \<and> \<not> ro_bypass role \<and> br_role r = ro_name role
        \<and> sv_extensions sv = Inr installed \<and> set REQUIRED_EXTENSIONS \<subseteq> set installed
        \<and> sv_can_read sv = Inr (Some can_read)
        \<and> (if can_read then sv_revisions sv = Inr [lit ''112_5H5''] \<and> br_status r = VERIFIED
           else br_status r = DEPLOYMENT_GATED))"

lemma sort_singleton: "sort xs = [x] \<longleftrightarrow> xs = [x]"
proof
  assume s: "sort xs = [x]"
  then have "mset xs = {#x#}" by (metis mset_single_iff mset_sort)
  then show "xs = [x]" by (cases xs) auto
qed simp

lemma verify_body_iff: "verify_body sv = Inr r \<longleftrightarrow> meets_baseline sv r"
  by (cases r)
    (auto simp: verify_body_def meets_baseline_def query_def refuse_def sort_singleton EXPECTED_SCHEMA_HEAD_def
      MINIMUM_POSTGRES_VERSION_NUM_def filter_empty_conv not_less subset_iff split: sum.splits if_splits option.splits bool.splits)

text \<open>
  C23: The startup verification reports success exactly when the server meets the baseline (a
  version of at least 16, a role that is subject to row-level security, the extensions, and a
  schema that is at the expected head or cannot be read) and the transaction it was checked
  in was committed. It never reports success for anything else.
\<close>

theorem verify_database_baseline_iff:
  "verify_database_baseline E db t sv = Inr r \<longleftrightarrow>
     meets_baseline sv r \<and> scope_opens db t \<and> tx_commit t = None"
  using transaction_effects [of E db t "verify_body sv" r]
  by (auto simp: verify_database_baseline_def verify_body_iff split: sum.splits)

end
