(* ===== verification/DbMigrate.thy ===== *)
theory DbMigrate
  imports Settings MigrationGraph Baseline
begin

text \<open>
  \<open>scripts/db_migrate.py\<close>: the operator's commands. A command yields its failure or its value,
  and the effects it had, in order. What the process environment, the package on disk, the
  servers and Alembic answer is the input; what is printed beside the outcome is left out, and
  the texts of refusals are constructors.
\<close>

section \<open>The world and the effects\<close>

text \<open>Answers of a connection; \<open>None\<close> is an error of the driver.\<close>

record identity =
  id_session_user :: pystr
  id_current_user :: pystr
  id_database :: pystr
  id_address :: "pystr option"
  id_port :: "int option"

record connection =
  cn_identity :: "identity option option"     \<comment> \<open>\<open>None\<close> inside: no row\<close>
  cn_revisions :: "pystr list option option"  \<comment> \<open>\<open>None\<close> inside: no such table\<close>
  cn_installed :: "pystr list option"
  cn_version :: "int option option"
  cn_available :: "pystr list option"
  cn_preloaded :: "pystr option option"
  cn_sentinel :: "bool option"
  cn_altered :: "unit option"
  cn_committed :: "unit option"

record site =
  si_environ :: "pystr \<Rightarrow> pystr option"
  si_library :: sqlalchemy
  si_runtime :: pyrt
  si_sha :: "nat list \<Rightarrow> pystr"
  si_package :: package
  si_server :: "nat \<Rightarrow> url \<Rightarrow> connection option"   \<comment> \<open>the first, second ... connection\<close>
  si_alembic :: "pystr \<Rightarrow> pystr \<Rightarrow> int"              \<comment> \<open>exit code, for \<open>DATABASE_URL\<close> and the target\<close>

datatype effect = Connects url | Commits | AltersRole pystr pystr | RunsAlembic pystr pystr

datatype refusal =
    UrlMissing
  | UrlInvalid
  | UrlDriver
  | UrlRuntimeRole pystr
  | UnsafeParameters "pystr list"
  | Redirected "pystr list"
  | NoSingleHost
  | NoExplicitPort
  | NoDatabaseOrUser
  | NoIdentity
  | NotFrozen "violation list"
  | Prerequisites "refusal list"
  | ServerTooOld int
  | ExtensionUnavailable pystr
  | NotPreloaded
  | NotAtHead
  | ExtensionNotInstalled pystr
  | NotRepositoryHead pystr pystr
  | NotBuildHead pystr
  | ConnectedAsRuntimeRole
  | OtherDatabase pystr
  | GateProblems "refusal list"
  | NeverMigrated
  | NoRevisionRecorded
  | SeveralRevisions "pystr list"
  | UnknownRevision pystr
  | StaleRevision pystr nat
  | OtherRevision pystr
  | MustBeStamped
  | AlembicFailed int
  | NotUpgraded "pystr list option"
  | NotLocalEnvironment
  | RuntimeUrlMissing
  | RuntimeUrlInvalid
  | RuntimePortMissing
  | NotThisMachine
  | TargetsDiffer
  | NotARuntimeRole
  | NoPassword
  | NotTheLocalServer

text \<open>
  How a command fails: a refusal, an error of the graph, an error of the driver. \<open>Endless\<close> is
  the walk over the graph that does not return, \<open>Escapes\<close> any other exception.
\<close>

datatype failure = Refused refusal | GraphFailed graph_error | DriverFailed | Endless | Escapes

type_synonym 'a command = "(failure + 'a) \<times> effect list"

definition give :: "'a \<Rightarrow> 'a command" where "give x = (Inr x, [])"
definition fails :: "failure \<Rightarrow> 'a command" where "fails e = (Inl e, [])"
definition refuse_with :: "refusal \<Rightarrow> 'a command" where "refuse_with r = fails (Refused r)"
definition effect :: "effect \<Rightarrow> unit command" where "effect ev = (Inr (), [ev])"

definition then_do :: "'a command \<Rightarrow> ('a \<Rightarrow> 'b command) \<Rightarrow> 'b command" where
  "then_do c k = (case c of (Inl e, evs) \<Rightarrow> (Inl e, evs) | (Inr x, evs) \<Rightarrow> (case k x of (r, evs') \<Rightarrow> (r, evs @ evs')))"

definition guard :: "bool \<Rightarrow> refusal \<Rightarrow> (unit \<Rightarrow> 'a command) \<Rightarrow> 'a command" where
  "guard ok r k = (if ok then k () else refuse_with r)"

definition answer :: "'a option \<Rightarrow> 'a command" where
  "answer q = (case q of None \<Rightarrow> fails DriverFailed | Some x \<Rightarrow> give x)"

definition attempt :: "refusal + 'a \<Rightarrow> 'a command" where
  "attempt r = (case r of Inl e \<Rightarrow> refuse_with e | Inr x \<Rightarrow> give x)"

section \<open>The target\<close>

definition RUNTIME_ROLES :: "pystr list" where
  "RUNTIME_ROLES = map lit [''app_api'', ''app_worker'', ''app_readonly'']"

definition LOOPBACK_HOSTS :: "pystr list" where
  "LOOPBACK_HOSTS = map lit [''127.0.0.1'', ''::1'', ''localhost'']"

definition LOOPBACK_SERVER_ADDRESSES :: "pystr list" where
  "LOOPBACK_SERVER_ADDRESSES = map lit [''127.0.0.1'', ''::1'']"

definition PASSWORD_ENVIRONMENTS :: "pystr list" where
  "PASSWORD_ENVIRONMENTS = map lit [''local'', ''test'']"

definition SAFE_LIBPQ_QUERY_PARAMETERS :: "pystr list" where
  "SAFE_LIBPQ_QUERY_PARAMETERS = map lit
     [''application_name'', ''channel_binding'', ''connect_timeout'', ''gssencmode'', ''ssl_max_protocol_version'',
      ''ssl_min_protocol_version'', ''sslcert'', ''sslcrl'', ''sslcrldir'', ''sslkey'', ''sslmode'', ''sslnegotiation'',
      ''sslrootcert'', ''sslsni'']"

definition TARGET_KEYWORDS :: "pystr list" where
  "TARGET_KEYWORDS = map lit [''host'', ''hostaddr'', ''port'', ''dbname'', ''user'', ''service'', ''servicefile'', ''options'']"

definition REDIRECTING_ENVIRONMENT :: "pystr list" where
  "REDIRECTING_ENVIRONMENT = map lit [''PGHOSTADDR'', ''PGSERVICE'', ''PGSERVICEFILE'']"

definition MIGRATION_URL_ENV :: pystr where "MIGRATION_URL_ENV = lit ''MIGRATION_DATABASE_URL''"
definition RUNTIME_URL_ENV :: pystr where "RUNTIME_URL_ENV = lit ''DATABASE__URL''"
definition MIGRATION_DRIVER :: pystr where "MIGRATION_DRIVER = lit ''postgresql+psycopg''"

record libpq_target =
  lt_host :: pystr
  lt_port :: int
  lt_dbname :: pystr
  lt_user :: pystr

definition migration_url :: "site \<Rightarrow> refusal + url" where
  "migration_url W =
     (if is_empty (si_environ W MIGRATION_URL_ENV) then Inl UrlMissing
      else case sa_make_url (si_library W) (the (si_environ W MIGRATION_URL_ENV)) of
        None \<Rightarrow> Inl UrlInvalid
      | Some u \<Rightarrow>
          if u_driver u \<noteq> MIGRATION_DRIVER then Inl UrlDriver
          else (case u_username u of
                  Some n \<Rightarrow> if n \<in> set RUNTIME_ROLES then Inl (UrlRuntimeRole n) else Inr u
                | None \<Rightarrow> Inr u))"

definition migration_target :: "site \<Rightarrow> url \<Rightarrow> refusal + libpq_target" where
  "migration_target W u =
     (let unsafe = sorted_set (filter (\<lambda>k. k \<notin> set SAFE_LIBPQ_QUERY_PARAMETERS) (map fst (u_query u)));
          redirecting = filter (\<lambda>n. \<not> is_empty (si_environ W n)) REDIRECTING_ENVIRONMENT
      in if unsafe \<noteq> [] then Inl (UnsafeParameters (filter (\<lambda>n. n \<in> set TARGET_KEYWORDS) unsafe))
         else if redirecting \<noteq> [] then Inl (Redirected redirecting)
         else if is_empty (u_host u) \<or> \<not> is_single_host (the (u_host u)) then Inl NoSingleHost
         else (case u_port u of
                 None \<Rightarrow> Inl NoExplicitPort
               | Some p \<Rightarrow>
                   if \<not> (1 \<le> p \<and> p \<le> 65535) then Inl NoExplicitPort
                   else if is_empty (u_database u) \<or> is_empty (u_username u) then Inl NoDatabaseOrUser
                   else Inr \<lparr>lt_host = the (u_host u), lt_port = p, lt_dbname = the (u_database u), lt_user = the (u_username u)\<rparr>))"

text \<open>\<open>with _connect(url) as connection\<close>: commits when the block returns.\<close>

definition with_connection :: "site \<Rightarrow> nat \<Rightarrow> url \<Rightarrow> (connection \<Rightarrow> 'a command) \<Rightarrow> 'a command" where
  "with_connection W k u body =
     then_do (effect (Connects u)) (\<lambda>_.
       then_do (answer (si_server W k u)) (\<lambda>c.
         then_do (body c) (\<lambda>x.
           then_do (effect Commits) (\<lambda>_.
             then_do (answer (cn_committed c)) (\<lambda>_. give x)))))"

definition connected_identity :: "connection \<Rightarrow> identity command" where
  "connected_identity c =
     then_do (answer (cn_identity c)) (\<lambda>row. case row of None \<Rightarrow> refuse_with NoIdentity | Some i \<Rightarrow> give i)"

definition current_revisions :: "connection \<Rightarrow> pystr list option command" where
  "current_revisions c = then_do (answer (cn_revisions c)) (\<lambda>r. give (map_option sort r))"

section \<open>Checks\<close>

definition missing_prerequisites :: "int \<Rightarrow> pystr list \<Rightarrow> pystr list \<Rightarrow> refusal list" where
  "missing_prerequisites version available preloaded =
     (if version < MINIMUM_POSTGRES_VERSION_NUM then [ServerTooOld version] else [])
     @ map ExtensionUnavailable (filter (\<lambda>e. e \<notin> set available) REQUIRED_EXTENSIONS)
     @ (if lit ''pg_stat_statements'' \<in> set preloaded then [] else [NotPreloaded])"

text \<open>\<open>chain.index(x)\<close> of a member.\<close>

definition index_of :: "pystr list \<Rightarrow> pystr \<Rightarrow> nat" where
  "index_of chain x = length (takeWhile (\<lambda>y. y \<noteq> x) chain)"

definition revision_problem :: "pystr list option \<Rightarrow> pystr \<Rightarrow> pystr list \<Rightarrow> refusal option" where
  "revision_problem revisions expected chain =
     (case revisions of
        None \<Rightarrow> Some NeverMigrated
      | Some found \<Rightarrow>
          if found = [expected] then None
          else (case found of
                  [] \<Rightarrow> Some NoRevisionRecorded
                | [r] \<Rightarrow>
                    if r \<notin> set chain then Some (UnknownRevision r)
                    else if expected \<in> set chain \<and> index_of chain r < index_of chain expected
                      then Some (StaleRevision r (index_of chain expected - index_of chain r))
                    else Some (OtherRevision r)
                | _ \<Rightarrow> Some (SeveralRevisions found)))"

definition not_installed :: "pystr list \<Rightarrow> refusal list" where
  "not_installed installed = map ExtensionNotInstalled (filter (\<lambda>e. e \<notin> set installed) REQUIRED_EXTENSIONS)"

definition inspected_graph :: "site \<Rightarrow> report command" where
  "inspected_graph W =
     (case inspect_migration_package (si_runtime W) (si_sha W) (si_package W) of
        None \<Rightarrow> fails Endless
      | Some (Inl e) \<Rightarrow> fails (GraphFailed e)
      | Some (Inr rp) \<Rightarrow> give rp)"

definition validated_graph :: "site \<Rightarrow> report command" where
  "validated_graph W =
     then_do (inspected_graph W) (\<lambda>rp.
       let violations = find_baseline_violations rp in
       if violations \<noteq> [] then refuse_with (NotFrozen violations) else give rp)"

section \<open>The commands\<close>

definition command_graph :: "site \<Rightarrow> unit command" where
  "command_graph W = then_do (inspected_graph W) (\<lambda>_. then_do (validated_graph W) (\<lambda>_. give ()))"

text \<open>\<open>str.strip\<close> of the parts of a comma-separated list.\<close>

definition preloaded_parts :: "pystr option \<Rightarrow> pystr list" where
  "preloaded_parts row = map py_strip (py_split (case row of None \<Rightarrow> [] | Some t \<Rightarrow> t) [c_comma])"

definition command_check :: "site \<Rightarrow> bool \<Rightarrow> unit command" where
  "command_check W expect_head =
     then_do (attempt (migration_url W)) (\<lambda>u.
     then_do (attempt (migration_target W u)) (\<lambda>_.
     then_do (with_connection W 0 u (\<lambda>c.
        then_do (answer (cn_version c)) (\<lambda>version.
        then_do (answer (cn_available c)) (\<lambda>available.
        then_do (answer (cn_installed c)) (\<lambda>installed.
        then_do (answer (cn_preloaded c)) (\<lambda>preload.
        then_do (current_revisions c) (\<lambda>revisions.
          give (case version of None \<Rightarrow> 0 | Some v \<Rightarrow> v, available, installed, preload, revisions))))))))
      (\<lambda>(version, available, installed, preload, revisions).
        let problems = missing_prerequisites version available (preloaded_parts preload)
              @ (if expect_head \<and> revisions \<noteq> Some [EXPECTED_SCHEMA_HEAD] then [NotAtHead] else [])
              @ (if expect_head then not_installed installed else [])
        in guard (problems = []) (Prerequisites problems) give)))"

text \<open>\<open>(repository_head,) = report.heads\<close>: another number of heads is a \<open>ValueError\<close>.\<close>

definition sole_head :: "report \<Rightarrow> pystr command" where
  "sole_head rp = (case rp_heads rp of [h] \<Rightarrow> give h | _ \<Rightarrow> fails Escapes)"

definition gate_connection :: "libpq_target \<Rightarrow> connection \<Rightarrow> (pystr list option \<times> pystr list) command" where
  "gate_connection target c =
     then_do (connected_identity c) (\<lambda>i.
     guard (id_session_user i \<notin> set RUNTIME_ROLES \<and> id_current_user i \<notin> set RUNTIME_ROLES) ConnectedAsRuntimeRole (\<lambda>_.
     guard (id_database i = lt_dbname target) (OtherDatabase (id_database i)) (\<lambda>_.
     then_do (current_revisions c) (\<lambda>revisions.
     then_do (answer (cn_installed c)) (\<lambda>installed. give (revisions, installed))))))"

definition gate_problems :: "pystr list option \<Rightarrow> pystr list \<Rightarrow> pystr \<Rightarrow> pystr list \<Rightarrow> refusal list" where
  "gate_problems revisions installed expected chain =
     (case revision_problem revisions expected chain of None \<Rightarrow> [] | Some p \<Rightarrow> [p]) @ not_installed installed"

definition command_gate :: "site \<Rightarrow> pystr \<Rightarrow> unit command" where
  "command_gate W expected =
     then_do (validated_graph W) (\<lambda>rp.
     then_do (sole_head rp) (\<lambda>repository_head.
     guard (expected = repository_head) (NotRepositoryHead expected repository_head) (\<lambda>_.
     guard (expected = EXPECTED_SCHEMA_HEAD) (NotBuildHead expected) (\<lambda>_.
     then_do (attempt (migration_url W)) (\<lambda>u.
     then_do (attempt (migration_target W u)) (\<lambda>target.
     then_do (with_connection W 0 u (gate_connection target)) (\<lambda>(revisions, installed).
       let problems = gate_problems revisions installed expected (rp_chain rp)
       in guard (problems = []) (GateProblems problems) give)))))))"

definition command_upgrade :: "site \<Rightarrow> unit command" where
  "command_upgrade W =
     then_do (command_graph W) (\<lambda>_.
     then_do (attempt (migration_url W)) (\<lambda>u.
     then_do (attempt (migration_target W u)) (\<lambda>_.
     then_do (with_connection W 0 u (\<lambda>c.
        then_do (current_revisions c) (\<lambda>revisions.
        then_do (answer (cn_sentinel c)) (\<lambda>sentinel. give (revisions, sentinel)))))
      (\<lambda>(revisions, sentinel).
     guard (\<not> (revisions = None \<and> sentinel)) MustBeStamped (\<lambda>_.
     guard (case revisions of None \<Rightarrow> True | Some rs \<Rightarrow> length rs \<le> 1)
       (SeveralRevisions (case revisions of None \<Rightarrow> [] | Some rs \<Rightarrow> rs)) (\<lambda>_.
     let dsn = sa_render (si_library W) u; code = si_alembic W dsn EXPECTED_SCHEMA_HEAD in
     then_do (effect (RunsAlembic dsn EXPECTED_SCHEMA_HEAD)) (\<lambda>_.
     guard (code = 0) (AlembicFailed code) (\<lambda>_.
     then_do (with_connection W 1 u current_revisions) (\<lambda>reached.
     guard (reached = Some [EXPECTED_SCHEMA_HEAD]) (NotUpgraded reached) give)))))))))"

text \<open>The two identities of \<open>set-runtime-password\<close>, checked before any connection.\<close>

record password_plan =
  pp_url :: url
  pp_migration :: libpq_target
  pp_role :: pystr
  pp_password :: pystr

definition runtime_identity :: "site \<Rightarrow> (url \<times> database_target) command" where
  "runtime_identity W =
     (let raw = si_environ W RUNTIME_URL_ENV in
      if si_environ W (lit ''ENVIRONMENT'') \<notin> Some ` set PASSWORD_ENVIRONMENTS then refuse_with NotLocalEnvironment
      else if is_empty raw then refuse_with RuntimeUrlMissing
      else if \<not> database_settings_ok (si_library W) (default_database_settings (the raw)) then refuse_with RuntimeUrlInvalid
      else (case (sa_make_url (si_library W) (the raw), database_target (si_library W) (default_database_settings (the raw))) of
              (Some u, Some t) \<Rightarrow> give (u, t)
            | _ \<Rightarrow> fails Escapes))"

definition password_plan :: "site \<Rightarrow> password_plan command" where
  "password_plan W =
     then_do (runtime_identity W) (\<lambda>(runtime_url, runtime).
     then_do (attempt (migration_url W)) (\<lambda>u.
     then_do (attempt (migration_target W u)) (\<lambda>migration.
     guard (u_port runtime_url \<noteq> None) RuntimePortMissing (\<lambda>_.
     guard (dt_host runtime \<in> set LOOPBACK_HOSTS \<and> lt_host migration \<in> set LOOPBACK_HOSTS) NotThisMachine (\<lambda>_.
     guard (dt_host runtime = lt_host migration \<and> dt_port runtime = lt_port migration
         \<and> dt_database runtime = lt_dbname migration) TargetsDiffer (\<lambda>_.
     guard (dt_user runtime \<in> set RUNTIME_ROLES) NotARuntimeRole (\<lambda>_.
     guard (\<not> is_empty (u_password runtime_url)) NoPassword (\<lambda>_.
       give \<lparr>pp_url = u, pp_migration = migration, pp_role = dt_user runtime, pp_password = the (u_password runtime_url)\<rparr>))))))))"

definition is_local_server :: "libpq_target \<Rightarrow> identity \<Rightarrow> bool" where
  "is_local_server migration i \<longleftrightarrow>
     id_address i \<in> Some ` set LOOPBACK_SERVER_ADDRESSES \<and> id_port i = Some (lt_port migration)
     \<and> id_database i = lt_dbname migration"

definition alter_role :: "password_plan \<Rightarrow> connection \<Rightarrow> unit command" where
  "alter_role p c =
     then_do (connected_identity c) (\<lambda>i.
     guard (is_local_server (pp_migration p) i) NotTheLocalServer (\<lambda>_.
     then_do (effect (AltersRole (pp_role p) (pp_password p))) (\<lambda>_.
       answer (cn_altered c))))"

definition command_set_runtime_password :: "site \<Rightarrow> unit command" where
  "command_set_runtime_password W =
     then_do (password_plan W) (\<lambda>p. with_connection W 0 (pp_url p) (alter_role p))"

section \<open>The program\<close>

text \<open>The parsed command line; \<open>Graph\<close> is the subcommand of the same name, and so on.\<close>

datatype arguments = Graph | Check bool | Gate pystr | Upgrade | SetRuntimePassword

fun handler :: "site \<Rightarrow> arguments \<Rightarrow> unit command" where
  "handler W Graph = command_graph W"
| "handler W (Check expect_head) = command_check W expect_head"
| "handler W (Gate expected) = command_gate W expected"
| "handler W Upgrade = command_upgrade W"
| "handler W SetRuntimePassword = command_set_runtime_password W"

datatype outcome = Exit int | Uncaught | NeverReturns

definition outcome_of :: "failure + unit \<Rightarrow> outcome" where
  "outcome_of r =
     (case r of
        Inr _ \<Rightarrow> Exit 0
      | Inl (Refused _) \<Rightarrow> Exit 1
      | Inl (GraphFailed _) \<Rightarrow> Exit 1
      | Inl DriverFailed \<Rightarrow> Exit 1
      | Inl Escapes \<Rightarrow> Uncaught
      | Inl Endless \<Rightarrow> NeverReturns)"

definition main :: "site \<Rightarrow> arguments \<Rightarrow> outcome \<times> effect list" where
  "main W arguments = (case handler W arguments of (r, evs) \<Rightarrow> (outcome_of r, evs))"

end
