(* ===== verification/DbMigrateFacts.thy ===== *)
theory DbMigrateFacts
  imports DbMigrate
begin

text \<open>What the operator can rely on: when a command succeeds, and what it may have done.\<close>

section \<open>Commands as sequences\<close>

named_theorems succeeds "when a command returns a value"
named_theorems effects "which effects a command has"

lemma then_do_succeeds [succeeds]: "fst (then_do c k) = Inr y \<longleftrightarrow> (\<exists>x. fst c = Inr x \<and> fst (k x) = Inr y)"
  by (cases c; cases "fst c") (auto simp: then_do_def split: prod.split sum.split)

lemma then_do_effects [effects]:
  "ev \<in> set (snd (then_do c k)) \<longleftrightarrow> ev \<in> set (snd c) \<or> (\<exists>x. fst c = Inr x \<and> ev \<in> set (snd (k x)))"
  by (cases c; cases "fst c") (auto simp: then_do_def split: prod.split sum.split)

lemma basic_succeeds [succeeds]:
  "fst (give x) = Inr y \<longleftrightarrow> x = y" "fst (fails e) = Inr y \<longleftrightarrow> False" "fst (refuse_with r) = Inr y \<longleftrightarrow> False"
  "fst (effect ev) = Inr u \<longleftrightarrow> True" "fst (answer q) = Inr x \<longleftrightarrow> q = Some x" "fst (attempt t) = Inr x \<longleftrightarrow> t = Inr x"
  "fst (guard ok r k) = Inr y \<longleftrightarrow> ok \<and> fst (k ()) = Inr y"
  by (auto simp: give_def fails_def refuse_with_def effect_def answer_def attempt_def guard_def split: option.split sum.split)

lemma basic_effects [effects]:
  "snd (give x) = []" "snd (fails e) = []" "snd (refuse_with r) = []" "snd (effect ev) = [ev]" "snd (answer q) = []"
  "snd (attempt t) = []" "ev \<in> set (snd (guard ok r k)) \<longleftrightarrow> ok \<and> ev \<in> set (snd (k ()))"
  by (auto simp: give_def fails_def refuse_with_def effect_def answer_def attempt_def guard_def split: option.split sum.split)

lemma with_connection_succeeds [succeeds]:
  "fst (with_connection W k u body) = Inr x \<longleftrightarrow>
     (\<exists>c. si_server W k u = Some c \<and> fst (body c) = Inr x \<and> cn_committed c = Some ())"
  by (simp add: with_connection_def succeeds)

lemma with_connection_effects [effects]:
  "ev \<in> set (snd (with_connection W k u body)) \<longleftrightarrow>
     ev = Connects u \<or> (\<exists>c. si_server W k u = Some c \<and> (ev \<in> set (snd (body c)) \<or> (\<exists>x. fst (body c) = Inr x \<and> ev = Commits)))"
  by (auto simp: with_connection_def effects succeeds)

lemma main_succeeds: "fst (main W arguments) = Exit 0 \<longleftrightarrow> fst (handler W arguments) = Inr ()"
  by (cases "handler W arguments")
    (auto simp: main_def outcome_of_def split: sum.split failure.split)

lemma connection_reads [effects]:
  "snd (connected_identity c) = []" "snd (current_revisions c) = []"
  by (auto simp: connected_identity_def current_revisions_def then_do_def answer_def fails_def give_def refuse_with_def
      split: option.split)

lemma connected_identity_succeeds [succeeds]: "fst (connected_identity c) = Inr i \<longleftrightarrow> cn_identity c = Some (Some i)"
  by (auto simp: connected_identity_def succeeds split: option.split)

lemma current_revisions_succeeds [succeeds]:
  "fst (current_revisions c) = Inr r \<longleftrightarrow> (\<exists>found. cn_revisions c = Some found \<and> r = map_option sort found)"
  by (auto simp: current_revisions_def succeeds)

section \<open>The graph\<close>

lemma inspected_graph_effects [effects]: "snd (inspected_graph W) = []"
  by (simp add: inspected_graph_def effects split: option.split sum.split)

lemma validated_graph_effects [effects]: "ev \<in> set (snd (validated_graph W)) \<longleftrightarrow> False"
  by (simp add: validated_graph_def effects Let_def)

lemma validated_graph_succeeds [succeeds]:
  "fst (validated_graph W) = Inr rp \<longleftrightarrow>
     validate_frozen_baseline (si_runtime W) (si_sha W) (si_package W) = Some (Inr rp)"
  by (auto simp: validated_graph_def inspected_graph_def succeeds validate_frozen_baseline_def Let_def
      split: option.splits sum.splits list.splits if_splits)

text \<open>The package on disk is the frozen one.\<close>

definition package_frozen :: "site \<Rightarrow> bool" where
  "package_frozen W \<longleftrightarrow> (\<exists>chain. is_frozen_history (si_runtime W) (si_sha W) (si_package W) chain)"

lemma validated_graph_frozen: "(\<exists>rp. fst (validated_graph W) = Inr rp) \<longleftrightarrow> package_frozen W"
  using accepted_is_frozen_history [of "si_runtime W" "si_sha W" "si_package W"]
    frozen_history_accepted [of "si_runtime W" "si_sha W" "si_package W"]
  by (fastforce simp: succeeds package_frozen_def)

lemma validated_head: "fst (validated_graph W) = Inr rp \<Longrightarrow> rp_heads rp = [EXPECTED_SCHEMA_HEAD]"
  by (auto simp: succeeds validate_frozen_baseline_def find_baseline_violations_def
      split: option.splits sum.splits list.splits if_splits)

lemma command_graph_succeeds [succeeds]: "fst (command_graph W) = Inr () \<longleftrightarrow> package_frozen W"
  using validated_graph_frozen [of W] by (auto simp: command_graph_def validated_graph_def succeeds)

lemma command_graph_effects [effects]: "ev \<in> set (snd (command_graph W)) \<longleftrightarrow> False"
  by (simp add: command_graph_def effects)

section \<open>The deployment gate\<close>

lemma revision_problem_None [simp]: "revision_problem revisions expected chain = None \<longleftrightarrow> revisions = Some [expected]"
  by (auto simp: revision_problem_def split: option.splits list.splits)

lemma not_installed_Nil [simp]: "not_installed installed = [] \<longleftrightarrow> set REQUIRED_EXTENSIONS \<subseteq> set installed"
  by (auto simp: not_installed_def filter_empty_conv)

text \<open>The target database is at the head this build requires, as its server says.\<close>

definition target_is_current :: "site \<Rightarrow> bool" where
  "target_is_current W \<longleftrightarrow>
     (\<exists>u t c i installed. migration_url W = Inr u \<and> migration_target W u = Inr t \<and> si_server W 0 u = Some c
        \<and> cn_identity c = Some (Some i) \<and> id_session_user i \<notin> set RUNTIME_ROLES \<and> id_current_user i \<notin> set RUNTIME_ROLES
        \<and> id_database i = lt_dbname t
        \<and> cn_revisions c = Some (Some [lit ''112_5H5''])
        \<and> cn_installed c = Some installed \<and> set REQUIRED_EXTENSIONS \<subseteq> set installed
        \<and> cn_committed c = Some ())"

lemma sorted_found: "map_option sort found = Some [x] \<longleftrightarrow> found = Some [x]"
  by (cases found) (auto simp: sort_singleton)

lemma gate_connection_succeeds [succeeds]:
  "fst (gate_connection target c) = Inr (revisions, installed) \<longleftrightarrow>
     (\<exists>i found. cn_identity c = Some (Some i) \<and> id_session_user i \<notin> set RUNTIME_ROLES \<and> id_current_user i \<notin> set RUNTIME_ROLES
        \<and> id_database i = lt_dbname target \<and> cn_revisions c = Some found \<and> revisions = map_option sort found
        \<and> cn_installed c = Some installed)"
  by (auto simp: gate_connection_def succeeds)

lemma sole_head_succeeds [succeeds]: "fst (sole_head rp) = Inr h \<longleftrightarrow> rp_heads rp = [h]"
  by (auto simp: sole_head_def succeeds split: list.split)

lemma gate_problems_Nil [simp]:
  "gate_problems revisions installed expected chain = [] \<longleftrightarrow>
     revisions = Some [expected] \<and> set REQUIRED_EXTENSIONS \<subseteq> set installed"
  by (cases "revision_problem revisions expected chain"; use revision_problem_None [of revisions expected chain] in
      \<open>auto simp: gate_problems_def simp del: revision_problem_None\<close>)

lemma gate_target:
  "(\<exists>u t installed. migration_url W = Inr u \<and> migration_target W u = Inr t
      \<and> fst (with_connection W 0 u (gate_connection t)) = Inr (Some [EXPECTED_SCHEMA_HEAD], installed)
      \<and> set REQUIRED_EXTENSIONS \<subseteq> set installed) \<longleftrightarrow> target_is_current W"
proof -
  have head: "Some [EXPECTED_SCHEMA_HEAD] = map_option sort found \<longleftrightarrow> found = Some [lit ''112_5H5'']" for found
    using sorted_found [of found EXPECTED_SCHEMA_HEAD] by (metis EXPECTED_SCHEMA_HEAD_def)
  show ?thesis
    unfolding target_is_current_def succeeds head by fast
qed

lemma command_gate_succeeds:
  "fst (command_gate W expected) = Inr () \<longleftrightarrow> package_frozen W \<and> expected = EXPECTED_SCHEMA_HEAD \<and> target_is_current W"
proof -
  have "fst (command_gate W expected) = Inr () \<longleftrightarrow>
      (\<exists>rp. fst (validated_graph W) = Inr rp \<and> rp_heads rp = [expected] \<and> expected = EXPECTED_SCHEMA_HEAD
        \<and> (\<exists>u t installed. migration_url W = Inr u \<and> migration_target W u = Inr t
            \<and> fst (with_connection W 0 u (gate_connection t)) = Inr (Some [expected], installed)
            \<and> set REQUIRED_EXTENSIONS \<subseteq> set installed))"
    unfolding command_gate_def then_do_succeeds basic_succeeds sole_head_succeeds
    by (simp add: Let_def basic_succeeds)
  then have "fst (command_gate W expected) = Inr () \<longleftrightarrow>
      (\<exists>rp. fst (validated_graph W) = Inr rp) \<and> expected = EXPECTED_SCHEMA_HEAD
        \<and> (\<exists>u t installed. migration_url W = Inr u \<and> migration_target W u = Inr t
            \<and> fst (with_connection W 0 u (gate_connection t)) = Inr (Some [EXPECTED_SCHEMA_HEAD], installed)
            \<and> set REQUIRED_EXTENSIONS \<subseteq> set installed)"
    using validated_head [of W] by auto
  then show ?thesis by (simp only: gate_target validated_graph_frozen)
qed

text \<open>
  C7: The deployment gate exits with zero exactly when the package on disk is the frozen one,
  the expected head is the one of this build, and the target database, reached under a role
  that is no runtime role, is the one the URL names, records exactly that head and has every
  extension. Every other case has another outcome.
\<close>

theorem gate_passes_iff:
  "fst (main W (Gate expected)) = Exit 0 \<longleftrightarrow>
     package_frozen W \<and> expected = lit ''112_5H5'' \<and> target_is_current W"
  by (simp add: main_succeeds command_gate_succeeds EXPECTED_SCHEMA_HEAD_def)

section \<open>What a command may do\<close>

text \<open>The first connection allows an upgrade: nothing to stamp, and no second recorded revision.\<close>

definition upgradable :: "connection \<Rightarrow> bool" where
  "upgradable c \<longleftrightarrow>
     (case cn_revisions c of
        Some None \<Rightarrow> cn_sentinel c = Some False
      | Some (Some found) \<Rightarrow> length found \<le> 1
      | None \<Rightarrow> False)"

fun permitted :: "site \<Rightarrow> arguments \<Rightarrow> effect \<Rightarrow> bool" where
  "permitted W arguments (Connects u) \<longleftrightarrow>
     arguments \<noteq> Graph \<and> migration_url W = Inr u \<and> (\<exists>t. migration_target W u = Inr t)"
| "permitted W arguments Commits \<longleftrightarrow> arguments \<noteq> Graph"
| "permitted W arguments (AltersRole role password) \<longleftrightarrow>
     arguments = SetRuntimePassword \<and> si_environ W (lit ''ENVIRONMENT'') \<in> Some ` set PASSWORD_ENVIRONMENTS
     \<and> role \<in> set RUNTIME_ROLES \<and> password \<noteq> []
     \<and> (\<exists>u t c i. migration_url W = Inr u \<and> migration_target W u = Inr t \<and> lt_host t \<in> set LOOPBACK_HOSTS
          \<and> si_server W 0 u = Some c \<and> cn_identity c = Some (Some i) \<and> is_local_server t i)"
| "permitted W arguments (RunsAlembic dsn head) \<longleftrightarrow>
     arguments = Upgrade \<and> head = EXPECTED_SCHEMA_HEAD \<and> package_frozen W
     \<and> (\<exists>u c. migration_url W = Inr u \<and> dsn = sa_render (si_library W) u \<and> si_server W 0 u = Some c \<and> upgradable c)"

lemma list_all_effects: "list_all P (snd c) \<longleftrightarrow> (\<forall>ev. ev \<in> set (snd c) \<longrightarrow> P ev)"
  by (auto simp: list_all_iff)

lemma attempt_url_target:
  assumes "arguments \<noteq> Graph"
    and "\<And>u t. migration_url W = Inr u \<Longrightarrow> migration_target W u = Inr t \<Longrightarrow> list_all (permitted W arguments) (snd (k u t))"
  shows "list_all (permitted W arguments)
    (snd (then_do (attempt (migration_url W)) (\<lambda>u. then_do (attempt (migration_target W u)) (k u))))"
  using assms(2) by (auto simp: list_all_effects effects succeeds)

text \<open>A connection to the checked target, whose block has only permitted effects.\<close>

lemma connection_permitted:
  assumes "arguments \<noteq> Graph" "migration_url W = Inr u" "migration_target W u = Inr t"
    and "\<And>c. si_server W k u = Some c \<Longrightarrow> list_all (permitted W arguments) (snd (body c))"
  shows "list_all (permitted W arguments) (snd (with_connection W k u body))"
  using assms by (auto simp: list_all_effects effects)

lemma then_permitted:
  assumes "list_all P (snd c)" "\<And>x. fst c = Inr x \<Longrightarrow> list_all P (snd (k x))"
  shows "list_all P (snd (then_do c k))"
  using assms by (auto simp: list_all_effects effects)

lemma guard_permitted: "(ok \<Longrightarrow> list_all P (snd (k ()))) \<Longrightarrow> list_all P (snd (guard ok r k))"
  by (auto simp: list_all_effects effects)

lemma silent_permitted:
  "list_all P (snd (give x))" "list_all P (snd (fails e))" "list_all P (snd (refuse_with r))" "list_all P (snd (answer q))"
  "list_all P (snd (attempt t))" "list_all P (snd (connected_identity c))" "list_all P (snd (current_revisions c))"
  "list_all P (snd (validated_graph W))" "list_all P (snd (command_graph W))" "list_all P (snd (sole_head rp))"
  by (auto simp: list_all_effects effects sole_head_def split: list.split)

lemmas permitted_intros = then_permitted guard_permitted silent_permitted attempt_url_target connection_permitted


lemma check_permitted: "list_all (permitted W (Check expect_head)) (snd (command_check W expect_head))"
  unfolding command_check_def
  by (rule attempt_url_target, simp, rule then_permitted, rule connection_permitted [where W = W], simp, assumption, assumption)
    (auto intro!: permitted_intros split: prod.split simp: Let_def)

lemma gate_permitted: "list_all (permitted W (Gate expected)) (snd (command_gate W expected))"
  unfolding command_gate_def
  apply (rule then_permitted, rule silent_permitted)+
  apply (rule guard_permitted)+
  apply (rule attempt_url_target, simp, rule then_permitted, rule connection_permitted, simp, assumption, assumption)
  apply (auto intro!: then_permitted guard_permitted silent_permitted split: prod.split simp: Let_def gate_connection_def)
  done

lemma upgrade_first_connection:
  assumes "fst (with_connection W 0 u (\<lambda>c. then_do (current_revisions c) (\<lambda>revisions.
        then_do (answer (cn_sentinel c)) (\<lambda>sentinel. give (revisions, sentinel))))) = Inr (revisions, sentinel)"
    and "\<not> (revisions = None \<and> sentinel)" "case revisions of None \<Rightarrow> True | Some rs \<Rightarrow> length rs \<le> 1"
  shows "\<exists>c. si_server W 0 u = Some c \<and> upgradable c"
  using assms by (auto simp: succeeds upgradable_def split: option.splits)

lemma upgrade_permitted: "list_all (permitted W Upgrade) (snd (command_upgrade W))"
  unfolding command_upgrade_def
proof (rule then_permitted, rule silent_permitted, rule attempt_url_target, simp, rule then_permitted)
  fix u t
  assume u: "migration_url W = Inr u" "migration_target W u = Inr t"
  let ?first = "with_connection W 0 u (\<lambda>c. then_do (current_revisions c) (\<lambda>revisions.
        then_do (answer (cn_sentinel c)) (\<lambda>sentinel. give (revisions, sentinel))))"
  show "list_all (permitted W Upgrade) (snd ?first)"
    by (rule connection_permitted [OF _ u], simp) (intro then_permitted silent_permitted)
  fix g :: unit and found
  assume g: "fst (command_graph W) = Inr g" and found: "fst ?first = Inr found"
  obtain revisions sentinel where f: "found = (revisions, sentinel)" by (cases found)
  have dsn: "list_all (permitted W Upgrade) (snd (effect (RunsAlembic (sa_render (si_library W) u) EXPECTED_SCHEMA_HEAD)))"
    if "\<not> (revisions = None \<and> sentinel)" "case revisions of None \<Rightarrow> True | Some rs \<Rightarrow> length rs \<le> 1"
    using upgrade_first_connection [OF found [unfolded f] that] u g by (auto simp: effects succeeds)
  have second: "list_all (permitted W Upgrade) (snd (with_connection W 1 u current_revisions))"
    by (rule connection_permitted [OF _ u], simp) (rule silent_permitted)
  show "list_all (permitted W Upgrade)
     (snd (case found of (revisions, sentinel) \<Rightarrow>
        guard (\<not> (revisions = None \<and> sentinel)) MustBeStamped (\<lambda>_.
        guard (case revisions of None \<Rightarrow> True | Some rs \<Rightarrow> length rs \<le> 1)
          (SeveralRevisions (case revisions of None \<Rightarrow> [] | Some rs \<Rightarrow> rs)) (\<lambda>_.
        let dsn = sa_render (si_library W) u; code = si_alembic W dsn EXPECTED_SCHEMA_HEAD in
        then_do (effect (RunsAlembic dsn EXPECTED_SCHEMA_HEAD)) (\<lambda>_.
        guard (code = 0) (AlembicFailed code) (\<lambda>_.
        then_do (with_connection W 1 u current_revisions) (\<lambda>reached.
        guard (reached = Some [EXPECTED_SCHEMA_HEAD]) (NotUpgraded reached) give)))))))"
    unfolding f prod.case Let_def
    by (rule guard_permitted, rule guard_permitted, rule then_permitted [OF dsn], assumption, assumption,
        rule guard_permitted, rule then_permitted [OF second], rule guard_permitted, rule silent_permitted)
qed

lemma password_plan_effects [effects]: "ev \<in> set (snd (password_plan W)) \<longleftrightarrow> False"
  by (auto simp: password_plan_def runtime_identity_def effects Let_def split: prod.splits option.splits if_splits)

lemma password_plan_succeeds:
  assumes "fst (password_plan W) = Inr p"
  shows "si_environ W (lit ''ENVIRONMENT'') \<in> Some ` set PASSWORD_ENVIRONMENTS"
    and "migration_url W = Inr (pp_url p)" "migration_target W (pp_url p) = Inr (pp_migration p)"
    and "lt_host (pp_migration p) \<in> set LOOPBACK_HOSTS" "pp_role p \<in> set RUNTIME_ROLES" "pp_password p \<noteq> []"
  using assms
  by (auto simp: password_plan_def runtime_identity_def succeeds Let_def is_empty_def split: prod.splits option.splits if_splits)

lemma password_permitted: "list_all (permitted W SetRuntimePassword) (snd (command_set_runtime_password W))"
  unfolding command_set_runtime_password_def
proof (rule then_permitted)
  show "list_all (permitted W SetRuntimePassword) (snd (password_plan W))" by (auto simp: list_all_effects effects)
  fix p assume "fst (password_plan W) = Inr p"
  note plan = password_plan_succeeds [OF this]
  show "list_all (permitted W SetRuntimePassword) (snd (with_connection W 0 (pp_url p) (alter_role p)))"
  proof (rule connection_permitted [OF _ plan(2,3)], simp)
    fix c assume "si_server W 0 (pp_url p) = Some c"
    then show "list_all (permitted W SetRuntimePassword) (snd (alter_role p c))"
      using plan by (auto simp: alter_role_def list_all_effects effects succeeds)
  qed
qed

text \<open>
  C8: Whatever the command line, the environment and the servers say: nothing connects but to
  the migration URL, after its target was checked, and \<open>graph\<close> never connects. Alembic runs
  only for \<open>upgrade\<close>, towards the frozen head, with the frozen package, on a database that can
  be upgraded. A role is altered only by \<open>set-runtime-password\<close>, under a local or test
  environment, for a runtime role, on a server of this machine that answers as the named one.
\<close>

theorem effects_permitted: "list_all (permitted W arguments) (snd (main W arguments))"
proof -
  have "list_all (permitted W arguments) (snd (handler W arguments))"
    by (cases arguments) (simp_all add: silent_permitted check_permitted gate_permitted upgrade_permitted password_permitted)
  then show ?thesis by (cases "handler W arguments") (simp add: main_def)
qed

lemma first_connection_succeeds:
  "fst (with_connection W 0 u (\<lambda>c. then_do (current_revisions c) (\<lambda>revisions.
        then_do (answer (cn_sentinel c)) (\<lambda>sentinel. give (revisions, sentinel))))) = Inr (revisions, sentinel)
    \<longleftrightarrow> (\<exists>c found. si_server W 0 u = Some c \<and> cn_revisions c = Some found \<and> revisions = map_option sort found
          \<and> cn_sentinel c = Some sentinel \<and> cn_committed c = Some ())"
proof -
  have "(\<exists>c. si_server W 0 u = Some c
        \<and> (\<exists>r. (\<exists>found. cn_revisions c = Some found \<and> r = map_option sort found)
              \<and> (\<exists>x. cn_sentinel c = Some x \<and> r = revisions \<and> x = sentinel)) \<and> cn_committed c = Some ())
    \<longleftrightarrow> (\<exists>c found. si_server W 0 u = Some c \<and> cn_revisions c = Some found \<and> revisions = map_option sort found
          \<and> cn_sentinel c = Some sentinel \<and> cn_committed c = Some ())" by iprover
  then show ?thesis
    by (simp only: with_connection_succeeds then_do_succeeds basic_succeeds current_revisions_succeeds prod.inject)
qed

lemma second_connection_succeeds:
  "fst (with_connection W 1 u current_revisions) = Inr (Some [EXPECTED_SCHEMA_HEAD]) \<longleftrightarrow>
     (\<exists>d. si_server W 1 u = Some d \<and> cn_revisions d = Some (Some [EXPECTED_SCHEMA_HEAD]) \<and> cn_committed d = Some ())"
proof -
  have head: "Some [EXPECTED_SCHEMA_HEAD] = map_option sort found \<longleftrightarrow> found = Some [EXPECTED_SCHEMA_HEAD]" for found
    using sorted_found [of found EXPECTED_SCHEMA_HEAD] by metis
  show ?thesis
    by (simp only: with_connection_succeeds current_revisions_succeeds head) iprover
qed

lemma first_connection_upgradable:
  "(\<exists>revisions sentinel.
      (\<exists>c found. si_server W 0 u = Some c \<and> cn_revisions c = Some found \<and> revisions = map_option sort found
         \<and> cn_sentinel c = Some sentinel \<and> cn_committed c = Some ())
      \<and> \<not> (revisions = None \<and> sentinel) \<and> (case revisions of None \<Rightarrow> True | Some rs \<Rightarrow> length rs \<le> 1) \<and> Q)
    \<longleftrightarrow> (\<exists>c. si_server W 0 u = Some c \<and> upgradable c \<and> cn_sentinel c \<noteq> None \<and> cn_committed c = Some ()) \<and> Q"
  by (cases "si_server W 0 u") (auto simp: upgradable_def split: option.splits)

lemma command_upgrade_succeeds:
  "fst (command_upgrade W) = Inr () \<longleftrightarrow>
     package_frozen W \<and> (\<exists>u t. migration_url W = Inr u \<and> migration_target W u = Inr t
       \<and> (\<exists>revisions sentinel.
            (\<exists>c found. si_server W 0 u = Some c \<and> cn_revisions c = Some found \<and> revisions = map_option sort found
               \<and> cn_sentinel c = Some sentinel \<and> cn_committed c = Some ())
            \<and> \<not> (revisions = None \<and> sentinel) \<and> (case revisions of None \<Rightarrow> True | Some rs \<Rightarrow> length rs \<le> 1)
            \<and> si_alembic W (sa_render (si_library W) u) EXPECTED_SCHEMA_HEAD = 0
            \<and> fst (with_connection W 1 u current_revisions) = Inr (Some [EXPECTED_SCHEMA_HEAD])))"
  unfolding command_upgrade_def then_do_succeeds [of "command_graph W"]
  by (simp add: then_do_succeeds [of "attempt r" for r] then_do_succeeds [of "with_connection W k u b" for k u b]
      then_do_succeeds [of "effect e" for e] basic_succeeds first_connection_succeeds
      command_graph_succeeds Let_def) 

text \<open>
  C9: An upgrade exits with zero exactly when the package is frozen, the database could be
  upgraded, Alembic succeeded, and a new connection then reads exactly the frozen head.
\<close>

theorem upgrade_succeeds_iff:
  "fst (main W Upgrade) = Exit 0 \<longleftrightarrow>
     package_frozen W \<and> (\<exists>u t c d. migration_url W = Inr u \<and> migration_target W u = Inr t
       \<and> si_server W 0 u = Some c \<and> upgradable c \<and> cn_sentinel c \<noteq> None \<and> cn_committed c = Some ()
       \<and> si_alembic W (sa_render (si_library W) u) (lit ''112_5H5'') = 0
       \<and> si_server W 1 u = Some d \<and> cn_revisions d = Some (Some [lit ''112_5H5'']) \<and> cn_committed d = Some ())"
proof -
  have "fst (main W Upgrade) = Exit 0 \<longleftrightarrow> fst (command_upgrade W) = Inr ()" by (simp add: main_succeeds)
  then show ?thesis
    unfolding command_upgrade_succeeds first_connection_upgradable second_connection_succeeds
    by (auto simp: EXPECTED_SCHEMA_HEAD_def)
qed

end
