(* ===== verification/AppSettings.thy ===== *)
theory AppSettings
  imports Settings
begin

text \<open>
  The settings of a deployable: \<open>BaseAppSettings\<close>, \<open>ApiSettings\<close>, and \<open>load_settings\<close>. Reading the
  environment into fields is pydantic's; what it hands to the validators of the program, and
  the errors it reports, are the input.
\<close>

section \<open>\<open>BaseAppSettings\<close>\<close>

datatype environment = Local | Test | Staging | Production
datatype log_level = LevelDebug | LevelInfo | LevelWarning | LevelError | LevelCritical
datatype log_format = FormatJson | FormatConsole

record app_settings =
  as_environment :: environment
  as_service_name :: pystr
  as_database :: database_settings
  as_redis :: redis_settings
  as_log_level :: log_level
  as_log_format :: log_format

definition is_production_like :: "app_settings \<Rightarrow> bool" where
  "is_production_like s \<longleftrightarrow> as_environment s \<in> {Staging, Production}"

text \<open>The pattern of the service name.\<close>

definition service_name_ok :: "pystr \<Rightarrow> bool" where
  "service_name_ok t \<longleftrightarrow> t \<noteq> [] \<and> is_alower (hd t) \<and> 2 \<le> length t \<and> length t \<le> 63
     \<and> list_all (\<lambda>c. is_alower c \<or> is_adigit c \<or> c = c_dash) (tl t)"

datatype rule_problem =
  IncompleteTarget | TestDatabaseName | PostgresTls | RedisTls | JsonLogFormat | DebugLevel | HttpsOrigins

definition environment_problem :: "sqlalchemy \<Rightarrow> pyrt \<Rightarrow> app_settings \<Rightarrow> rule_problem option" where
  "environment_problem L R s =
     (let ssl = Option.bind (sa_make_url L (ds_url (as_database s))) (\<lambda>u. map_of (u_query u) (lit ''ssl'')) in
      if as_environment s = Test then
        (case database_target L (as_database s) of
           None \<Rightarrow> Some IncompleteTarget
         | Some t \<Rightarrow> if starts_at (dt_database t) TEST_DATABASE_NAME_PREFIX 0 then None else Some TestDatabaseName)
      else if is_production_like s then
        (if \<not> (case ssl of Some (One v) \<Rightarrow> v \<in> set DATABASE_TLS_MODES | _ \<Rightarrow> False) then Some PostgresTls
         else if \<not> uses_tls R (as_redis s) then Some RedisTls
         else if as_log_format s \<noteq> FormatJson then Some JsonLogFormat
         else if as_log_level s = LevelDebug then Some DebugLevel
         else None)
      else None)"

text \<open>What pydantic accepts: every field, then the rules of the environment.\<close>

definition app_settings_ok :: "sqlalchemy \<Rightarrow> pyrt \<Rightarrow> app_settings \<Rightarrow> bool" where
  "app_settings_ok L R s \<longleftrightarrow>
     service_name_ok (as_service_name s) \<and> database_settings_ok L (as_database s) \<and> redis_settings_ok R (as_redis s)
     \<and> environment_problem L R s = None"

section \<open>\<open>ApiSettings\<close>\<close>

definition is_origin_edge :: "pychar \<Rightarrow> bool" where
  "is_origin_edge c \<longleftrightarrow> is_alower c \<or> is_adigit c"

definition rx_origin_label :: rx where
  "rx_origin_label = RxSeq (RxSet is_origin_edge)
     (rx_opt (RxSeq (RxRep True (RxSet (\<lambda>c. is_origin_edge c \<or> c = c_dash)) 0 (Some 61)) (RxSet is_origin_edge)))"

definition is_bracketed_char :: "pychar \<Rightarrow> bool" where
  "is_bracketed_char c \<longleftrightarrow> is_adigit c \<or> (97 \<le> c \<and> c \<le> 102) \<or> c = c_colon \<or> c = c_dot"

text \<open>Groups: 1 the scheme, 2 the host, 3 the port.\<close>

definition ORIGIN :: rx where
  "ORIGIN = rx_seq
     [RxStart, RxGroup 1 (RxSeq (rx_lit (lit ''http'')) (rx_opt (rx_ch 115))), rx_lit (lit ''://''),
      RxGroup 2 (RxAlt (rx_seq [rx_ch c_lbrack, rx_plus (RxSet is_bracketed_char), rx_ch c_rbrack])
        (RxSeq rx_origin_label (rx_star (RxSeq (rx_ch c_dot) rx_origin_label)))),
      rx_opt (RxSeq (rx_ch c_colon) (RxGroup 3 (RxRep True (RxSet is_adigit) 1 (Some 5)))), RxEnd]"

definition is_valid_origin :: "pystr \<Rightarrow> bool" where
  "is_valid_origin origin =
     (case rx_full ORIGIN origin of
        None \<Rightarrow> False
      | Some m \<Rightarrow>
          (let host = the (rx_group origin m 2); https = (rx_group origin m 1 = Some (lit ''https'')) in
           (starts_at host [c_lbrack] 0 \<longrightarrow> is_ipv6 (slice host 1 (length host - 1)))
           \<and> (case rx_group origin m 3 of
                None \<Rightarrow> True
              | Some port \<Rightarrow> 1 \<le> dec_value port \<and> dec_value port \<le> 65535 \<and> dec_value port \<noteq> (if https then 443 else 80))))"

record api_settings = app_settings +
  api_cors_allowed_origins :: "pystr list"
  api_docs_enabled :: bool
  api_readiness_timeout_seconds :: rat

definition api_environment_problem :: "api_settings \<Rightarrow> rule_problem option" where
  "api_environment_problem s =
     (if as_environment s \<in> {Staging, Production}
         \<and> \<not> list_all (\<lambda>origin. starts_at origin (lit ''https://'') 0) (api_cors_allowed_origins s)
      then Some HttpsOrigins else None)"

definition api_settings_ok :: "sqlalchemy \<Rightarrow> pyrt \<Rightarrow> api_settings \<Rightarrow> bool" where
  "api_settings_ok L R s \<longleftrightarrow>
     list_all is_valid_origin (api_cors_allowed_origins s)
     \<and> 0 < api_readiness_timeout_seconds s \<and> api_readiness_timeout_seconds s \<le> 30
     \<and> app_settings_ok L R (app_settings.truncate s) \<and> api_environment_problem s = None"

lemma origin_examples:
  "is_valid_origin (lit ''https://app.example.com'')" "\<not> is_valid_origin (lit ''https://*.example.com'')"
  "\<not> is_valid_origin (lit ''https://a/'')" "\<not> is_valid_origin (lit ''*'')"
  "\<not> is_valid_origin (lit ''https://A.com'')"
  by code_simp+

section \<open>Loading\<close>

text \<open>One error of a \<open>ValidationError\<close>: the parts of its location, as text, and its message.\<close>

type_synonym validation_error = "pystr list \<times> pystr"

definition LOCAL_ENV_FILE :: pystr where
  "LOCAL_ENV_FILE = lit ''.env.local''"

definition describe_problem :: "validation_error \<Rightarrow> pystr" where
  "describe_problem e =
     (let loc = py_join [c_dot] (fst e) in (if loc = [] then lit ''settings'' else loc) @ lit '': '' @ snd e)"

definition describe_validation :: "validation_error list \<Rightarrow> pystr" where
  "describe_validation errors = lit ''Invalid configuration: '' @ py_join (lit ''; '') (map describe_problem errors)"

definition load_settings ::
  "(pystr \<Rightarrow> pystr option) \<Rightarrow> (pystr option \<Rightarrow> validation_error list + 's) \<Rightarrow> platform_error + 's" where
  "load_settings environ settings_cls =
     (let env_file = (if environ (lit ''ENVIRONMENT'') = Some (lit ''local'') then Some LOCAL_ENV_FILE else None) in
      case settings_cls env_file of
        Inl errors \<Rightarrow> Inl (platform_error ConfigurationError (describe_validation errors) [])
      | Inr s \<Rightarrow> Inr s)"

end
