(* ===== verification/Api.thy ===== *)
theory Api
  imports Runtime AppSettings
begin

text \<open>
  \<open>apps/api\<close>: the error catalog, the exception handlers, the three middlewares, the health
  endpoints and their composition by \<open>create_app\<close>, with \<open>shared_kernel/request_context.py\<close>.

  An application run is the messages it sends and the exception it ends with. Starlette decides
  which handler gets an exception and what the CORS policy answers; that is written here as the
  framework documents it, or is an argument. Headers are a mapping from lower-case names.
\<close>

section \<open>The error catalog\<close>

datatype api_error_code =
  VALIDATION_ERROR | RESOURCE_NOT_FOUND | METHOD_NOT_ALLOWED | INTERNAL_ERROR | DEPENDENCY_UNAVAILABLE

datatype authority = FrozenCatalog | Erratum_OD_D0_02

record error_contract =
  ec_statuses :: "int list"
  ec_retryable :: bool
  ec_message :: pystr
  ec_authority :: authority

fun ERROR_CATALOG :: "api_error_code \<Rightarrow> error_contract" where
  "ERROR_CATALOG VALIDATION_ERROR = \<lparr>ec_statuses = [422, 400], ec_retryable = False,
     ec_message = lit ''The request is invalid.'', ec_authority = FrozenCatalog\<rparr>"
| "ERROR_CATALOG RESOURCE_NOT_FOUND = \<lparr>ec_statuses = [404], ec_retryable = False,
     ec_message = lit ''The requested resource could not be found.'', ec_authority = FrozenCatalog\<rparr>"
| "ERROR_CATALOG METHOD_NOT_ALLOWED = \<lparr>ec_statuses = [405], ec_retryable = False,
     ec_message = lit ''The request method is not supported for this resource.'', ec_authority = Erratum_OD_D0_02\<rparr>"
| "ERROR_CATALOG INTERNAL_ERROR = \<lparr>ec_statuses = [500], ec_retryable = False,
     ec_message = lit ''An unexpected error occurred.'', ec_authority = FrozenCatalog\<rparr>"
| "ERROR_CATALOG DEPENDENCY_UNAVAILABLE = \<lparr>ec_statuses = [503], ec_retryable = True,
     ec_message = lit ''A required dependency is temporarily unavailable.'', ec_authority = FrozenCatalog\<rparr>"

definition default_status :: "error_contract \<Rightarrow> int" where
  "default_status contract = hd (ec_statuses contract)"

text \<open>\<open>None\<close> is the \<open>ValueError\<close>.\<close>

definition contract_for :: "api_error_code \<Rightarrow> int option \<Rightarrow> (int \<times> error_contract) option" where
  "contract_for code status_code =
     (let contract = ERROR_CATALOG code;
          status = (case status_code of None \<Rightarrow> default_status contract | Some s \<Rightarrow> s)
      in if status \<notin> set (ec_statuses contract) then None else Some (status, contract))"

section \<open>Responses\<close>

type_synonym headers = "pystr \<Rightarrow> pystr option"

record envelope =
  en_code :: api_error_code
  en_message :: pystr
  en_request_id :: pystr
  en_retryable :: bool

datatype body =
    ErrorBody envelope
  | LivenessBody
  | ReadinessBody bool "(pystr \<times> check_status) list"
  | OtherBody pystr

record response =
  re_status :: int
  re_headers :: headers
  re_body :: body

definition json_headers :: headers where
  "json_headers = [lit ''content-type'' \<mapsto> lit ''application/json'']"

type_synonym request_context = "pystr option"   \<comment> \<open>the request ID of the bound \<open>RequestContext\<close>\<close>

definition UNKNOWN_REQUEST_ID :: pystr where
  "UNKNOWN_REQUEST_ID = lit ''unknown''"

definition error_response :: "request_context \<Rightarrow> api_error_code \<Rightarrow> int option \<Rightarrow> response option" where
  "error_response ctx code status_code =
     map_option (\<lambda>(status, contract). \<lparr>re_status = status, re_headers = json_headers,
        re_body = ErrorBody \<lparr>en_code = code, en_message = ec_message contract,
          en_request_id = (case ctx of None \<Rightarrow> UNKNOWN_REQUEST_ID | Some i \<Rightarrow> i), en_retryable = ec_retryable contract\<rparr>\<rparr>)
       (contract_for code status_code)"

section \<open>Exceptions and their handlers\<close>

text \<open>\<open>Cancelled\<close> stands for what is no \<open>Exception\<close>.\<close>

datatype app_exception =
    PlatformExc platform_error
  | HttpExc int headers
  | ValidationExc "pystr list"     \<comment> \<open>the \<open>type\<close> of each error\<close>
  | OtherExc pystr
  | Cancelled

definition handle_platform_error :: "request_context \<Rightarrow> platform_error \<Rightarrow> response option" where
  "handle_platform_error ctx e =
     (if pe_class e \<le> DatabaseError \<or> pe_class e \<le> CacheError
      then error_response ctx DEPENDENCY_UNAVAILABLE None
      else error_response ctx INTERNAL_ERROR None)"

definition HTTP_STATUS_CODES :: "(int \<times> api_error_code) list" where
  "HTTP_STATUS_CODES =
     [(400, VALIDATION_ERROR), (404, RESOURCE_NOT_FOUND), (405, METHOD_NOT_ALLOWED), (422, VALIDATION_ERROR)]"

definition handle_http_exception :: "request_context \<Rightarrow> int \<Rightarrow> headers \<Rightarrow> response option" where
  "handle_http_exception ctx status headers =
     (case map_of HTTP_STATUS_CODES status of
        None \<Rightarrow> error_response ctx INTERNAL_ERROR None
      | Some code \<Rightarrow> map_option (\<lambda>r. r\<lparr>re_headers := re_headers r ++ headers\<rparr>) (error_response ctx code (Some status)))"

definition handle_request_validation_error :: "request_context \<Rightarrow> pystr list \<Rightarrow> response option" where
  "handle_request_validation_error ctx types =
     error_response ctx VALIDATION_ERROR (Some (if lit ''json_invalid'' \<in> set types then 400 else 422))"

text \<open>\<open>register_error_handlers\<close>: \<open>None\<close> when no handler is registered for the exception.\<close>

definition registered_handler :: "request_context \<Rightarrow> app_exception \<Rightarrow> response option option" where
  "registered_handler ctx e =
     (case e of
        PlatformExc p \<Rightarrow> Some (handle_platform_error ctx p)
      | HttpExc status headers \<Rightarrow> Some (handle_http_exception ctx status headers)
      | ValidationExc types \<Rightarrow> Some (handle_request_validation_error ctx types)
      | OtherExc _ \<Rightarrow> None
      | Cancelled \<Rightarrow> None)"

section \<open>Runs and middlewares\<close>

datatype message = Start int headers | Chunk body

type_synonym asgi_run = "message list \<times> app_exception option"

fun is_start :: "message \<Rightarrow> bool" where
  "is_start (Start _ _) = True"
| "is_start (Chunk _) = False"

definition response_messages :: "response \<Rightarrow> message list" where
  "response_messages r = [Start (re_status r) (re_headers r), Chunk (re_body r)]"

definition started :: "message list \<Rightarrow> bool" where
  "started ms \<longleftrightarrow> list_ex is_start ms"

text \<open>Sending a response that a handler built, or the exception the handler raised instead.\<close>

definition answer_with :: "message list \<Rightarrow> response option \<Rightarrow> asgi_run" where
  "answer_with ms r =
     (case r of None \<Rightarrow> (ms, Some (OtherExc (lit ''ValueError''))) | Some r \<Rightarrow> (ms @ response_messages r, None))"

text \<open>Starlette's exception layer around the routes.\<close>

definition exception_layer :: "request_context \<Rightarrow> asgi_run \<Rightarrow> asgi_run" where
  "exception_layer ctx inner =
     (case inner of
        (ms, None) \<Rightarrow> (ms, None)
      | (ms, Some e) \<Rightarrow>
          (case registered_handler ctx e of
             None \<Rightarrow> (ms, Some e)
           | Some r \<Rightarrow>
               if started ms then (ms, Some (OtherExc (lit ''Caught handled exception, but response already started.'')))
               else answer_with ms r))"

text \<open>\<open>UnhandledErrorMiddleware\<close> and \<open>CorrelationIdMiddleware\<close>; \<open>http\<close> is the type of the scope.\<close>

definition unhandled_error :: "bool \<Rightarrow> request_context \<Rightarrow> asgi_run \<Rightarrow> asgi_run" where
  "unhandled_error http ctx inner =
     (if \<not> http then inner
      else case inner of
        (ms, None) \<Rightarrow> (ms, None)
      | (ms, Some e) \<Rightarrow>
          if e = Cancelled \<or> started ms then (ms, Some e)
          else answer_with ms (error_response ctx INTERNAL_ERROR None))"

definition REQUEST_ID_HEADER :: pystr where
  "REQUEST_ID_HEADER = lit ''x-request-id''"

fun with_request_id :: "pystr \<Rightarrow> message \<Rightarrow> message" where
  "with_request_id i (Start status headers) = Start status (headers(REQUEST_ID_HEADER \<mapsto> i))"
| "with_request_id i (Chunk b) = Chunk b"

definition correlation_id :: "bool \<Rightarrow> pystr \<Rightarrow> request_context \<Rightarrow> (request_context \<Rightarrow> asgi_run) \<Rightarrow> asgi_run" where
  "correlation_id http request_id outer app =
     (if \<not> http then app outer
      else case app (Some request_id) of (ms, e) \<Rightarrow> (map (with_request_id request_id) ms, e))"

section \<open>CORS\<close>

text \<open>What Starlette's policy says of one request: its answer to a preflight, or the headers it adds.\<close>

record cors_policy =
  co_preflight :: "response option"
  co_add :: "headers \<Rightarrow> headers"

definition BODY_HEADERS :: "pystr list" where
  "BODY_HEADERS = [lit ''content-type'', lit ''content-length'']"

definition preflight_response :: "request_context \<Rightarrow> response \<Rightarrow> response option" where
  "preflight_response ctx decision =
     (if re_status decision < 400 then Some decision
      else map_option (\<lambda>r. r\<lparr>re_headers := (\<lambda>n. if n \<in> set BODY_HEADERS then re_headers r n
             else case re_headers decision n of None \<Rightarrow> re_headers r n | Some v \<Rightarrow> Some v)\<rparr>)
           (error_response ctx VALIDATION_ERROR (Some 400)))"

fun add_headers :: "(headers \<Rightarrow> headers) \<Rightarrow> message \<Rightarrow> message" where
  "add_headers f (Start status headers) = Start status (f headers)"
| "add_headers f (Chunk b) = Chunk b"

definition cors_layer :: "bool \<Rightarrow> cors_policy \<Rightarrow> request_context \<Rightarrow> asgi_run \<Rightarrow> asgi_run" where
  "cors_layer http policy ctx inner =
     (if \<not> http then inner
      else case co_preflight policy of
        Some decision \<Rightarrow> answer_with [] (preflight_response ctx decision)
      | None \<Rightarrow> (map (add_headers (co_add policy)) (fst inner), snd inner))"

section \<open>The health endpoints\<close>

definition no_store :: headers where
  "no_store = json_headers(lit ''cache-control'' \<mapsto> lit ''no-store'')"

definition liveness :: response where
  "liveness = \<lparr>re_status = 200, re_headers = no_store, re_body = LivenessBody\<rparr>"

definition readiness_response :: "readiness_report \<Rightarrow> response" where
  "readiness_response r = \<lparr>re_status = (if rr_ready r then 200 else 503), re_headers = no_store,
     re_body = ReadinessBody (rr_ready r) (rr_checks r)\<rparr>"

section \<open>\<open>create_app\<close>\<close>

text \<open>The layers of the application, from the outermost; the CORS layer only with allowed origins.\<close>

definition create_app ::
  "api_settings \<Rightarrow> bool \<Rightarrow> pystr \<Rightarrow> cors_policy \<Rightarrow> request_context \<Rightarrow> (request_context \<Rightarrow> asgi_run) \<Rightarrow> asgi_run" where
  "create_app settings http request_id policy outer routes =
     correlation_id http request_id outer (\<lambda>ctx.
       (if api_cors_allowed_origins settings \<noteq> [] then cors_layer http policy ctx else id)
         (unhandled_error http ctx (exception_layer ctx (routes ctx))))"

end
