(* ===== verification/Application.thy ===== *)
theory Application
  imports Api LogPipeline
begin

text \<open>
  The process: \<open>apps/api/main.py\<close> (what \<open>create_app\<close> builds, and its lifespan), the dependencies
  of \<open>apps/api/dependencies/infrastructure.py\<close>, the readiness route of \<open>apps/api/health.py\<close>, and
  the entry point \<open>apps/api/asgi.py\<close>. The order of the layers is in \<open>Api\<close>.

  FastAPI decides when the generator of a dependency is resumed: with the scope \<open>function\<close>, when
  the endpoint has ended and before the response is sent. That is how \<open>request_trace\<close> orders
  the events of a transaction and the messages.
\<close>

section \<open>What \<open>create_app\<close> builds\<close>

definition APP_TITLE :: pystr where
  "APP_TITLE = lit ''AI Voice Agent Platform API''"

definition APP_VERSION :: pystr where
  "APP_VERSION = lit ''0.1.0''"

record cors_options =
  cp_allow_origins :: "pystr list"
  cp_allow_credentials :: bool
  cp_allow_methods :: "pystr list"
  cp_allow_headers :: "pystr list"
  cp_expose_headers :: "pystr list"

text \<open>A middleware, as it was added.\<close>

datatype layer = UnhandledErrorMiddleware | ApiCorsMiddleware cors_options | CorrelationIdMiddleware

record fastapi_app =
  ap_title :: pystr
  ap_version :: pystr
  ap_debug :: bool
  ap_docs_url :: "pystr option"
  ap_redoc_url :: "pystr option"
  ap_openapi_url :: "pystr option"
  ap_settings :: api_settings
  ap_runtime :: runtime
  ap_middleware :: "layer list"   \<comment> \<open>innermost first\<close>

fun environment_name :: "environment \<Rightarrow> pystr" where
  "environment_name Local = lit ''local''"
| "environment_name Test = lit ''test''"
| "environment_name Staging = lit ''staging''"
| "environment_name Production = lit ''production''"

fun log_level_name :: "log_level \<Rightarrow> pystr" where
  "log_level_name LevelDebug = lit ''DEBUG''"
| "log_level_name LevelInfo = lit ''INFO''"
| "log_level_name LevelWarning = lit ''WARNING''"
| "log_level_name LevelError = lit ''ERROR''"
| "log_level_name LevelCritical = lit ''CRITICAL''"

definition cors_options_of :: "api_settings \<Rightarrow> cors_options" where
  "cors_options_of settings =
     \<lparr>cp_allow_origins = api_cors_allowed_origins settings,
      cp_allow_credentials = False,
      cp_allow_methods = map lit [''GET'', ''POST'', ''PUT'', ''PATCH'', ''DELETE''],
      cp_allow_headers = map lit [''Authorization'', ''Content-Type'', ''Idempotency-Key'', ''If-Match''],
      cp_expose_headers = [REQUEST_ID_HEADER]\<rparr>"

definition app_object :: "api_settings \<Rightarrow> runtime \<Rightarrow> fastapi_app" where
  "app_object settings runtime =
     \<lparr>ap_title = APP_TITLE, ap_version = APP_VERSION, ap_debug = False,
      ap_docs_url = (if api_docs_enabled settings then Some (lit ''/docs'') else None),
      ap_redoc_url = None,
      ap_openapi_url = (if api_docs_enabled settings then Some (lit ''/openapi.json'') else None),
      ap_settings = settings, ap_runtime = runtime,
      ap_middleware = [UnhandledErrorMiddleware]
        @ (if api_cors_allowed_origins settings \<noteq> [] then [ApiCorsMiddleware (cors_options_of settings)] else [])
        @ [CorrelationIdMiddleware]\<rparr>"

text \<open>Building the application installs the logging pipeline; it opens nothing.\<close>

definition build_app :: "pyrt \<Rightarrow> nat \<Rightarrow> logging_state \<Rightarrow> api_settings \<Rightarrow> logging_state \<times> fastapi_app" where
  "build_app R handler logging settings =
     (configure_logging R (VStr True (as_service_name settings)) (VStr True (environment_name (as_environment settings)))
        (log_level_name (as_log_level settings)) handler logging,
      app_object settings new_runtime)"

text \<open>\<open>asgi.application\<close>: the settings are read first, so that nothing is built from invalid ones.\<close>

definition application ::
  "pyrt \<Rightarrow> nat \<Rightarrow> logging_state \<Rightarrow> (pystr \<Rightarrow> pystr option) \<Rightarrow> (pystr option \<Rightarrow> validation_error list + api_settings)
    \<Rightarrow> platform_error + logging_state \<times> fastapi_app" where
  "application R handler logging environ settings_cls =
     (case load_settings environ settings_cls of
        Inl e \<Rightarrow> Inl e
      | Inr settings \<Rightarrow> Inr (build_app R handler logging settings))"

section \<open>The lifespan\<close>

text \<open>
  Where the lifespan is: before startup, in \<open>await runtime.start()\<close>, in its release after a
  failure, at \<open>yield\<close>, in \<open>await runtime.stop()\<close>, and its two ends.
\<close>

datatype lifespan_pc = BeforeStartup | Startup | StartupFailing | Yielded | Shutdown | Finished | StartupFailed

definition release_label :: "label \<Rightarrow> bool" where
  "release_label l \<longleftrightarrow> (case l of TaskRuns \<Rightarrow> True | RedisReleaseEnds _ \<Rightarrow> True | DatabaseReleaseEnds _ \<Rightarrow> True
     | TaskCancelledAt \<Rightarrow> True | _ \<Rightarrow> False)"

text \<open>
  The server leaves \<open>yield\<close> when it stops, with or without an exception; either way the
  \<open>finally\<close> stops the runtime and waits for the release.
\<close>

inductive lifespan :: "lifespan_pc \<times> runtime \<Rightarrow> lifespan_pc \<times> runtime \<Rightarrow> bool" where
  enter: "step s (label.Start ok) t \<Longrightarrow> lifespan (BeforeStartup, s) (if ok then Startup else StartupFailing, t)"
| verified: "step s (DatabaseVerified ok) t \<Longrightarrow> lifespan (Startup, s) (if ok then Startup else StartupFailing, t)"
| serve: "step s RedisVerified t \<Longrightarrow> lifespan (Startup, s) (Yielded, t)"
| fail: "step s StartFails t \<Longrightarrow> lifespan (Startup, s) (StartupFailing, t)"
| leave: "step s Stop t \<Longrightarrow> lifespan (Yielded, s) (Shutdown, t)"
| release: "pc = StartupFailing \<or> pc = Shutdown \<Longrightarrow> release_label l \<Longrightarrow> step s l t \<Longrightarrow> lifespan (pc, s) (pc, t)"
| failed: "\<not> task_running s \<Longrightarrow> lifespan (StartupFailing, s) (StartupFailed, s)"
| finished: "\<not> task_running s \<Longrightarrow> lifespan (Shutdown, s) (Finished, s)"

inductive process :: "lifespan_pc \<times> runtime \<Rightarrow> bool" where
  built: "process (BeforeStartup, new_runtime)"
| runs: "process p \<Longrightarrow> lifespan p q \<Longrightarrow> process q"

section \<open>Dependencies\<close>

definition get_api_settings :: "fastapi_app \<Rightarrow> api_settings" where
  "get_api_settings app = ap_settings app"

definition get_runtime :: "fastapi_app \<Rightarrow> runtime" where
  "get_runtime app = ap_runtime app"

text \<open>An exception of a library, as the handlers see it; \<open>heap\<close> says which kind it is.\<close>

fun as_app_exception :: "(nat \<Rightarrow> app_exception) \<Rightarrow> raised \<Rightarrow> app_exception" where
  "as_app_exception heap (Heap i) = heap i"
| "as_app_exception heap (New e _) = PlatformExc e"

definition get_db_session ::
  "excs \<Rightarrow> (nat \<Rightarrow> app_exception) \<Rightarrow> runtime \<Rightarrow> scope \<Rightarrow> raised + 'a \<Rightarrow> (app_exception + 'a) \<times> tx_event list" where
  "get_db_session E heap s t endpoint =
     (case the_database s of
        None \<Rightarrow> (Inl (OtherExc (lit ''Infrastructure is not running.'')), [])
      | Some db \<Rightarrow>
          (case transaction E db t endpoint of
             (Inl x, evs) \<Rightarrow> (Inl (as_app_exception heap x), evs)
           | (Inr v, evs) \<Rightarrow> (Inr v, evs)))"

section \<open>Routes\<close>

text \<open>A route that ends with a response, or with an exception before it has sent anything.\<close>

definition route_run :: "app_exception + response \<Rightarrow> asgi_run" where
  "route_run outcome = (case outcome of Inl e \<Rightarrow> ([], Some e) | Inr r \<Rightarrow> (response_messages r, None))"

datatype request_event = Tx tx_event | Send message

definition reaches_routes :: "api_settings \<Rightarrow> cors_policy \<Rightarrow> bool" where
  "reaches_routes settings policy \<longleftrightarrow> api_cors_allowed_origins settings = [] \<or> co_preflight policy = None"

text \<open>A request to a route that depends on \<open>DbSessionDependency\<close>.\<close>

definition request_trace ::
  "api_settings \<Rightarrow> pystr \<Rightarrow> cors_policy \<Rightarrow> (nat \<Rightarrow> app_exception) \<Rightarrow> excs \<Rightarrow> runtime \<Rightarrow> scope \<Rightarrow> raised + response
    \<Rightarrow> request_event list \<times> app_exception option" where
  "request_trace settings i policy heap E s t endpoint =
     (case get_db_session E heap s t endpoint of
        (outcome, evs) \<Rightarrow>
          (case create_app settings True i policy None (\<lambda>_. route_run outcome) of
             (messages, e) \<Rightarrow> ((if reaches_routes settings policy then map Tx evs else []) @ map Send messages, e)))"

text \<open>\<open>GET /health/ready\<close>\<close>

definition readiness_route ::
  "excs \<Rightarrow> (nat \<Rightarrow> app_exception) \<Rightarrow> runtime \<Rightarrow> nat option \<Rightarrow> (redis \<Rightarrow> redis) \<Rightarrow> nat + bool \<Rightarrow> asgi_run" where
  "readiness_route E heap s query meanwhile reply =
     route_run (case check_readiness E s query meanwhile reply of
        Inl x \<Rightarrow> Inl (as_app_exception heap x)
      | Inr report \<Rightarrow> Inr (readiness_response report))"

end
