(* ===== verification/SettingsFacts.thy ===== *)
theory SettingsFacts
  imports AppSettings
begin

text \<open>What the accepted settings guarantee, and what the driver is told.\<close>

definition is_origin_char :: "pychar \<Rightarrow> bool" where
  "is_origin_char c \<longleftrightarrow> is_alower c \<or> is_adigit c \<or> c \<in> {c_colon, c_slash, c_dot, c_dash, c_lbrack, c_rbrack}"

lemma origin_chars: "is_valid_origin origin \<Longrightarrow> list_all is_origin_char origin"
proof -
  assume "is_valid_origin origin"
  then have "rx_fullmatches ORIGIN origin" by (auto simp: is_valid_origin_def rx_fullmatches_def split: option.splits)
  then show ?thesis
    by (rule rx_fullmatches_only)
      (auto simp: ORIGIN_def rx_origin_label_def rx_ch_def lit_eval is_origin_edge_def is_bracketed_char_def is_origin_char_def)
qed

text \<open>The identity an accepted URL names.\<close>

lemma accepted_url:
  assumes "database_url_problem L raw = None"
  obtains u h d n where "sa_make_url L raw = Some u" "u_driver u = DATABASE_DRIVER"
    "u_host u = Some h" "h \<noteq> []" "is_single_host h" "u_database u = Some d" "d \<noteq> []" "u_username u = Some n" "n \<noteq> []"
    "n \<notin> set FORBIDDEN_RUNTIME_DATABASE_USERS" "\<And>p. u_port u = Some p \<Longrightarrow> 1 \<le> p \<and> p \<le> 65535"
    "fst ` set (u_query u) \<subseteq> {lit ''ssl''}"
proof -
  obtain u where u: "sa_make_url L raw = Some u" using assms by (auto simp: database_url_problem_def split: option.splits)
  obtain h d n where parts: "u_host u = Some h" "h \<noteq> []" "u_database u = Some d" "d \<noteq> []" "u_username u = Some n" "n \<noteq> []"
    using assms u by (auto simp: database_url_problem_def is_empty_def split: if_splits)
  have "fst ` set (u_query u) \<subseteq> {lit ''ssl''}"
    using assms u by (auto simp: database_url_problem_def PERMITTED_DATABASE_URL_QUERY_PARAMETERS_def list_all_iff split: if_splits)
  moreover have "1 \<le> p \<and> p \<le> 65535" if "u_port u = Some p" for p
    using assms u that by (auto simp: database_url_problem_def split: if_splits)
  moreover have "u_driver u = DATABASE_DRIVER" "is_single_host h" "n \<notin> set FORBIDDEN_RUNTIME_DATABASE_USERS"
    using assms u parts by (auto simp: database_url_problem_def split: if_splits)
  ultimately show ?thesis using that u parts by blast
qed

text \<open>The identity the driver is told, and the one that was validated.\<close>

definition told_to_driver :: "sqlalchemy \<Rightarrow> database_settings \<Rightarrow> pystr \<Rightarrow> database_target \<Rightarrow> bool" where
  "told_to_driver L s name t \<longleftrightarrow>
     (\<exists>a. create_database_engine L s name = Some a
        \<and> map_of (ea_connect_args a) (lit ''host'') = Some (ATarget (dt_host t))
        \<and> map_of (ea_connect_args a) (lit ''port'') = Some (AInt (dt_port t))
        \<and> map_of (ea_connect_args a) (lit ''database'') = Some (ATarget (dt_database t))
        \<and> map_of (ea_connect_args a) (lit ''user'') = Some (ATarget (dt_user t))
        \<and> map_of (ea_connect_args a) (lit ''statement_cache_size'') = Some (AInt 0))"

lemma engine_identity:
  assumes "sa_make_url L (ds_url s) = Some u" "target_of u = Some t"
  shows "told_to_driver L s name t"
  using assms
  by (simp add: told_to_driver_def create_database_engine_def database_target_def lit_inject del: lit_Cons)

text \<open>
  C24: Settings the API accepts, in whatever way they were read: the URL names a host that the
  code's check accepts, which is a text of letters, digits, underscores, hyphens, dots and
  colons, but for the zone an IPv6 address may end with (any text without percent sign and
  slash, which may name further hosts), and a role that is not forbidden; it carries no
  parameter but \<open>ssl\<close>, and the driver is told exactly that host, port, database and role. Under \<open>test\<close> the database has the test prefix.
  Under \<open>staging\<close> and \<open>production\<close> both connections use TLS, logs are JSON and not at debug
  level, and every origin is an https one. Origins have no wildcard, credentials or parameters.
\<close>

theorem api_settings_enforced:
  assumes "api_settings_ok L R s"
  shows "\<exists>u t. sa_make_url L (ds_url (as_database s)) = Some u \<and> database_target L (as_database s) = Some t
    \<and> is_single_host (dt_host t) \<and> is_host_text (dt_host t) \<and> 1 \<le> dt_port t \<and> dt_port t \<le> 65535
    \<and> dt_user t \<notin> set FORBIDDEN_RUNTIME_DATABASE_USERS \<and> fst ` set (u_query u) \<subseteq> {lit ''ssl''}
    \<and> told_to_driver L (as_database s) (as_service_name s) t
    \<and> (as_environment s = Test \<longrightarrow> starts_at (dt_database t) TEST_DATABASE_NAME_PREFIX 0)
    \<and> (as_environment s \<in> {Staging, Production} \<longrightarrow>
         (\<exists>v\<in>set DATABASE_TLS_MODES. map_of (u_query u) (lit ''ssl'') = Some (One v)) \<and> uses_tls R (as_redis s)
         \<and> as_log_format s = FormatJson \<and> as_log_level s \<noteq> LevelDebug
         \<and> (\<forall>origin\<in>set (api_cors_allowed_origins s). starts_at origin (lit ''https://'') 0))
    \<and> list_all (list_all is_origin_char) (api_cors_allowed_origins s)"
proof -
  let ?b = "app_settings.truncate s"
  have same: "as_database ?b = as_database s" "as_environment ?b = as_environment s" "as_redis ?b = as_redis s"
    "as_log_format ?b = as_log_format s" "as_log_level ?b = as_log_level s"
    by (cases s, simp add: app_settings.truncate_def)+
  from assms have ok: "app_settings_ok L R ?b" "api_environment_problem s = None"
    and origins: "list_all is_valid_origin (api_cors_allowed_origins s)" by (simp_all add: api_settings_ok_def)
  then have "database_url_problem L (ds_url (as_database s)) = None" and rules: "environment_problem L R ?b = None"
    by (simp_all add: app_settings_ok_def database_settings_ok_def same)
  from accepted_url [OF this(1)] obtain u h d n where u: "sa_make_url L (ds_url (as_database s)) = Some u"
    "u_host u = Some h" "is_single_host h" "u_database u = Some d" "u_username u = Some n"
    "n \<notin> set FORBIDDEN_RUNTIME_DATABASE_USERS" "\<And>p. u_port u = Some p \<Longrightarrow> 1 \<le> p \<and> p \<le> 65535"
    "fst ` set (u_query u) \<subseteq> {lit ''ssl''}" by metis
  then obtain t where t: "target_of u = Some t" "dt_host t = h" "dt_database t = d" "dt_user t = n"
    "1 \<le> dt_port t" "dt_port t \<le> 65535"
    by (force simp: target_of_def DEFAULT_POSTGRES_PORT_def split: option.splits)
  have target: "database_target L (as_database s) = Some t" using u(1) t(1) by (simp add: database_target_def)
  have test: "as_environment s = Test \<longrightarrow> starts_at (dt_database t) TEST_DATABASE_NAME_PREFIX 0"
    using rules target by (simp add: environment_problem_def same Let_def split: if_splits)
  have live: "(\<exists>v\<in>set DATABASE_TLS_MODES. map_of (u_query u) (lit ''ssl'') = Some (One v)) \<and> uses_tls R (as_redis s)
      \<and> as_log_format s = FormatJson \<and> as_log_level s \<noteq> LevelDebug"
    if "as_environment s \<in> {Staging, Production}"
    using rules u(1) that
    by (auto simp: environment_problem_def same Let_def is_production_like_def split: if_splits option.splits query_value.splits)
  have https: "\<forall>origin\<in>set (api_cors_allowed_origins s). starts_at origin (lit ''https://'') 0"
    if "as_environment s \<in> {Staging, Production}"
    using ok(2) that by (auto simp: api_environment_problem_def list_all_iff split: if_splits)
  have chars: "list_all (list_all is_origin_char) (api_cors_allowed_origins s)"
    using origins by (auto simp: list_all_iff [of _ "api_cors_allowed_origins s"] intro: origin_chars)
  show ?thesis
    using u(1,3,6,8) is_single_host_text [OF u(3)] t target test live https chars engine_identity [OF u(1) t(1)]
    by (intro exI [of _ u] exI [of _ t]) simp
qed

section \<open>Example\<close>

definition plain_url :: url where
  "plain_url = \<lparr>u_driver = lit ''postgresql+asyncpg'', u_username = Some (lit ''app_api''), u_password = Some (lit ''pw''),
     u_host = Some (lit ''db''), u_port = None, u_database = Some (lit ''voice''),
     u_query = [(lit ''ssl'', One (lit ''require''))]\<rparr>"

definition plain_library :: sqlalchemy where
  "plain_library = \<lparr>sa_make_url = (\<lambda>_. Some plain_url), sa_render = (\<lambda>_. lit ''url'')\<rparr>"

definition plain_settings :: api_settings where
  "plain_settings = \<lparr>as_environment = Production, as_service_name = lit ''voice-agent'',
     as_database = default_database_settings (lit ''url''),
     as_redis = \<lparr>rs_url = lit ''rediss://h'', rs_max_connections = 50, rs_socket_timeout_seconds = 5,
       rs_socket_connect_timeout_seconds = 5, rs_health_check_interval_seconds = 30\<rparr>,
     as_log_level = LevelInfo, as_log_format = FormatJson,
     api_cors_allowed_origins = [lit ''https://app.example.com''], api_docs_enabled = False,
     api_readiness_timeout_seconds = 2\<rparr>"

lemma plain_settings_ok: "api_settings_ok plain_library ascii_runtime plain_settings"
proof -
  have "database_url_problem plain_library (lit ''url'') = None" by code_simp
  moreover have "redis_url_problem ascii_runtime (lit ''rediss://h'') = None" by code_simp
  moreover have "is_valid_origin (lit ''https://app.example.com'')" by (rule origin_examples)
  moreover have "service_name_ok (lit ''voice-agent'')" by (simp add: service_name_ok_def lit_eval)
  moreover have "uses_tls ascii_runtime (as_redis plain_settings)" by code_simp
  moreover have "starts_at (lit ''https://app.example.com'') (lit ''https://'') 0" by code_simp
  moreover have "lit ''require'' \<in> set DATABASE_TLS_MODES" by code_simp
  ultimately show ?thesis
    by (simp add: api_settings_ok_def app_settings_ok_def app_settings.truncate_def plain_settings_def
        database_settings_ok_def default_database_settings_def redis_settings_ok_def environment_problem_def
        api_environment_problem_def is_production_like_def plain_library_def plain_url_def)
qed

theorem api_settings_enforced_witness:
  "\<exists>t. told_to_driver plain_library (as_database plain_settings) (as_service_name plain_settings) t \<and> is_single_host (dt_host t)"
  using api_settings_enforced [OF plain_settings_ok] by blast

end
