(* ===== verification/ApiFacts.thy ===== *)
theory ApiFacts
  imports Api SettingsFacts
begin

text \<open>What a client sees: one envelope per failure, its request ID, and nothing of the exception.\<close>

section \<open>The catalog admits every pairing in use\<close>

lemma contract_for_default: "contract_for code None = Some (hd (ec_statuses (ERROR_CATALOG code)), ERROR_CATALOG code)"
  by (cases code) (simp_all add: contract_for_def default_status_def)

lemma contract_for_SomeD:
  "contract_for code status = Some (s, c) \<Longrightarrow> s \<in> set (ec_statuses (ERROR_CATALOG code)) \<and> c = ERROR_CATALOG code"
  by (auto simp: contract_for_def Let_def split: if_splits option.splits)

lemma http_codes_cataloged: "map_of HTTP_STATUS_CODES status = Some code \<Longrightarrow> contract_for code (Some status) = Some (status, ERROR_CATALOG code)"
  by (auto simp: HTTP_STATUS_CODES_def contract_for_def split: if_splits)

lemma validation_cataloged: "s \<in> {400, 422} \<Longrightarrow> contract_for VALIDATION_ERROR (Some s) = Some (s, ERROR_CATALOG VALIDATION_ERROR)"
  by (auto simp: contract_for_def)

text \<open>The envelope of a code, and the code and status of an exception.\<close>

definition envelope_for :: "pystr \<Rightarrow> api_error_code \<Rightarrow> envelope" where
  "envelope_for i code = \<lparr>en_code = code, en_message = ec_message (ERROR_CATALOG code), en_request_id = i,
     en_retryable = ec_retryable (ERROR_CATALOG code)\<rparr>"

fun answer_to :: "app_exception \<Rightarrow> int \<times> api_error_code" where
  "answer_to (PlatformExc p) =
     (if pe_class p \<in> {DatabaseError, CacheError} then (503, DEPENDENCY_UNAVAILABLE) else (500, INTERNAL_ERROR))"
| "answer_to (HttpExc status _) =
     (case map_of HTTP_STATUS_CODES status of None \<Rightarrow> (500, INTERNAL_ERROR) | Some code \<Rightarrow> (status, code))"
| "answer_to (ValidationExc types) = (if lit ''json_invalid'' \<in> set types then 400 else 422, VALIDATION_ERROR)"
| "answer_to (OtherExc _) = (500, INTERNAL_ERROR)"
| "answer_to Cancelled = (500, INTERNAL_ERROR)"

lemma dependency_classes: "c \<le> DatabaseError \<or> c \<le> CacheError \<longleftrightarrow> c \<in> {DatabaseError, CacheError}"
  by (cases c) (simp_all add: less_eq_platform_class_def)

lemma error_response_default:
  "error_response (Some i) code None = Some \<lparr>re_status = hd (ec_statuses (ERROR_CATALOG code)), re_headers = json_headers,
     re_body = ErrorBody (envelope_for i code)\<rparr>"
  by (simp add: error_response_def contract_for_default envelope_for_def)

lemma handler_answers:
  "registered_handler (Some i) e = Some r \<Longrightarrow>
     \<exists>h. r = Some \<lparr>re_status = fst (answer_to e), re_headers = h, re_body = ErrorBody (envelope_for i (snd (answer_to e)))\<rparr>"
  by (cases e)
    (auto simp: registered_handler_def handle_platform_error_def handle_http_exception_def error_response_default
      handle_request_validation_error_def dependency_classes error_response_def http_codes_cataloged validation_cataloged
      contract_for_default
      envelope_for_def split: option.split)

section \<open>The answer to a failure\<close>

text \<open>The run of the routes, handlers and error capture, when nothing was sent before the exception.\<close>

lemma captured:
  assumes "e \<noteq> Cancelled"
  shows "\<exists>h. unhandled_error True (Some i) (exception_layer (Some i) ([], Some e))
    = ([Start (fst (answer_to e)) h, Chunk (ErrorBody (envelope_for i (snd (answer_to e))))], None)"
proof (cases "registered_handler (Some i) e")
  case None
  with assms have "answer_to e = (500, INTERNAL_ERROR)"
    by (cases e) (auto simp: registered_handler_def)
  with None assms show ?thesis
    by (simp add: exception_layer_def unhandled_error_def started_def answer_with_def error_response_default
        response_messages_def)
next
  case (Some r)
  with handler_answers [OF Some] show ?thesis
    by (auto simp: exception_layer_def unhandled_error_def started_def answer_with_def response_messages_def)
qed

text \<open>
  C15: A request whose route fails before it has answered gets exactly one complete response:
  the status and the code the exception maps to, the message and the retry flag the catalog has
  for that code, and the request ID of this request, in the envelope and in the header, with or
  without the CORS layer. Only a cancellation passes.
\<close>

theorem failure_answered:
  assumes "routes (Some i) = ([], Some e)" "e \<noteq> Cancelled" "co_preflight policy = None"
  shows "\<exists>h. create_app settings True i policy outer routes
      = ([Start (fst (answer_to e)) h, Chunk (ErrorBody (envelope_for i (snd (answer_to e))))], None)
    \<and> h REQUEST_ID_HEADER = Some i \<and> fst (answer_to e) \<in> set (ec_statuses (ERROR_CATALOG (snd (answer_to e))))"
proof -
  obtain h where "unhandled_error True (Some i) (exception_layer (Some i) (routes (Some i)))
      = ([Start (fst (answer_to e)) h, Chunk (ErrorBody (envelope_for i (snd (answer_to e))))], None)"
    using captured [OF assms(2)] assms(1) by auto
  moreover have "fst (answer_to e) \<in> set (ec_statuses (ERROR_CATALOG (snd (answer_to e))))"
    by (cases e) (auto simp: HTTP_STATUS_CODES_def split: option.split)
  ultimately show ?thesis
    using assms(3) by (auto simp: create_app_def correlation_id_def cors_layer_def)
qed

section \<open>Every response is correlated\<close>

definition correlated :: "pystr \<Rightarrow> message \<Rightarrow> bool" where
  "correlated i m \<longleftrightarrow> (case m of
      Start _ h \<Rightarrow> h REQUEST_ID_HEADER = Some i
    | Chunk (ErrorBody en) \<Rightarrow> en = envelope_for i (en_code en)
    | Chunk _ \<Rightarrow> True)"

text \<open>What the routes and the CORS policy send themselves is no envelope.\<close>

fun no_envelope :: "message \<Rightarrow> bool" where
  "no_envelope (Start _ _) = True"
| "no_envelope (Chunk (ErrorBody _)) = False"
| "no_envelope (Chunk _) = True"

text \<open>Up to the header, which the outermost layer adds.\<close>

fun correlated_body :: "pystr \<Rightarrow> message \<Rightarrow> bool" where
  "correlated_body i (Start _ _) = True"
| "correlated_body i (Chunk b) = correlated i (Chunk b)"

lemma no_envelope_correlated: "no_envelope m \<Longrightarrow> correlated_body i m"
  by (cases m rule: no_envelope.cases) (simp_all add: correlated_def)

lemma error_response_correlated:
  "error_response (Some i) code status = Some r \<Longrightarrow> re_body r = ErrorBody (envelope_for i code)"
  by (auto simp: error_response_def envelope_for_def dest: contract_for_SomeD)

lemma envelope_correlated: "correlated i (Chunk (ErrorBody (envelope_for i code)))"
  by (simp add: correlated_def envelope_for_def)

lemma answer_with_correlated:
  assumes "list_all (correlated_body i) ms" "\<And>r. resp = Some r \<Longrightarrow> correlated i (Chunk (re_body r))"
  shows "list_all (correlated_body i) (fst (answer_with ms resp))"
  using assms by (auto simp: answer_with_def response_messages_def split: option.split)

lemma layers_correlated:
  assumes "list_all (correlated_body i) (fst inner)"
  shows "list_all (correlated_body i) (fst (exception_layer (Some i) inner))"
    and "list_all (correlated_body i) (fst (unhandled_error True (Some i) inner))"
  using assms
  by (auto simp: exception_layer_def unhandled_error_def error_response_default envelope_correlated
      dest!: handler_answers intro!: answer_with_correlated split: prod.split option.split)

text \<open>
  C16: Every response to a request carries its request ID in the header, whatever the route, a
  handler, or the CORS policy put there, and every error envelope names that ID and has the
  message and the retry flag of its code. A route that fails half-way is included.
\<close>

theorem responses_correlated:
  assumes "list_all no_envelope (fst (routes (Some i)))"
    and "\<And>r. co_preflight policy = Some r \<Longrightarrow> no_envelope (Chunk (re_body r))"
  shows "list_all (correlated i) (fst (create_app settings True i policy outer routes))"
proof -
  have mapped: "list_all (correlated i) (map (with_request_id i) ms)" if "list_all (correlated_body i) ms" for ms
  proof -
    have "correlated i (with_request_id i m)" if "correlated_body i m" for m
      using that by (cases m) (auto simp: correlated_def)
    with that show ?thesis by (auto simp: list_all_iff)
  qed
  have "list_all (correlated_body i) (fst (routes (Some i)))"
    using assms(1) no_envelope_correlated by (auto simp: list_all_iff)
  then have inner: "list_all (correlated_body i)
      (fst (unhandled_error True (Some i) (exception_layer (Some i) (routes (Some i)))))"
    by (intro layers_correlated)
  moreover have "list_all (correlated_body i) (fst (cors_layer True policy (Some i) run))"
    if "list_all (correlated_body i) (fst run)" for run
  proof (cases "co_preflight policy")
    case None
    have "correlated_body i (add_headers f m)" if "correlated_body i m" for f m
      using that by (cases m) auto
    with None that show ?thesis by (auto simp: cors_layer_def list_all_iff)
  next
    case (Some decision)
    have "correlated i (Chunk (re_body r))" if "preflight_response (Some i) decision = Some r" for r
      using that assms(2) [OF Some] no_envelope_correlated [of "Chunk (re_body decision)" i]
      by (auto simp: preflight_response_def envelope_correlated dest!: error_response_correlated split: if_splits)
    with Some show ?thesis by (auto simp: cors_layer_def intro!: answer_with_correlated)
  qed
  ultimately have "list_all (correlated_body i) (fst ((if api_cors_allowed_origins settings \<noteq> []
      then cors_layer True policy (Some i) else id) (unhandled_error True (Some i) (exception_layer (Some i) (routes (Some i))))))"
    by simp
  from mapped [OF this] show ?thesis
    by (simp add: create_app_def correlation_id_def case_prod_unfold)
qed

section \<open>Nothing of the exception reaches the client\<close>

text \<open>Exceptions of the same kind may differ in every text and every diagnostic field.\<close>

fun same_kind :: "app_exception \<Rightarrow> app_exception \<Rightarrow> bool" where
  "same_kind (PlatformExc p) (PlatformExc q) \<longleftrightarrow> pe_class p = pe_class q"
| "same_kind (OtherExc _) (OtherExc _) \<longleftrightarrow> True"
| "same_kind e e' \<longleftrightarrow> e = e'"

lemma same_kind_handled:
  "same_kind e e' \<Longrightarrow> registered_handler ctx e = registered_handler ctx e' \<and> (e = Cancelled \<longleftrightarrow> e' = Cancelled)"
  by (cases e; cases e') (auto simp: registered_handler_def handle_platform_error_def)

definition same_failure :: "asgi_run \<Rightarrow> asgi_run \<Rightarrow> bool" where
  "same_failure r r' \<longleftrightarrow> fst r = fst r' \<and> rel_option same_kind (snd r) (snd r')"

lemma same_kind_refl: "same_kind e e"
  by (cases e) auto

lemma exception_layer_same: "same_failure r r' \<Longrightarrow> same_failure (exception_layer ctx r) (exception_layer ctx r')"
  by (cases r; cases r'; cases "snd r"; cases "snd r'")
    (auto simp: same_failure_def exception_layer_def option.rel_refl same_kind_refl dest!: same_kind_handled [of _ _ ctx]
      split: option.split)

lemma unhandled_error_same: "same_failure r r' \<Longrightarrow> same_failure (unhandled_error http ctx r) (unhandled_error http ctx r')"
  by (cases r; cases r'; cases "snd r"; cases "snd r'")
    (auto simp: same_failure_def unhandled_error_def option.rel_refl same_kind_refl dest: same_kind_handled [of _ _ ctx])

text \<open>
  C17: What a client receives does not depend on the texts of an exception: two runs of the
  routes that sent the same and end with exceptions of the same kind give the same messages,
  whatever their messages and diagnostic contexts are.
\<close>

theorem exceptions_hidden:
  assumes "\<And>ctx. same_failure (routes ctx) (routes' ctx)"
  shows "fst (create_app settings http i policy outer routes) = fst (create_app settings http i policy outer routes')"
proof -
  have cors: "same_failure r r' \<Longrightarrow> fst (cors_layer http policy ctx r) = fst (cors_layer http policy ctx r')" for r r' ctx
    by (auto simp: same_failure_def cors_layer_def split: option.split)
  have "same_failure (unhandled_error http ctx (exception_layer ctx (routes ctx)))
      (unhandled_error http ctx (exception_layer ctx (routes' ctx)))" for ctx
    by (intro unhandled_error_same exception_layer_same assms)
  note this cors [OF this]
  then show ?thesis
    by (cases http) (simp_all add: create_app_def correlation_id_def case_prod_unfold same_failure_def)
qed

section \<open>Examples\<close>

definition no_cors :: cors_policy where
  "no_cors = \<lparr>co_preflight = None, co_add = id\<rparr>"

definition failing_route :: "pystr \<Rightarrow> request_context \<Rightarrow> asgi_run" where
  "failing_route t ctx = ([], Some (PlatformExc (platform_error DatabaseError t [])))"

theorem failure_answered_witness:
  "\<exists>h. create_app plain_settings True (lit ''r1'') no_cors None (failing_route (lit ''x''))
      = ([Start 503 h, Chunk (ErrorBody (envelope_for (lit ''r1'') DEPENDENCY_UNAVAILABLE))], None)"
  using failure_answered [of "failing_route (lit ''x'')" "lit ''r1''" "PlatformExc (platform_error DatabaseError (lit ''x'') [])"
      no_cors plain_settings None]
  by (auto simp: failing_route_def no_cors_def platform_error_def)

theorem responses_correlated_witness:
  "list_all (correlated (lit ''r1'')) (fst (create_app plain_settings True (lit ''r1'') no_cors None
      (\<lambda>_. (response_messages liveness, None))))"
  by (rule responses_correlated) (simp_all add: response_messages_def liveness_def no_cors_def)

theorem exceptions_hidden_witness:
  "fst (create_app plain_settings True (lit ''r1'') no_cors None (failing_route (lit ''x'')))
    = fst (create_app plain_settings True (lit ''r1'') no_cors None (failing_route (lit ''secret'')))"
  by (rule exceptions_hidden) (simp add: same_failure_def failing_route_def platform_error_def)

end
