(* ===== verification/ApplicationFacts.thy ===== *)
theory ApplicationFacts
  imports Application ApiFacts RuntimeFacts
begin

text \<open>
  What the composition guarantees: the process serves only while both resources are usable and
  ends with nothing open that it does not own; a client sees success only after the commit; an
  outage inside a request is answered as one.
\<close>

section \<open>The lifespan\<close>

text \<open>A release that ended and left the runtime stopping has left a resource owned.\<close>

definition stopping :: "runtime \<Rightarrow> bool" where
  "stopping s \<longleftrightarrow> ir_state s = STOPPED
     \<or> (ir_state s = STOPPING \<and> (ir_task s = Some TaskDone \<longrightarrow> owned_resources s \<noteq> []))"

fun pc_ok :: "lifespan_pc \<Rightarrow> runtime \<Rightarrow> bool" where
  "pc_ok BeforeStartup s \<longleftrightarrow> s = new_runtime"
| "pc_ok Startup s \<longleftrightarrow> ir_start s \<noteq> NoStart"
| "pc_ok StartupFailing s \<longleftrightarrow> stopping s"
| "pc_ok Yielded s \<longleftrightarrow> ir_state s = READY"
| "pc_ok Shutdown s \<longleftrightarrow> stopping s"
| "pc_ok Finished s \<longleftrightarrow> stopping s \<and> \<not> task_running s"
| "pc_ok StartupFailed s \<longleftrightarrow> stopping s \<and> \<not> task_running s"

lemma stopping_finish: "ir_state s = STOPPING \<Longrightarrow> stopping (finish_release s)"
  by (simp add: stopping_def finish_release_def owned_resources_def)

lemma stopping_database: "ir_state s = STOPPING \<Longrightarrow> stopping (release_database s)"
  by (cases "ir_database s") (simp_all add: release_database_def stopping_finish, simp add: stopping_def)

lemma stopping_redis: "ir_state s = STOPPING \<Longrightarrow> stopping (release_redis s)"
  by (cases "ir_redis s") (simp_all add: release_redis_def stopping_database, simp add: stopping_def)

lemma stopping_start_failed: "ir_task s = None \<Longrightarrow> stopping (start_failed s)"
  by (simp add: stopping_def start_failed_def request_release_def task_running_def)

lemma stopping_release:
  assumes "step s l t" "release_label l" "invariant s"
  shows "stopping t"
proof -
  have state: "task_running s \<Longrightarrow> ir_state s = STOPPING" using running_stopping [OF assms(3)] by simp
  from assms(1,2) state show ?thesis
  proof (cases rule: step.cases)
    case (redis_ends r)
    with state show ?thesis
      by (cases r) (simp_all add: redis_ended_def stopping_database task_running_def)
  next
    case (database_ends r)
    with state show ?thesis
      by (cases r) (simp_all add: database_ended_def stopping_finish task_running_def)
  qed (simp_all add: release_label_def stopping_redis task_running_def, simp add: stopping_def)
qed

lemma lifespan_preserves:
  assumes "lifespan (pc, s) (pc', t)" "reachable s" "pc_ok pc s"
  shows "pc_ok pc' t"
proof -
  note inv = reachable_invariant [OF assms(2)]
  note untouched = no_task_starting [OF inv]
  from assms(1) show ?thesis
  proof (cases rule: lifespan.cases)
    case (enter ok)
    with untouched show ?thesis
      by (auto elim!: start_step simp: stopping_start_failed)
  next
    case (verified ok)
    with untouched starting [OF inv] assms(3) show ?thesis
      by (auto elim: step.cases simp: stopping_start_failed)
  next
    case serve
    then show ?thesis by (auto elim: step.cases)
  next
    case fail
    with untouched starting [OF inv] assms(3) show ?thesis
      by (auto elim: step.cases simp: stopping_start_failed)
  next
    case leave
    with assms(3) untouched show ?thesis
      by (auto simp: stop_step stop_def request_release_def task_running_def stopping_def)
  next
    case (release l)
    with stopping_release [OF _ _ inv] show ?thesis by auto
  qed (use assms(3) in auto)
qed

lemma lifespan_steps: "lifespan (pc, s) (pc', t) \<Longrightarrow> t = s \<or> (\<exists>l. step s l t)"
  by (cases rule: lifespan.cases) auto

lemma process_ok: "process p \<Longrightarrow> reachable (snd p) \<and> pc_ok (fst p) (snd p)"
proof (induction rule: process.induct)
  case built
  show ?case by (simp add: reachable.initial)
next
  case (runs p q)
  then show ?case
    using lifespan_preserves [of "fst p" "snd p" "fst q" "snd q"] lifespan_steps [of "fst p" "snd p" "fst q" "snd q"]
    by (auto intro: reachable.onward)
qed

lemma ready_resources:
  assumes "reachable s" "ir_state s = READY"
  shows "the_database s = Some new_database \<and> the_redis s = Some new_redis
    \<and> ir_database s = Some new_database \<and> ir_redis s = Some new_redis \<and> ir_database_open s \<and> ir_redis_open s"
  using reachable_invariant [OF assms(1)] assms(2)
  by (simp add: invariant_def place_ok_def flags_ok_def the_database_def the_redis_def)

text \<open>
  C11: While the process serves requests both resources are there, open and accept work, so no
  dependency of a route finds the infrastructure not running. When the lifespan has ended, after
  a failed startup as after a shutdown, no release is under way, and the runtime is either
  \<open>STOPPED\<close> with both pools closed, or it is still \<open>STOPPING\<close>, because a release failed (then that resource
  is owned) or the release task was cancelled. In between, no open pool is without an owner.
\<close>

theorem lifespan_serves:
  assumes "process (pc, s)"
  shows "(pc = Yielded \<longrightarrow> the_database s = Some new_database \<and> the_redis s = Some new_redis
       \<and> ir_database_open s \<and> ir_redis_open s)
    \<and> (pc \<in> {Finished, StartupFailed} \<longrightarrow> \<not> task_running s
       \<and> (ir_state s = STOPPED \<and> \<not> ir_database_open s \<and> \<not> ir_redis_open s
          \<or> ir_state s = STOPPING \<and> (owned_resources s \<noteq> [] \<or> ir_task s = Some TaskCancelled)))
    \<and> (ir_database_open s \<longrightarrow> lit ''postgres'' \<in> set (owned_resources s))
    \<and> (ir_redis_open s \<longrightarrow> lit ''redis'' \<in> set (owned_resources s))"
proof -
  from process_ok [OF assms] have reach: "reachable s" and pc: "pc_ok pc s" by simp_all
  note inv = reachable_invariant [OF reach]
  have "the_database s = Some new_database \<and> the_redis s = Some new_redis \<and> ir_database_open s \<and> ir_redis_open s"
    if "pc = Yielded"
    using that pc ready_resources [OF reach] by simp
  moreover have "\<not> task_running s \<and> (ir_state s = STOPPED \<and> \<not> ir_database_open s \<and> \<not> ir_redis_open s
      \<or> ir_state s = STOPPING \<and> (owned_resources s \<noteq> [] \<or> ir_task s = Some TaskCancelled))"
    if "pc \<in> {Finished, StartupFailed}"
  proof -
    from that pc have s: "stopping s" "\<not> task_running s" by auto
    show ?thesis
    proof (cases "ir_state s = STOPPED")
      case True
      with s inv show ?thesis by (simp add: invariant_def place_ok_def flags_ok_def)
    next
      case False
      with s(1) have "ir_state s = STOPPING" by (simp add: stopping_def)
      moreover from this s(2) inv have "ir_task s = Some TaskDone \<or> ir_task s = Some TaskCancelled"
        by (auto simp: invariant_def place_ok_def task_running_def split: option.splits)
      ultimately show ?thesis using s by (auto simp: stopping_def)
    qed
  qed
  moreover have "(ir_database_open s \<longrightarrow> lit ''postgres'' \<in> set (owned_resources s))
      \<and> (ir_redis_open s \<longrightarrow> lit ''redis'' \<in> set (owned_resources s))"
    using inv by (auto simp: invariant_def flags_ok_def owned_resources_def)
  ultimately show ?thesis by blast
qed

text \<open>The steps of the release task are steps of a lifespan that waits for it.\<close>

lemma task_steps_lifespan:
  "task_steps s t \<Longrightarrow> pc = StartupFailing \<or> pc = Shutdown \<Longrightarrow> lifespan\<^sup>*\<^sup>* (pc, s) (pc, t)"
proof (induction rule: task_steps.induct)
  case (some s l t u)
  have "release_label l" using some.hyps(2) by (auto simp: release_label_def)
  then have "lifespan (pc, s) (pc, t)" using lifespan.release some.hyps(1) some.prems by blast
  with some show ?case by (blast intro: converse_rtranclp_into_rtranclp)
qed simp

lemma drive_stops:
  assumes "reachable s" "ir_task s = Some Created"
  shows "ir_state (drive Released Released s) = STOPPED" "\<not> task_running (drive Released Released s)"
  using assms drive_created [of s Released Released] drive_state [of s Released Released]
    drive_done [of s Released Released]
  by (simp_all add: task_running_def)

text \<open>
  However far the process has come, it can end in order: a startup that fails now, and a
  process that stops serving now, reaches the end of its lifespan with the runtime \<open>STOPPED\<close>, by
  steps of the release alone, provided both pools can be closed.
\<close>

theorem lifespan_can_end:
  assumes "process (pc, s)" "pc = Startup \<or> pc = Yielded"
  shows "\<exists>m t. lifespan (pc, s) m \<and> lifespan\<^sup>*\<^sup>* m (if pc = Startup then StartupFailed else Finished, t)
    \<and> ir_state t = STOPPED \<and> process (if pc = Startup then StartupFailed else Finished, t)"
proof -
  let ?waits = "if pc = Startup then StartupFailing else Shutdown"
  let ?over = "if pc = Startup then StartupFailed else Finished"
  from process_ok [OF assms(1)] have reach: "reachable s" and pc: "pc_ok pc s" by simp_all
  note inv = reachable_invariant [OF reach]
  have "\<exists>t. lifespan (pc, s) (?waits, t) \<and> reachable t \<and> ir_task t = Some Created"
  proof (cases "pc = Startup")
    case True
    with pc have "step s StartFails (start_failed s)" by (simp add: step.start_fails)
    moreover have "ir_task s = None" using True pc starting [OF inv] no_task_starting [OF inv] by simp
    ultimately show ?thesis
      using True reach lifespan.fail
      by (force simp: start_failed_def request_release_def task_running_def intro: reachable.onward)
  next
    case False
    with assms(2) pc have "ir_state s = READY" by auto
    then have "stop s = Some (s\<lparr>ir_state := STOPPING, ir_task := Some Created\<rparr>)"
      using no_task_starting [OF inv] by (simp add: stop_def request_release_def task_running_def)
    then have "step s Stop (s\<lparr>ir_state := STOPPING, ir_task := Some Created\<rparr>)" by (rule step.stop)
    with False assms(2) reach lifespan.leave show ?thesis by (force intro: reachable.onward)
  qed
  then obtain t where t: "lifespan (pc, s) (?waits, t)" "reachable t" "ir_task t = Some Created" by blast
  let ?u = "drive Released Released t"
  have "lifespan\<^sup>*\<^sup>* (?waits, t) (?waits, ?u)"
    by (intro task_steps_lifespan drive_steps) simp
  moreover have "lifespan (?waits, ?u) (?over, ?u)"
    using drive_stops [OF t(2,3)] lifespan.failed lifespan.finished by simp
  ultimately have path: "lifespan\<^sup>*\<^sup>* (?waits, t) (?over, ?u)" by (rule rtranclp.rtrancl_into_rtrancl)
  have onward: "lifespan\<^sup>*\<^sup>* p q \<Longrightarrow> process p \<Longrightarrow> process q" for p q
    by (induction rule: rtranclp_induct) (auto intro: process.runs)
  have "process (?over, ?u)" using onward [OF path] process.runs [OF assms(1) t(1)] .
  with t(1) path drive_stops(1) [OF t(2,3)] show ?thesis by blast
qed

section \<open>A request with a session\<close>

lemma answer_status: "fst (answer_to e) \<in> {400, 404, 405, 422, 500, 503}"
  by (cases e) (auto simp: HTTP_STATUS_CODES_def split: option.split)

lemma application_fails:
  assumes "e \<noteq> Cancelled" "co_preflight policy = None"
  shows "\<exists>h. create_app settings True i policy None (\<lambda>_. route_run (Inl e))
    = ([message.Start (fst (answer_to e)) h, Chunk (ErrorBody (envelope_for i (snd (answer_to e))))], None)"
  using captured [OF assms(1), of i] assms(2)
  by (auto simp: create_app_def correlation_id_def cors_layer_def route_run_def)

lemma application_cancelled:
  "co_preflight policy = None \<Longrightarrow>
     create_app settings True i policy None (\<lambda>_. route_run (Inl Cancelled)) = ([], Some Cancelled)"
  by (simp add: create_app_def correlation_id_def cors_layer_def route_run_def exception_layer_def
      registered_handler_def unhandled_error_def)

lemma application_answers:
  assumes "co_preflight policy = None"
  shows "\<exists>h. create_app settings True i policy None (\<lambda>_. route_run (Inr r))
    = ([message.Start (re_status r) h, Chunk (re_body r)], None)"
  using assms
  by (auto simp: create_app_def correlation_id_def cors_layer_def route_run_def exception_layer_def
      unhandled_error_def response_messages_def)

lemma session_succeeds:
  "fst (get_db_session E heap s t endpoint) = Inr v \<longleftrightarrow>
     (\<exists>db. the_database s = Some db \<and> fst (transaction E db t endpoint) = Inr v)"
  by (auto simp: get_db_session_def split: option.split prod.split sum.split)

lemma session_events:
  "the_database s = Some db \<Longrightarrow> snd (get_db_session E heap s t endpoint) = snd (transaction E db t endpoint)"
  by (auto simp: get_db_session_def split: prod.split sum.split)

text \<open>
  C10: A client is told of success only when the transaction of its request has committed: a
  response with a status below 400 on a route with a session means that the endpoint returned
  it, the scope could be opened on the running database, and the commit succeeded; and it was
  sent after all of this. Whatever fails before, the commit included, is answered by an error.
\<close>

theorem success_sent_after_commit:
  assumes "Send (message.Start status h) \<in> set (fst (request_trace settings i policy heap E s t endpoint))"
    and "status < 400" "co_preflight policy = None"
  shows "\<exists>db r. the_database s = Some db \<and> endpoint = Inr r \<and> status = re_status r \<and> scope_opens db t \<and> tx_commit t = None
    \<and> fst (request_trace settings i policy heap E s t endpoint)
        = map Tx ([Begin, Acquire] @ map Initialize [0 ..< length (tx_initializers t)] @ [Body, Commit, Close])
          @ [Send (message.Start status h), Send (Chunk (re_body r))]"
proof -
  let ?session = "get_db_session E heap s t endpoint"
  show ?thesis
  proof (cases "fst ?session")
    case (Inr r)
    then obtain db where db: "the_database s = Some db" "fst (transaction E db t endpoint) = Inr r"
      by (auto simp: session_succeeds)
    note effects = transaction_effects [of E db t endpoint r]
    obtain h' where "create_app settings True i policy None (\<lambda>_. route_run (Inr r))
        = ([message.Start (re_status r) h', Chunk (re_body r)], None)"
      using application_answers [OF assms(3)] by blast
    with Inr assms(3) have "fst (request_trace settings i policy heap E s t endpoint)
        = map Tx (snd (transaction E db t endpoint)) @ [Send (message.Start (re_status r) h'), Send (Chunk (re_body r))]"
      using session_events [OF db(1), of E heap t endpoint]
      by (cases ?session) (auto simp: request_trace_def reaches_routes_def)
    with assms(1) db effects show ?thesis by auto
  next
    case (Inl e)
    have False
    proof (cases "e = Cancelled")
      case True
      with Inl assms(1,3) application_cancelled [OF assms(3), of settings i] show ?thesis
        by (cases ?session) (auto simp: request_trace_def)
    next
      case False
      obtain h' where "create_app settings True i policy None (\<lambda>_. route_run (Inl e))
          = ([message.Start (fst (answer_to e)) h', Chunk (ErrorBody (envelope_for i (snd (answer_to e))))], None)"
        using application_fails [OF False assms(3)] by blast
      with Inl assms(1,2) answer_status [of e] show ?thesis
        by (cases ?session) (auto simp: request_trace_def)
    qed
    then show ?thesis ..
  qed
qed

section \<open>Outages\<close>

text \<open>What a library raised as a \<open>DatabaseError\<close> of the platform is seen as one.\<close>

definition faithful :: "excs \<Rightarrow> (nat \<Rightarrow> app_exception) \<Rightarrow> bool" where
  "faithful E heap \<longleftrightarrow> (\<forall>j. is_a (E j) (Platform DatabaseError) \<longrightarrow>
     (\<exists>p. heap j = PlatformExc p \<and> pe_class p \<le> DatabaseError))"

lemma below_database: "c \<le> DatabaseError \<longleftrightarrow> c = DatabaseError"
  by (cases c) (simp_all add: less_eq_platform_class_def)

lemma outage_normalised:
  assumes "raised_is E x PyException" "raised_unavailable E x" "faithful E heap"
  shows "\<exists>p. as_app_exception heap (normalise E x) = PlatformExc p \<and> pe_class p = DatabaseError"
proof (cases "raised_is E x (Platform DatabaseError)")
  case True
  with assms show ?thesis by (cases x) (auto simp: normalise_def faithful_def below_database)
next
  case False
  with assms(1,2) show ?thesis by (simp add: normalise_def unreachable_def platform_error_def)
qed

text \<open>
  C12: An outage inside a request of the serving process, wherever in the transaction the exception
  is raised that \<open>is_database_unavailable\<close> recognises as one (opening, connection, initializers,
  endpoint or commit), is answered by 503 with the retryable envelope of the catalog, after the events of the scope, which it does
  not outlive.
\<close>

theorem outage_answered:
  assumes "process (Yielded, s)" "fst (run_scope E t endpoint) = Inl x"
    and "raised_is E x PyException" "raised_unavailable E x" "faithful E heap" "co_preflight policy = None"
  shows "\<exists>h. request_trace settings i policy heap E s t endpoint
    = (map Tx (snd (run_scope E t endpoint))
         @ [Send (message.Start 503 h), Send (Chunk (ErrorBody (envelope_for i DEPENDENCY_UNAVAILABLE)))], None)"
proof -
  have "the_database s = Some new_database"
    using process_ok [OF assms(1)] ready_resources [of s] by simp
  then have session: "get_db_session E heap s t endpoint
      = (Inl (as_app_exception heap (normalise E x)), snd (run_scope E t endpoint))"
    using assms(2)
    by (cases "run_scope E t endpoint") (simp add: get_db_session_def transaction_def new_database_def)
  obtain p where p: "as_app_exception heap (normalise E x) = PlatformExc p" "pe_class p = DatabaseError"
    using outage_normalised [OF assms(3,4,5)] by blast
  then have "answer_to (PlatformExc p) = (503, DEPENDENCY_UNAVAILABLE)" by simp
  with application_fails [of "PlatformExc p" policy settings i] assms(6) session p(1) show ?thesis
    by (auto simp: request_trace_def reaches_routes_def)
qed

lemma ready_when_answered:
  assumes "reachable s" "ir_state s = READY" "query = None" "\<not> rc_closing (meanwhile new_redis)" "reply = Inr True"
  shows "check_readiness E s query meanwhile reply = Inr (readiness True OK OK)"
  using assms(2-5) ready_resources [OF assms(1,2)]
  by (simp add: check_readiness_def ping_def redis_ping_def new_database_def)

text \<open>
  C14: The readiness probe answers 200 exactly when the runtime is \<open>READY\<close>, PostgreSQL answered,
  and then Redis did, whose client was not closed meanwhile; the body then says so for both.
  Every other outcome, unexpected exceptions included, has another status.
\<close>

theorem readiness_answer:
  assumes "reachable s" "co_preflight policy = None"
    and "create_app settings True i policy None (\<lambda>_. readiness_route E heap s query meanwhile reply)
      = ([message.Start status h, Chunk b], None)"
  shows "(status = 200 \<longleftrightarrow> ir_state s = READY \<and> query = None \<and> \<not> rc_closing (meanwhile new_redis) \<and> reply = Inr True)
    \<and> (status = 200 \<longrightarrow> b = ReadinessBody True [(lit ''postgres'', OK), (lit ''redis'', OK)])"
proof (cases "check_readiness E s query meanwhile reply")
  case (Inl x)
  then have route: "readiness_route E heap s query meanwhile reply = route_run (Inl (as_app_exception heap x))"
    by (simp add: readiness_route_def)
  then have alive: "as_app_exception heap x \<noteq> Cancelled"
    using assms(3) application_cancelled [OF assms(2), of settings i] by auto
  then have "status \<noteq> 200"
    using assms(3) application_fails [OF alive assms(2), of settings i] answer_status [of "as_app_exception heap x"]
    by (auto simp: route)
  with Inl ready_when_answered [OF assms(1), of query meanwhile reply E] show ?thesis by auto
next
  case (Inr r)
  then have route: "readiness_route E heap s query meanwhile reply = route_run (Inr (readiness_response r))"
    by (simp add: readiness_route_def)
  have r: "r = readiness (rr_ready r) (map snd (rr_checks r) ! 0) (map snd (rr_checks r) ! 1)"
    using Inr by (auto simp: check_readiness_def readiness_def split: option.splits if_splits)
  have "status = (if rr_ready r then 200 else 503)" "b = ReadinessBody (rr_ready r) (rr_checks r)"
    using assms(3) application_answers [OF assms(2), of settings i "readiness_response r"]
    by (auto simp: route readiness_response_def)
  with check_readiness_correct [OF assms(1) Inr] r show ?thesis
    by (auto simp: readiness_def)
qed

section \<open>Examples\<close>

definition serving :: runtime where
  "serving = new_runtime\<lparr>ir_state := READY, ir_database := Some new_database, ir_database_open := True,
     ir_redis := Some new_redis, ir_redis_open := True\<rparr>"

lemma process_serving: "process (Yielded, serving)"
proof -
  let ?a = "new_runtime\<lparr>ir_state := STARTING, ir_start := VerifyingDatabase,
      ir_database := Some new_database, ir_database_open := True\<rparr>"
  let ?b = "?a\<lparr>ir_start := VerifyingRedis, ir_redis := Some new_redis, ir_redis_open := True\<rparr>"
  have "step new_runtime (label.Start True) ?a" by (rule step.start) (simp add: new_runtime_def)
  then have "process (Startup, ?a)"
    using process.runs [OF process.built] lifespan.enter [of new_runtime True ?a] by simp
  moreover have "step ?a (DatabaseVerified True) ?b" by (rule step.database_verified) simp
  ultimately have "process (Startup, ?b)" using process.runs lifespan.verified [of ?a True ?b] by simp
  moreover have "step ?b RedisVerified (?b\<lparr>ir_start := NoStart, ir_state := READY\<rparr>)"
    by (rule step.redis_verified) simp
  ultimately have "process (Yielded, ?b\<lparr>ir_start := NoStart, ir_state := READY\<rparr>)"
    using process.runs lifespan.serve by blast
  then show ?thesis by (simp add: serving_def new_runtime_def)
qed

lemma reachable_serving: "reachable serving"
  using process_ok [OF process_serving] by simp

theorem lifespan_serves_witness: "the_database serving = Some new_database \<and> ir_redis_open serving"
  using lifespan_serves [OF process_serving] by simp

theorem lifespan_can_end_witness: "\<exists>t :: runtime. process (Finished, t) \<and> ir_state t = STOPPED"
  using lifespan_can_end [OF process_serving] by auto

lemma example_session:
  "get_db_session (\<lambda>_. timeout_exc) (\<lambda>_. Cancelled) serving quiet_scope (Inr liveness)
     = (Inr liveness, [Begin, Acquire, Initialize 0, Body, Commit, Close])"
  by (simp add: get_db_session_def serving_def the_database_def transaction_def new_database_def run_scope_def
      run_block_def quiet_scope_def)

theorem success_sent_after_commit_witness:
  "\<exists>h. fst (request_trace plain_settings (lit ''r1'') no_cors (\<lambda>_. Cancelled) (\<lambda>_. timeout_exc) serving quiet_scope (Inr liveness))
     = map Tx [Begin, Acquire, Initialize 0, Body, Commit, Close] @ [Send (message.Start 200 h), Send (Chunk LivenessBody)]"
proof -
  let ?trace = "request_trace plain_settings (lit ''r1'') no_cors (\<lambda>_. Cancelled) (\<lambda>_. timeout_exc) serving quiet_scope (Inr liveness)"
  obtain h where "Send (message.Start 200 h) \<in> set (fst ?trace)"
    using application_answers [of no_cors plain_settings "lit ''r1''" liveness] example_session
    by (auto simp: request_trace_def no_cors_def liveness_def)
  from success_sent_after_commit [OF this] show ?thesis
    by (auto simp: no_cors_def quiet_scope_def liveness_def)
qed

theorem outage_answered_witness:
  "\<exists>h. fst (request_trace plain_settings (lit ''r1'') no_cors (\<lambda>_. Cancelled) (\<lambda>_. timeout_exc) serving
        (quiet_scope\<lparr>tx_commit := Some 0\<rparr>) (Inr liveness))
     = map Tx [Begin, Acquire, Initialize 0, Body, Commit, Rollback, Close]
       @ [Send (message.Start 503 h), Send (Chunk (ErrorBody (envelope_for (lit ''r1'') DEPENDENCY_UNAVAILABLE)))]"
proof -
  have scope: "run_scope (\<lambda>_. timeout_exc) (quiet_scope\<lparr>tx_commit := Some 0\<rparr>) (Inr liveness)
      = (Inl (Heap 0), [Begin, Acquire, Initialize 0, Body, Commit, Rollback, Close])"
    by (simp add: run_scope_def run_block_def quiet_scope_def)
  moreover have "raised_unavailable (\<lambda>_. timeout_exc) (Heap 0)" by code_simp
  ultimately show ?thesis
    using outage_answered [OF process_serving, of "\<lambda>_. timeout_exc" "quiet_scope\<lparr>tx_commit := Some 0\<rparr>" "Inr liveness" "Heap 0"
        "\<lambda>_. Cancelled" no_cors plain_settings "lit ''r1''"]
    by (auto simp: faithful_def is_a_def timeout_exc_def no_cors_def)
qed

theorem readiness_answer_witness:
  "\<exists>h b. create_app plain_settings True (lit ''r1'') no_cors None
      (\<lambda>_. readiness_route (\<lambda>_. timeout_exc) (\<lambda>_. Cancelled) serving None id (Inr True)) = ([message.Start 200 h, Chunk b], None)
    \<and> b = ReadinessBody True [(lit ''postgres'', OK), (lit ''redis'', OK)]"
proof -
  have "check_readiness (\<lambda>_. timeout_exc) serving None id (Inr True) = Inr (readiness True OK OK)"
    by (rule ready_when_answered [OF reachable_serving]) (simp_all add: serving_def new_redis_def)
  then obtain status h b where run: "create_app plain_settings True (lit ''r1'') no_cors None
      (\<lambda>_. readiness_route (\<lambda>_. timeout_exc) (\<lambda>_. Cancelled) serving None id (Inr True)) = ([message.Start status h, Chunk b], None)"
    using application_answers [of no_cors plain_settings "lit ''r1''" "readiness_response (readiness True OK OK)"]
    by (auto simp: readiness_route_def no_cors_def)
  from readiness_answer [OF reachable_serving _ run] show ?thesis
    using run by (auto simp: no_cors_def serving_def new_redis_def)
qed

end
