(* ===== verification/AlembicEnv.thy ===== *)
theory AlembicEnv
  imports AlembicRevisions
begin

text \<open>
  \<open>alembic/env.py\<close>: how a run of Alembic is configured, as the sequence of the calls it makes of
  Alembic and SQLAlchemy. \<open>raises\<close> says which of these calls raise, and what.
\<close>

section \<open>Calls of the libraries\<close>

text \<open>The keyword arguments of \<open>context.configure\<close>; \<open>None\<close> where one is not given.\<close>

record configure_args =
  ca_url :: "pystr option"
  ca_connection :: bool
  ca_target_metadata :: "unit option"
  ca_literal_binds :: "bool option"
  ca_paramstyle :: "pystr option"
  ca_transaction_per_migration :: "bool option"
  ca_compare_type :: "bool option"
  ca_compare_server_default :: "bool option"

datatype pool_class = NullPool

datatype env_call =
    FileConfig pystr
  | EngineFromConfig "pystr \<Rightarrow> pystr option" pystr pool_class
  | OpenConnection
  | Configure configure_args
  | BeginTransaction
  | RunMigrations
  | LeaveTransaction bool   \<comment> \<open>whether by an exception\<close>
  | CloseConnection

datatype 'e env_error = NoDatabaseUrl | Raised 'e

type_synonym 'e env_run = "'e env_error option \<times> env_call list"

text \<open>One call, and what follows when it returns.\<close>

definition call_then :: "(env_call \<Rightarrow> 'e option) \<Rightarrow> env_call \<Rightarrow> 'e env_run \<Rightarrow> 'e env_run" where
  "call_then raises c rest =
     (case raises c of
        Some e \<Rightarrow> (Some (Raised e), [c])
      | None \<Rightarrow> (fst rest, c # snd rest))"

text \<open>\<open>with context.begin_transaction(): context.run_migrations()\<close>\<close>

definition migrate :: "(env_call \<Rightarrow> 'e option) \<Rightarrow> 'e env_run" where
  "migrate raises =
     call_then raises BeginTransaction
       (case raises RunMigrations of
          Some e \<Rightarrow> (Some (Raised (case raises (LeaveTransaction True) of Some e' \<Rightarrow> e' | None \<Rightarrow> e)),
                     [RunMigrations, LeaveTransaction True])
        | None \<Rightarrow> (case raises (LeaveTransaction False) of
              Some e \<Rightarrow> (Some (Raised e), [RunMigrations, LeaveTransaction False])
            | None \<Rightarrow> (None, [RunMigrations, LeaveTransaction False])))"

section \<open>The two modes\<close>

text \<open>\<open>target_metadata = None\<close>\<close>

definition target_metadata :: "unit option" where
  "target_metadata = None"

definition run_migrations_offline :: "(pystr \<Rightarrow> pystr option) \<Rightarrow> (env_call \<Rightarrow> 'e option) \<Rightarrow> 'e env_run" where
  "run_migrations_offline environ raises =
     (case get_url environ of
        None \<Rightarrow> (Some NoDatabaseUrl, [])
      | Some url \<Rightarrow>
          call_then raises
            (Configure \<lparr>ca_url = Some url, ca_connection = False, ca_target_metadata = target_metadata,
               ca_literal_binds = Some True, ca_paramstyle = Some (lit ''named''),
               ca_transaction_per_migration = Some True, ca_compare_type = None, ca_compare_server_default = None\<rparr>)
            (migrate raises))"

definition SQLALCHEMY_PREFIX :: pystr where
  "SQLALCHEMY_PREFIX = lit ''sqlalchemy.''"

text \<open>\<open>ini\<close> is the section of \<open>alembic.ini\<close>. The connection is closed however the block ends.\<close>

definition run_migrations_online ::
  "(pystr \<Rightarrow> pystr option) \<Rightarrow> (pystr \<Rightarrow> pystr option) \<Rightarrow> (env_call \<Rightarrow> 'e option) \<Rightarrow> 'e env_run" where
  "run_migrations_online ini environ raises =
     (case get_url environ of
        None \<Rightarrow> (Some NoDatabaseUrl, [])
      | Some url \<Rightarrow>
          (let configuration = ini(lit ''sqlalchemy.url'' \<mapsto> url);
               block = call_then raises
                 (Configure \<lparr>ca_url = None, ca_connection = True, ca_target_metadata = target_metadata,
                    ca_literal_binds = None, ca_paramstyle = None, ca_transaction_per_migration = Some True,
                    ca_compare_type = Some False, ca_compare_server_default = Some False\<rparr>)
                 (migrate raises)
           in call_then raises (EngineFromConfig configuration SQLALCHEMY_PREFIX NullPool)
                (call_then raises OpenConnection (fst block, snd block @ [CloseConnection]))))"

text \<open>The module.\<close>

definition env_main ::
  "pystr option \<Rightarrow> bool \<Rightarrow> (pystr \<Rightarrow> pystr option) \<Rightarrow> (pystr \<Rightarrow> pystr option) \<Rightarrow> (env_call \<Rightarrow> 'e option) \<Rightarrow> 'e env_run" where
  "env_main config_file_name offline ini environ raises =
     (let run = (if offline then run_migrations_offline environ raises else run_migrations_online ini environ raises)
      in case config_file_name of None \<Rightarrow> run | Some name \<Rightarrow> call_then raises (FileConfig name) run)"

section \<open>Which database\<close>

lemma call_then_set: "x \<in> set (snd (call_then raises c rest)) \<Longrightarrow> x = c \<or> x \<in> set (snd rest)"
  by (auto simp: call_then_def split: option.splits)

lemma migrate_calls: "x \<in> set (snd (migrate raises)) \<Longrightarrow>
    x \<in> {BeginTransaction, RunMigrations, LeaveTransaction True, LeaveTransaction False}"
  by (auto simp: migrate_def dest!: call_then_set split: option.splits)

lemma call_then_succeeds: "fst (call_then raises c rest) = None \<longleftrightarrow> raises c = None \<and> fst rest = None"
  by (simp add: call_then_def split: option.split)

lemma migrate_succeeds:
  "fst (migrate raises) = None \<longleftrightarrow> raises BeginTransaction = None \<and> raises RunMigrations = None
     \<and> raises (LeaveTransaction False) = None"
  by (simp add: migrate_def call_then_succeeds split: option.split)

text \<open>
  C37: The database a run works on is the one of the environment, whatever \<open>alembic.ini\<close> has: an
  engine is only created, and an offline script only configured, with the non-empty
  \<open>DATABASE_URL\<close>; without one no call but that of the log configuration is made. Every run is
  configured with one transaction for each migration and no metadata to compare with.
\<close>

theorem env_url_from_environment:
  assumes "c \<in> set (snd (env_main config_file_name offline ini environ raises))"
  shows "case c of
      EngineFromConfig configuration prefix pool \<Rightarrow>
        configuration (prefix @ lit ''url'') = get_url environ \<and> get_url environ \<noteq> None \<and> get_url environ \<noteq> Some []
    | Configure a \<Rightarrow> ca_transaction_per_migration a = Some True \<and> ca_target_metadata a = None
        \<and> (ca_url a = (if offline then get_url environ else None)) \<and> ca_connection a = (\<not> offline)
        \<and> get_url environ \<noteq> None
    | FileConfig name \<Rightarrow> config_file_name = Some name
    | _ \<Rightarrow> get_url environ \<noteq> None"
proof -
  have prefix: "SQLALCHEMY_PREFIX @ lit ''url'' = lit ''sqlalchemy.url''"
    by (simp add: SQLALCHEMY_PREFIX_def lit_eval)
  have "get_url environ \<noteq> Some []" by (auto simp: get_url_def split: option.splits if_splits)
  with assms prefix show ?thesis
    by (auto simp: env_main_def run_migrations_offline_def run_migrations_online_def Let_def target_metadata_def
        dest!: call_then_set migrate_calls split: option.splits if_splits)
qed

text \<open>A run succeeds exactly when none of its calls raises.\<close>

lemma env_main_succeeds:
  "fst (env_main config_file_name offline ini environ raises) = None \<longleftrightarrow>
     get_url environ \<noteq> None \<and> (\<forall>c \<in> set (snd (env_main config_file_name offline ini environ raises)). c \<noteq> CloseConnection \<longrightarrow> raises c = None)"
  by (cases "get_url environ"; cases config_file_name; cases offline)
    (auto simp: env_main_def run_migrations_offline_def run_migrations_online_def Let_def call_then_def migrate_def
      split: option.splits)

theorem env_url_from_environment_witness:
  "let environ = [lit ''DATABASE_URL'' \<mapsto> lit ''u'']; ini = [lit ''sqlalchemy.url'' \<mapsto> lit ''other'']
   in \<exists>configuration. EngineFromConfig configuration SQLALCHEMY_PREFIX NullPool
        \<in> set (snd (env_main None False ini environ (\<lambda>_. None :: unit option)))
      \<and> configuration (SQLALCHEMY_PREFIX @ lit ''url'') = Some (lit ''u'')"
proof -
  let ?environ = "[lit ''DATABASE_URL'' \<mapsto> lit ''u'']" and ?ini = "[lit ''sqlalchemy.url'' \<mapsto> lit ''other'']"
  have url: "get_url ?environ = Some (lit ''u'')" by (simp add: get_url_def lit_eval)
  then have "EngineFromConfig (?ini(lit ''sqlalchemy.url'' \<mapsto> lit ''u'')) SQLALCHEMY_PREFIX NullPool
      \<in> set (snd (env_main None False ?ini ?environ (\<lambda>_. None :: unit option)))"
    by (simp add: env_main_def run_migrations_online_def Let_def call_then_def)
  from this env_url_from_environment [OF this] url show ?thesis unfolding Let_def by fastforce
qed

end
