(* ===== verification/WebhookSignature.thy ===== *)
theory WebhookSignature
  imports Decoding "HOL-Library.Word" "HOL-Library.Monad_Syntax"
begin

text \<open>
  The webhook signing contract, as
  \<open>docs/phase-05-database-design/5K/execution_logs/fixtures/webhook_dual_signature_test.py\<close>
  writes and exercises it: a header value is \<open>v1=\<close> and the HMAC of \<open>ts=<timestamp>.<raw body>\<close>.

  HMAC-SHA256 is an argument (\<open>mac\<close>); its digest is a list of bytes. \<open>None\<close> is the
  \<open>UnicodeEncodeError\<close> of a text that has no UTF-8 form, or the \<open>TypeError\<close> of
  \<open>compare_digest\<close> on a text that is not ASCII. The descriptions of the checks are left out.
\<close>

section \<open>Signing and verifying\<close>

type_synonym mac = "nat list \<Rightarrow> nat list \<Rightarrow> 8 word list"

definition hexdigest :: "8 word list \<Rightarrow> pystr" where
  "hexdigest bs = concat (map (\<lambda>b. [hex_digit (unat b div 16), hex_digit (unat b mod 16)]) bs)"

definition canonical :: "pystr \<Rightarrow> nat list \<Rightarrow> nat list option" where
  "canonical timestamp raw_body =
     map_option (\<lambda>t. t @ raw_body) (utf8_encode (lit ''ts='' @ timestamp @ lit ''.''))"

definition sign :: "mac \<Rightarrow> pystr \<Rightarrow> pystr \<Rightarrow> nat list \<Rightarrow> pystr option" where
  "sign H secret timestamp raw_body = do {
     message \<leftarrow> canonical timestamp raw_body;
     key \<leftarrow> utf8_encode secret;
     Some (lit ''v1='' @ hexdigest (H key message))
   }"

definition compare_digest :: "pystr \<Rightarrow> pystr \<Rightarrow> bool option" where
  "compare_digest a b = (if list_all is_ascii a \<and> list_all is_ascii b then Some (a = b) else None)"

definition verify :: "mac \<Rightarrow> pystr \<Rightarrow> pystr \<Rightarrow> nat list \<Rightarrow> pystr \<Rightarrow> bool option" where
  "verify H secret timestamp raw_body header_value = do {
     expected \<leftarrow> sign H secret timestamp raw_body;
     compare_digest expected header_value
   }"

section \<open>The fixture\<close>

text \<open>A \<open>Result\<close>: its case, and whether it passed.\<close>

type_synonym check_result = "char \<times> bool"

definition SECRET_A :: pystr where "SECRET_A = lit ''test-secret-A-deterministic-000000000000''"
definition SECRET_B :: pystr where "SECRET_B = lit ''test-secret-B-deterministic-111111111111''"
definition SECRET_C :: pystr where "SECRET_C = lit ''test-secret-C-deterministic-222222222222''"
definition SECRET_D :: pystr where "SECRET_D = lit ''test-secret-D-deterministic-333333333333''"
definition wrong_secret :: pystr where "wrong_secret = lit ''test-secret-WRONG-deterministic-999999999999''"
definition TIMESTAMP :: pystr where "TIMESTAMP = lit ''1735459200''"

definition RAW_BODY :: "nat list" where
  \<open>RAW_BODY = lit ''{"event":"integration.connected","connection_id":"01930000-0000-7000-8000-000000000001"}''\<close>

definition tampered_body :: "nat list" where
  "tampered_body = RAW_BODY[10 := xor (RAW_BODY ! 10) 1]"

definition tampered_timestamp :: pystr where
  "tampered_timestamp = py_str_int (int (dec_value TIMESTAMP) + 3600)"

definition is_v1 :: "pystr \<Rightarrow> bool" where
  "is_v1 signature \<longleftrightarrow> starts_at signature (lit ''v1='') 0"

definition case_A :: "mac \<Rightarrow> check_result list option" where
  "case_A H = do {
     sig_current \<leftarrow> sign H SECRET_B TIMESTAMP RAW_BODY;
     ok \<leftarrow> verify H SECRET_B TIMESTAMP RAW_BODY sig_current;
     Some [(CHR ''A'', is_v1 sig_current), (CHR ''A'', True), (CHR ''A'', ok)]
   }"

definition case_B :: "mac \<Rightarrow> check_result list option" where
  "case_B H = do {
     sig_current_grace \<leftarrow> sign H SECRET_C TIMESTAMP RAW_BODY;
     sig_previous_grace \<leftarrow> sign H SECRET_B TIMESTAMP RAW_BODY;
     current \<leftarrow> verify H SECRET_C TIMESTAMP RAW_BODY sig_current_grace;
     previous \<leftarrow> verify H SECRET_B TIMESTAMP RAW_BODY sig_previous_grace;
     Some [(CHR ''B'', is_v1 sig_current_grace), (CHR ''B'', is_v1 sig_previous_grace),
           (CHR ''B'', current), (CHR ''B'', previous), (CHR ''B'', True)]
   }"

definition case_C :: "mac \<Rightarrow> check_result list option" where
  "case_C H = do {
     sig_current_grace \<leftarrow> sign H SECRET_C TIMESTAMP RAW_BODY;
     result \<leftarrow> verify H wrong_secret TIMESTAMP RAW_BODY sig_current_grace;
     Some [(CHR ''C'', \<not> result)]
   }"

text \<open>The \<open>assert\<close> that the body was changed raises when it fails.\<close>

definition case_D :: "mac \<Rightarrow> check_result list option" where
  "case_D H = do {
     sig_current_grace \<leftarrow> sign H SECRET_C TIMESTAMP RAW_BODY;
     sig_previous_grace \<leftarrow> sign H SECRET_B TIMESTAMP RAW_BODY;
     _ \<leftarrow> (if tampered_body = RAW_BODY then None else Some ());
     current \<leftarrow> verify H SECRET_C TIMESTAMP tampered_body sig_current_grace;
     previous \<leftarrow> verify H SECRET_B TIMESTAMP tampered_body sig_previous_grace;
     Some [(CHR ''D'', \<not> current), (CHR ''D'', \<not> previous)]
   }"

definition case_E :: "mac \<Rightarrow> check_result list option" where
  "case_E H = do {
     sig_current_grace \<leftarrow> sign H SECRET_C TIMESTAMP RAW_BODY;
     result \<leftarrow> verify H SECRET_C tampered_timestamp RAW_BODY sig_current_grace;
     Some [(CHR ''E'', \<not> result)]
   }"

definition case_F :: "mac \<Rightarrow> check_result list option" where
  "case_F H = do {
     sig_current_post_expiry \<leftarrow> sign H SECRET_C TIMESTAMP RAW_BODY;
     Some [(CHR ''F'', is_v1 sig_current_post_expiry), (CHR ''F'', True), (CHR ''F'', True)]
   }"

definition case_G :: "mac \<Rightarrow> check_result list option" where
  "case_G H = do {
     sig_rotation2_current \<leftarrow> sign H SECRET_D TIMESTAMP RAW_BODY;
     sig_rotation2_previous \<leftarrow> sign H SECRET_C TIMESTAMP RAW_BODY;
     current \<leftarrow> verify H SECRET_D TIMESTAMP RAW_BODY sig_rotation2_current;
     previous \<leftarrow> verify H SECRET_C TIMESTAMP RAW_BODY sig_rotation2_previous;
     a_current \<leftarrow> verify H SECRET_A TIMESTAMP RAW_BODY sig_rotation2_current;
     a_previous \<leftarrow> verify H SECRET_A TIMESTAMP RAW_BODY sig_rotation2_previous;
     b_current \<leftarrow> verify H SECRET_B TIMESTAMP RAW_BODY sig_rotation2_current;
     b_previous \<leftarrow> verify H SECRET_B TIMESTAMP RAW_BODY sig_rotation2_previous;
     Some [(CHR ''G'', current), (CHR ''G'', previous), (CHR ''G'', \<not> a_current), (CHR ''G'', \<not> a_previous),
           (CHR ''G'', \<not> b_current), (CHR ''G'', \<not> b_previous)]
   }"

text \<open>The exit code of the script; \<open>None\<close> when it dies of an exception.\<close>

definition results :: "mac \<Rightarrow> check_result list option" where
  "results H = do {
     a \<leftarrow> case_A H; b \<leftarrow> case_B H; c \<leftarrow> case_C H; d \<leftarrow> case_D H; e \<leftarrow> case_E H; f \<leftarrow> case_F H; g \<leftarrow> case_G H;
     Some (a @ b @ c @ d @ e @ f @ g)
   }"

definition exit_code :: "mac \<Rightarrow> int option" where
  "exit_code H = do {
     rs \<leftarrow> results H;
     Some (if list_all snd rs then 0 else 1)
   }"

section \<open>What is signed\<close>

lemma utf8_encode_ascii: "list_all is_ascii t \<Longrightarrow> utf8_encode t = Some t"
  by (induction t) (simp_all add: utf8_char_def is_ascii_def)

lemma canonical_ascii:
  "list_all is_ascii timestamp \<Longrightarrow> canonical timestamp raw_body = Some (lit ''ts='' @ timestamp @ lit ''.'' @ raw_body)"
proof -
  assume "list_all is_ascii timestamp"
  then have "list_all is_ascii (lit ''ts='' @ timestamp @ lit ''.'')" by (simp add: is_ascii_def lit_eval)
  then show ?thesis by (simp only: canonical_def utf8_encode_ascii) simp
qed

lemma sign_ascii:
  "list_all is_ascii secret \<Longrightarrow> list_all is_ascii timestamp \<Longrightarrow>
     sign H secret timestamp raw_body = Some (lit ''v1='' @ hexdigest (H secret (lit ''ts='' @ timestamp @ lit ''.'' @ raw_body)))"
  by (simp add: sign_def canonical_ascii utf8_encode_ascii)

lemma hexdigest_ascii: "list_all is_ascii (hexdigest bs)"
proof -
  have "is_ascii (hex_digit (unat b div 16)) \<and> is_ascii (hex_digit (unat b mod 16))" for b :: "8 word"
    using unsigned_less [where 'a = nat, of b] by (simp add: hex_digit_facts)
  then show ?thesis by (induction bs) (simp_all add: hexdigest_def)
qed

lemma hex_byte_inj:
  assumes "hex_digit (unat a div 16) = hex_digit (unat b div 16)" "hex_digit (unat a mod 16) = hex_digit (unat b mod 16)"
  shows "(a :: 8 word) = b"
proof -
  have small: "unat c div 16 < 16" for c :: "8 word" using unsigned_less [where 'a = nat, of c] by simp
  have "unat a div 16 = unat b div 16"
    using arg_cong [OF assms(1), of hex_val] hex_digit_facts(2) [OF small] by simp
  moreover have "unat a mod 16 = unat b mod 16"
    using arg_cong [OF assms(2), of hex_val] by (simp add: hex_digit_facts)
  ultimately have "unat a = unat b" by (metis div_mult_mod_eq)
  then show ?thesis by (rule word_unat_eq_iff [THEN iffD2])
qed

lemma hexdigest_inj [simp]: "hexdigest a = hexdigest b \<longleftrightarrow> a = b"
proof (induction a arbitrary: b)
  case Nil
  show ?case by (cases b) (simp_all add: hexdigest_def)
next
  case (Cons x xs)
  show ?case
  proof (cases b)
    case (Cons y ys)
    with Cons.IH [of ys] show ?thesis by (auto simp: hexdigest_def dest: hex_byte_inj)
  qed (simp add: hexdigest_def)
qed

text \<open>What \<open>verify\<close> decides, on ASCII texts: whether the two digests are the same.\<close>

lemma verify_signed:
  assumes "list_all is_ascii secret" "list_all is_ascii timestamp"
  shows "verify H secret timestamp raw_body (lit ''v1='' @ hexdigest d)
    = Some (H secret (lit ''ts='' @ timestamp @ lit ''.'' @ raw_body) = d)"
  using assms by (simp add: verify_def sign_ascii compare_digest_def hexdigest_ascii) (simp add: lit_eval)

lemma fixture_ascii:
  "list_all is_ascii SECRET_A" "list_all is_ascii SECRET_B" "list_all is_ascii SECRET_C" "list_all is_ascii SECRET_D"
  "list_all is_ascii wrong_secret" "list_all is_ascii TIMESTAMP"
  by (simp_all add: SECRET_A_def SECRET_B_def SECRET_C_def SECRET_D_def wrong_secret_def TIMESTAMP_def lit_eval is_ascii_def)

lemma str_int_ascii: "list_all is_ascii (py_str_int i)"
proof -
  have "list_all is_ascii (dec_digits n)" for n
    unfolding list_all_iff is_ascii_def
  proof
    fix c assume "c \<in> set (dec_digits n)"
    with dec_digits_digits have "c \<in> {48..57}" by (rule subsetD)
    then show "c < 128" by simp
  qed
  then show ?thesis by (simp add: py_str_int_def is_ascii_def)
qed

lemma tampered_ascii: "list_all is_ascii tampered_timestamp"
  by (simp add: tampered_timestamp_def str_int_ascii)

lemma tampered_differs: "tampered_body \<noteq> RAW_BODY"
proof -
  have ten: "10 < length RAW_BODY" "RAW_BODY ! 10 = 105" by (simp_all add: RAW_BODY_def lit_eval)
  have "xor (105 :: nat) 1 \<noteq> 105" by code_simp
  with ten have "tampered_body ! 10 \<noteq> RAW_BODY ! 10" by (simp only: tampered_body_def nth_list_update_eq) simp
  then show ?thesis by auto
qed

lemma is_v1_tag: "is_v1 (lit ''v1='' @ t)"
  by (simp add: is_v1_def starts_at_def lit_eval)

lemmas fixture_rules = fixture_ascii tampered_ascii tampered_differs sign_ascii verify_signed is_v1_tag

text \<open>
  The fixture never dies of an exception; it reports success exactly when the HMAC tells
  apart the eight pairs of key and message that its negative checks compare: a foreign secret,
  a changed body under either secret, a changed timestamp, and two retired secrets against both
  headers of the second rotation.
\<close>

theorem exit_code_iff:
  "exit_code H = Some (if
       (let message = (\<lambda>ts body. lit ''ts='' @ ts @ lit ''.'' @ body); m = message TIMESTAMP RAW_BODY in
         H wrong_secret m \<noteq> H SECRET_C m
         \<and> H SECRET_C (message TIMESTAMP tampered_body) \<noteq> H SECRET_C m
         \<and> H SECRET_B (message TIMESTAMP tampered_body) \<noteq> H SECRET_B m
         \<and> H SECRET_C (message tampered_timestamp RAW_BODY) \<noteq> H SECRET_C m
         \<and> H SECRET_A m \<noteq> H SECRET_D m \<and> H SECRET_A m \<noteq> H SECRET_C m
         \<and> H SECRET_B m \<noteq> H SECRET_D m \<and> H SECRET_B m \<noteq> H SECRET_C m)
     then 0 else 1)"
  by (simp add: exit_code_def results_def case_A_def case_B_def case_C_def case_D_def case_E_def case_F_def case_G_def
      fixture_rules Let_def)

text \<open>
  The signature does not cover the boundary between timestamp and body: moving any
  beginning of the body that ends before a dot into the timestamp header leaves the signature
  valid, for every secret and every HMAC. The body of the fixture has such a dot.
\<close>

theorem boundary_not_signed:
  assumes "list_all is_ascii timestamp" "list_all is_ascii secret" "list_all is_ascii pre"
    and "sign H secret timestamp (pre @ c_dot # post) = Some header"
  shows "verify H secret (timestamp @ c_dot # pre) post header = Some True"
proof -
  have moved: "list_all is_ascii (timestamp @ c_dot # pre)" using assms(1,3) by (simp add: is_ascii_def)
  have "header = lit ''v1='' @ hexdigest (H secret (lit ''ts='' @ timestamp @ lit ''.'' @ pre @ c_dot # post))"
    using assms(1,2,4) by (simp add: sign_ascii)
  then show ?thesis using verify_signed [OF assms(2) moved, of H post] by (simp add: lit_eval)
qed

text \<open>With timestamps of digits only, as the platform sends them, it is covered.\<close>

theorem digits_bind:
  assumes "list_all is_adigit ts" "list_all is_adigit ts'" "canonical ts body = canonical ts' body'"
  shows "ts = ts' \<and> body = body'"
proof -
  have ascii: "list_all is_ascii t" if "list_all is_adigit t" for t
    using that by (auto simp: list_all_iff is_adigit_def is_ascii_def)
  have "ts @ c_dot # body = ts' @ c_dot # body'"
    using assms(3) ascii [OF assms(1)] ascii [OF assms(2)] by (simp add: canonical_ascii lit_eval)
  moreover have "takeWhile is_adigit (t @ c_dot # b) = t \<and> dropWhile is_adigit (t @ c_dot # b) = c_dot # b"
    if "list_all is_adigit t" for t b
    using that by (induction t) (auto simp: is_adigit_def)
  ultimately show ?thesis using assms(1,2) by (metis list.inject)
qed

text \<open>The example of the fixture: its body, cut at the dot of its event name.\<close>

theorem boundary_not_signed_witness:
  \<open>verify (\<lambda>_ _. []) SECRET_B (TIMESTAMP @ c_dot # lit ''{"event":"integration'')
     (lit ''connected","connection_id":"01930000-0000-7000-8000-000000000001"}'') (lit ''v1='') = Some True\<close>
proof (rule boundary_not_signed)
  show "list_all is_ascii TIMESTAMP" "list_all is_ascii SECRET_B" by (rule fixture_ascii)+
  show \<open>list_all is_ascii (lit ''{"event":"integration'')\<close> by code_simp
  show \<open>sign (\<lambda>_ _. []) SECRET_B TIMESTAMP (lit ''{"event":"integration'' @ c_dot #
      lit ''connected","connection_id":"01930000-0000-7000-8000-000000000001"}'') = Some (lit ''v1='')\<close>
    by (simp add: sign_ascii fixture_ascii hexdigest_def)
qed

end
