(* ===== verification/Uuid7.thy ===== *)
theory Uuid7
  imports PyText "HOL-Library.Word"
begin

unbundle bit_operations_syntax

text \<open>
  \<open>platform/utils/id_generator.py\<close>: the identifiers of requests, with Python's unbounded
  integers. The clock (in nanoseconds) and the 74 random bits are arguments.
\<close>

definition RAND_B_BITS :: nat where "RAND_B_BITS = 62"

definition RAND_B_MASK :: int where "RAND_B_MASK = push_bit RAND_B_BITS 1 - 1"

text \<open>\<open>UUID(int=value)\<close>: \<open>None\<close> is the \<open>ValueError\<close> for a value that does not fit.\<close>

definition uuid_of_int :: "int \<Rightarrow> int option" where
  "uuid_of_int v = (if 0 \<le> v \<and> v < push_bit 128 1 then Some v else None)"

definition generate_uuid7 :: "int \<Rightarrow> int \<Rightarrow> int option" where
  "generate_uuid7 time_ns random_bits =
     (let unix_ms = time_ns div 1000000;
          rand_a = drop_bit RAND_B_BITS random_bits;
          rand_b = random_bits AND RAND_B_MASK
      in uuid_of_int
           (push_bit 80 (unix_ms AND 0xFFFFFFFFFFFF) OR push_bit 76 7 OR push_bit 64 rand_a OR push_bit 62 2 OR rand_b))"

section \<open>The fields\<close>

text \<open>A field above smaller ones.\<close>

lemma or_field:
  fixes a b :: int
  assumes "0 \<le> b" "b < 2 ^ n"
  shows "push_bit n a OR b = a * 2 ^ n + b"
proof -
  have b: "take_bit n b = b" using assms by (simp add: take_bit_int_eq_self)
  have "push_bit n a AND b = 0"
    by (subst b [symmetric]) (auto simp: bit_eq_iff bit_simps)
  then have "push_bit n a + b = push_bit n a OR b" by (rule disjunctive_add_eq_or)
  then show ?thesis by (simp add: push_bit_eq_mult)
qed

text \<open>The fields by their weights.\<close>

lemma uuid7_value:
  assumes "0 \<le> random_bits" "random_bits < 2 ^ 74"
  shows "generate_uuid7 time_ns random_bits = Some
    ((time_ns div 1000000) mod 2 ^ 48 * 2 ^ 80 + 7 * 2 ^ 76 + random_bits div 2 ^ 62 * 2 ^ 64 + 2 * 2 ^ 62 + random_bits mod 2 ^ 62)"
proof -
  let ?ms = "(time_ns div 1000000) mod 2 ^ 48" and ?a = "random_bits div 2 ^ 62" and ?b = "random_bits mod 2 ^ 62"
  have ms: "time_ns div 1000000 AND 0xFFFFFFFFFFFF = ?ms"
    using take_bit_eq_mask [of 48 "time_ns div 1000000"] by (simp add: take_bit_eq_mod mask_eq_exp_minus_1)
  have b: "random_bits AND RAND_B_MASK = ?b"
    using take_bit_eq_mask [of 62 random_bits]
    by (simp add: take_bit_eq_mod mask_eq_exp_minus_1 RAND_B_MASK_def RAND_B_BITS_def push_bit_eq_mult)
  have a: "drop_bit RAND_B_BITS random_bits = ?a" by (simp add: drop_bit_eq_div RAND_B_BITS_def)
  have bounds: "0 \<le> ?ms" "?ms < 2 ^ 48" "0 \<le> ?a" "?a < 2 ^ 12" "0 \<le> ?b" "?b < 2 ^ 62"
    using assms by (simp_all add: div_less_iff_less_mult)
  let ?v0 = "2 * 2 ^ 62 + ?b" let ?v1 = "?a * 2 ^ 64 + ?v0" let ?v2 = "7 * 2 ^ 76 + ?v1" let ?v3 = "?ms * 2 ^ 80 + ?v2"
  have f0: "push_bit 62 2 OR ?b = ?v0" by (rule or_field) (use bounds in simp_all)
  have f1: "push_bit 64 ?a OR ?v0 = ?v1" by (rule or_field) (use bounds in simp_all)
  have f2: "push_bit 76 7 OR ?v1 = ?v2" by (rule or_field) (use bounds in simp_all)
  have f3: "push_bit 80 ?ms OR ?v2 = ?v3" by (rule or_field) (use bounds in simp_all)
  have "push_bit 80 ?ms OR push_bit 76 7 OR push_bit 64 ?a OR push_bit 62 2 OR ?b = ?v3"
    by (simp only: or.assoc f0 f1 f2 f3)
  moreover have "0 \<le> ?v3" "?v3 < 2 ^ 128" using bounds by simp_all
  moreover have "push_bit 128 1 = (2 ^ 128 :: int)" by (simp add: push_bit_eq_mult)
  ultimately show ?thesis
    by (simp only: generate_uuid7_def Let_def ms a b uuid_of_int_def simp_thms if_True add.assoc)
qed

text \<open>Reading the fields of RFC 9562 back from the number.\<close>

definition unix_ms_of :: "int \<Rightarrow> int" where "unix_ms_of u = drop_bit 80 u"
definition version_of :: "int \<Rightarrow> int" where "version_of u = take_bit 4 (drop_bit 76 u)"
definition variant_of :: "int \<Rightarrow> int" where "variant_of u = take_bit 2 (drop_bit 62 u)"
definition random_of :: "int \<Rightarrow> int" where
  "random_of u = push_bit 62 (take_bit 12 (drop_bit 64 u)) + take_bit 62 u"

lemma field_above:
  fixes a b :: int
  assumes "0 \<le> b" "b < 2 ^ n"
  shows "drop_bit n (a * 2 ^ n + b) = a"
  using assms by (simp add: drop_bit_eq_div)

definition uuid_value :: "int \<Rightarrow> int \<Rightarrow> int \<Rightarrow> int" where
  "uuid_value ms a b = ms * 2 ^ 80 + 7 * 2 ^ 76 + a * 2 ^ 64 + 2 * 2 ^ 62 + b"

lemma uuid_value_fields:
  assumes "0 \<le> ms" "ms < 2 ^ 48" "0 \<le> a" "a < 2 ^ 12" "0 \<le> b" "b < 2 ^ 62"
  shows "0 \<le> uuid_value ms a b" "uuid_value ms a b < 2 ^ 128" "unix_ms_of (uuid_value ms a b) = ms"
    "version_of (uuid_value ms a b) = 7" "variant_of (uuid_value ms a b) = 2" "random_of (uuid_value ms a b) = a * 2 ^ 62 + b"
proof -
  let ?u = "uuid_value ms a b"
  define h where "h = ms * 2 ^ 4 + 7"
  define k where "k = h * 2 ^ 12 + a"
  have h: "?u = h * 2 ^ 76 + (a * 2 ^ 64 + 2 * 2 ^ 62 + b)" and k: "?u = k * 2 ^ 64 + (2 * 2 ^ 62 + b)"
    and v: "?u = (k * 2 ^ 2 + 2) * 2 ^ 62 + b" and m: "?u = ms * 2 ^ 80 + (7 * 2 ^ 76 + a * 2 ^ 64 + 2 * 2 ^ 62 + b)"
    by (simp_all add: uuid_value_def k_def h_def)
  show "0 \<le> ?u" "?u < 2 ^ 128" using assms by (simp_all add: uuid_value_def)
  show "unix_ms_of ?u = ms" unfolding m unix_ms_of_def by (rule field_above) (use assms in simp_all)
  have "drop_bit 76 ?u = h" unfolding h by (rule field_above) (use assms in simp_all)
  moreover have "h mod 2 ^ 4 = 7" by (simp add: h_def)
  ultimately show "version_of ?u = 7" by (simp add: version_of_def take_bit_eq_mod)
  have "drop_bit 62 ?u = k * 2 ^ 2 + 2" unfolding v by (rule field_above) (use assms in simp_all)
  then show "variant_of ?u = 2" by (simp add: variant_of_def take_bit_eq_mod)
  have "drop_bit 64 ?u = k" unfolding k by (rule field_above) (use assms in simp_all)
  moreover have "k mod 2 ^ 12 = a" using assms by (simp add: k_def)
  moreover have "?u mod 2 ^ 62 = b" unfolding v mod_mult_self3 using assms by (simp add: mod_pos_pos_trivial)
  ultimately show "random_of ?u = a * 2 ^ 62 + b" by (simp add: random_of_def take_bit_eq_mod push_bit_eq_mult)
qed

lemma uuid_value_ordered:
  assumes "ms < ms'" "0 \<le> a" "a < 2 ^ 12" "0 \<le> b" "b < 2 ^ 62" "0 \<le> a'" "0 \<le> b'"
  shows "uuid_value ms a b < uuid_value ms' a' b'"
proof -
  have "uuid_value ms a b < (ms + 1) * 2 ^ 80" using assms by (simp add: uuid_value_def)
  also have "\<dots> \<le> ms' * 2 ^ 80" using assms(1) by simp
  also have "\<dots> \<le> uuid_value ms' a' b'" using assms by (simp add: uuid_value_def)
  finally show ?thesis .
qed

text \<open>
  C40: The identifier is always a valid UUID, and reading its fields back gives the milliseconds
  of the clock in 48 bits, version 7, the RFC variant, and all 74 random bits. Of two clock
  readings in different milliseconds, before the year 10889, the later gives the larger
  identifier, whatever the random bits.
\<close>

theorem uuid7_roundtrip:
  assumes "0 \<le> random_bits" "random_bits < 2 ^ 74"
  shows "\<exists>u. generate_uuid7 time_ns random_bits = Some u \<and> 0 \<le> u \<and> u < 2 ^ 128
    \<and> unix_ms_of u = (time_ns div 1000000) mod 2 ^ 48 \<and> version_of u = 7 \<and> variant_of u = 2 \<and> random_of u = random_bits
    \<and> (0 \<le> time_ns \<and> time_ns div 1000000 < later div 1000000 \<and> later div 1000000 < 2 ^ 48
        \<and> 0 \<le> other_bits \<and> other_bits < 2 ^ 74
        \<longrightarrow> (\<exists>v. generate_uuid7 later other_bits = Some v \<and> u < v))"
proof -
  let ?ms = "\<lambda>t. (t div 1000000) mod 2 ^ 48 :: int" and ?a = "\<lambda>r. r div 2 ^ 62 :: int" and ?b = "\<lambda>r. r mod 2 ^ 62 :: int"
  have bounds: "0 \<le> ?a r" "?a r < 2 ^ 12" "0 \<le> ?b r" "?b r < 2 ^ 62" if "0 \<le> r" "r < 2 ^ 74" for r
    using that by (simp_all add: div_less_iff_less_mult)
  have made: "generate_uuid7 t r = Some (uuid_value (?ms t) (?a r) (?b r))" if "0 \<le> r" "r < 2 ^ 74" for t r
    using uuid7_value [OF that] by (simp only: uuid_value_def)
  have later: "uuid_value (?ms time_ns) (?a random_bits) (?b random_bits) < uuid_value (?ms later) (?a other_bits) (?b other_bits)"
    if "0 \<le> time_ns" "time_ns div 1000000 < later div 1000000" "later div 1000000 < 2 ^ 48" "0 \<le> other_bits" "other_bits < 2 ^ 74"
  proof (rule uuid_value_ordered)
    have "0 \<le> time_ns div 1000000" using that(1) by (simp add: pos_imp_zdiv_nonneg_iff)
    then have "?ms time_ns = time_ns div 1000000" "?ms later = later div 1000000"
      using that(2,3) by (simp_all add: mod_pos_pos_trivial)
    with that(2) show "?ms time_ns < ?ms later" by (simp only:)
  qed (use bounds assms that in simp_all)
  define u where "u = uuid_value (?ms time_ns) (?a random_bits) (?b random_bits)"
  have "0 \<le> ?ms time_ns" "?ms time_ns < 2 ^ 48" by simp_all
  note fields = uuid_value_fields [OF this bounds [OF assms], folded u_def, unfolded div_mult_mod_eq]
  show ?thesis
  proof (rule exI [of _ u], intro conjI impI)
    assume l: "0 \<le> time_ns \<and> time_ns div 1000000 < later div 1000000 \<and> later div 1000000 < 2 ^ 48
      \<and> 0 \<le> other_bits \<and> other_bits < 2 ^ 74"
    then have "u < uuid_value (?ms later) (?a other_bits) (?b other_bits)" using later unfolding u_def by blast
    with l made show "\<exists>v. generate_uuid7 later other_bits = Some v \<and> u < v" by blast
  qed (fact fields made [OF assms, of time_ns, folded u_def])+
qed

theorem uuid7_roundtrip_witness:
  "\<exists>u. generate_uuid7 1700000000000000000 5 = Some u \<and> unix_ms_of u = 1700000000000 \<and> random_of u = 5"
  using uuid7_roundtrip [of 5 1700000000000000000 0 0] by fastforce

end
