(* ===== verification/RequestIdentity.thy ===== *)
theory RequestIdentity
  imports Uuid7 LogFacts ApiFacts
begin

text \<open>
  The request identifier on its way through the program: \<open>CorrelationIdMiddleware\<close> generates it,
  puts its text into the response header, and binds it to the context every log record of the
  request is given; the logging pipeline admits it to a line only when it passes the identifier
  grammar and the scrubber. What is shown here is that it always passes.
\<close>

section \<open>The text of an identifier\<close>

definition is_uuid_char :: "pychar \<Rightarrow> bool" where
  "is_uuid_char c \<longleftrightarrow> is_adigit c \<or> (97 \<le> c \<and> c \<le> 102) \<or> c = c_dash"

text \<open>\<open>str(generate_uuid7())\<close>\<close>

definition request_id_text :: "int \<Rightarrow> pystr" where
  "request_id_text u = uuid_text (Some u)"

lemma length_hex_digits [simp]: "length (hex_digits n v) = n"
  by (induction n arbitrary: v) simp_all

lemma hex_digits_chars: "list_all (\<lambda>c. is_adigit c \<or> (97 \<le> c \<and> c \<le> 102)) (hex_digits n v)"
proof (induction n arbitrary: v)
  case (Suc n)
  have "v mod 16 \<le> 15" using mod_less_divisor [of 16 v] by simp
  then show ?case using Suc by (simp add: Let_def is_adigit_def)
qed simp

lemma request_id_groups:
  assumes "0 \<le> u" "u < 2 ^ 128"
  obtains a b c d e where "request_id_text u = a @ c_dash # b @ c_dash # c @ c_dash # d @ c_dash # e"
    "length a = 8" "length b = 4" "length c = 4" "length d = 4" "length e = 12"
    "list_all (\<lambda>c. is_adigit c \<or> (97 \<le> c \<and> c \<le> 102)) (a @ b @ c @ d @ e)"
proof
  let ?h = "hex_digits 32 (nat u)"
  let ?s = "PyText.slice ?h"
  show "request_id_text u = ?s 0 8 @ c_dash # ?s 8 12 @ c_dash # ?s 12 16 @ c_dash # ?s 16 20 @ c_dash # ?s 20 32"
    using assms by (simp add: request_id_text_def uuid_text_def Let_def PyText.slice_def)
  have "list_all (\<lambda>c. is_adigit c \<or> (97 \<le> c \<and> c \<le> 102)) (?s a b)" for a b
    using hex_digits_chars [of 32 "nat u"]
    by (auto simp: list_all_iff PyText.slice_def dest!: in_set_takeD in_set_dropD)
  then show "list_all (\<lambda>c. is_adigit c \<or> (97 \<le> c \<and> c \<le> 102)) (?s 0 8 @ ?s 8 12 @ ?s 12 16 @ ?s 16 20 @ ?s 20 32)"
    by (simp del: list_all_append add: list_all_append)
qed (simp_all add: PyText.slice_def)

lemma request_id_shape:
  assumes "0 \<le> u" "u < 2 ^ 128"
  shows "length (request_id_text u) = 36" "list_all is_uuid_char (request_id_text u)" "is_aalnum (hd (request_id_text u))"
proof -
  from request_id_groups [OF assms] obtain a b c d e where t:
    "request_id_text u = a @ c_dash # b @ c_dash # c @ c_dash # d @ c_dash # e"
    "length a = 8" "length b = 4" "length c = 4" "length d = 4" "length e = 12"
    "list_all (\<lambda>c. is_adigit c \<or> (97 \<le> c \<and> c \<le> 102)) (a @ b @ c @ d @ e)" .
  then show "length (request_id_text u) = 36" by simp
  have "is_uuid_char x" if "is_adigit x \<or> (97 \<le> x \<and> x \<le> 102)" for x
    using that by (auto simp: is_uuid_char_def)
  with t(1,7) show "list_all is_uuid_char (request_id_text u)"
    by (auto simp: list_all_iff is_uuid_char_def)
  from t(2,7) have "is_adigit (hd a) \<or> (97 \<le> hd a \<and> hd a \<le> 102)" by (cases a) simp_all
  with t(1,2) show "is_aalnum (hd (request_id_text u))"
    by (cases a) (auto simp: is_aalnum_def is_aalpha_def is_alower_def)
qed

section \<open>No rule of the scrubber applies\<close>

lemma uuid_char_facts:
  assumes "is_uuid_char c"
  shows "is_calm c" "\<not> is_key_trailer c" "\<not> is_space c" "c \<noteq> c_backslash" "c \<noteq> c_lbrack" "c \<noteq> FRAGMENT_OPEN"
    "c \<noteq> c_eq" "c \<noteq> c_colon" "c \<noteq> c_gt" "c \<noteq> c_comma" "c \<noteq> c_slash" "c \<noteq> c_at" "c \<noteq> 121"
  using assms
  by (auto simp: is_uuid_char_def is_adigit_def is_calm_def is_ordinary_def is_value_delimiter_def is_quote_def is_opener_def
      is_closer_def is_key_trailer_def is_space_def FRAGMENT_OPEN_def)

text \<open>After a key of such a text there is no value.\<close>

lemma locate_value_None:
  assumes "list_all is_uuid_char t"
  shows "locate_value t a b = None"
proof -
  have char: "is_uuid_char (t ! i)" if "i < length t" for i using assms that by (simp add: list_all_length)
  have trailers: "key_trailers t b False = (b, False)"
    using uuid_char_facts [OF char] by (subst key_trailers.simps) simp
  have spaces: "b < length t \<Longrightarrow> skip_spaces t b None = (b, None)"
    using uuid_char_facts(3,4) [OF char] by (simp add: skip_spaces_here)
  have past: "length t \<le> b \<Longrightarrow> skip_spaces t b None = (b, None)"
    by (subst skip_spaces.simps) simp
  show ?thesis
    using spaces past uuid_char_facts(7-10) [OF char]
    by (cases "length t \<le> b") (simp_all add: locate_value_def trailers Let_def)
qed

lemma scrub_pairs_uuid:
  assumes "list_all is_uuid_char t"
  shows "scrub_pairs R t = Some t"
proof -
  have none: "pair_span R t m = Some None" for m
    by (simp add: pair_span_def Let_def locate_value_None [OF assms])
  have "scrub_pairs_loop R t copied position = Some (drop copied t)" for copied position
  proof (induction "length t - position" arbitrary: position rule: less_induct)
    case less
    then show ?case
      by (subst scrub_pairs_loop.simps) (simp add: none key_run_advances split: option.split)
  qed
  from this [of 0 0] show ?thesis by (simp add: scrub_pairs_def)
qed

lemma no_mark:
  assumes "list_all is_uuid_char t"
  shows "\<not> py_in jwt_mark t" "\<not> py_in scheme_mark t"
proof -
  have "121 \<notin> set t" "c_colon \<notin> set t" using assms uuid_char_facts(8,13) by (auto simp: list_all_iff)
  moreover have "121 \<in> set jwt_mark" "c_colon \<in> set scheme_mark"
    by (simp_all add: jwt_mark_def scheme_mark_def lit_eval)
  ultimately show "\<not> py_in jwt_mark t" "\<not> py_in scheme_mark t" by (auto dest: py_in_subset)
qed

lemma scrub_uuid:
  assumes "list_all is_uuid_char t" "length t \<le> MAX_STRING_LENGTH"
  shows "fst (scrub R t new_budget) = Some t"
proof -
  have "list_all is_calm t" "c_at \<notin> set t"
    using assms(1) uuid_char_facts(1,12) by (auto simp: list_all_iff)
  with calm_scrub [OF _ no_mark [OF assms(1)] assms(2), of R] scrub_pairs_uuid [OF assms(1), of R]
  show ?thesis by (simp add: scrub_bare_authorities_def)
qed

lemma uuid_grammar:
  assumes "t \<noteq> []" "is_aalnum (hd t)" "list_all is_uuid_char t"
  shows "rx_fullmatches (IDENTIFIER_GRAMMARS RequestId) t"
proof -
  let ?p = "\<lambda>c. is_aalnum c \<or> c = c_under \<or> c = c_dot \<or> c = c_dash"
  obtain c w where t: "t = c # w" using assms(1) by (cases t) simp_all
  have "list_all ?p t"
    using assms(3) by (auto simp: list_all_iff is_uuid_char_def is_aalnum_def is_aalpha_def is_alower_def)
  then have all: "takeWhile ?p w = w" unfolding t by (intro takeWhile_eq_all_conv [THEN iffD2]) (auto simp: list_all_iff)
  have run: "run_end ?p t 1 = length t" unfolding run_end_def t using all by (simp only: drop_Suc_Cons One_nat_def drop_0) simp
  have "rx_match (RxSet is_aalnum) t 0 Map.empty = [(1, Map.empty)]" using assms(2) t by simp
  moreover have "(length t, Map.empty) \<in> set (rx_match (rx_star (RxSet ?p)) t 1 Map.empty)"
  proof -
    have "1 \<le> length t" using t by simp
    then show ?thesis unfolding rx_match_set_star [OF \<open>1 \<le> length t\<close>] run by auto
  qed
  ultimately have "(length t, Map.empty) \<in> set (rx_match rx_dotted_name t 0 Map.empty)"
    unfolding rx_dotted_name_def rx_match.simps(3) by auto
  then show ?thesis unfolding rx_fullmatches_iff IDENTIFIER_GRAMMARS.simps by blast
qed

lemma request_id_trusted:
  assumes "0 \<le> u" "u < 2 ^ 128"
  shows "identity_value R (lit ''request_id'') (VStr True (request_id_text u)) = request_id_text u"
proof -
  note shape = request_id_shape [OF assms]
  have "request_id_text u \<noteq> []" using shape(1) by auto
  note grammar = uuid_grammar [OF this shape(3,2)]
  have "length (request_id_text u) \<le> MAX_STRING_LENGTH" by (simp add: shape(1) MAX_STRING_LENGTH_def)
  note scrubbed = scrub_uuid [OF shape(2) this]
  have "trusted_identifier R (VStr True (request_id_text u)) RequestId fallback = request_id_text u" for fallback
    using \<open>request_id_text u \<noteq> []\<close> grammar scrubbed
    by (simp add: trusted_identifier_def MAX_IDENTIFIER_LENGTH_def shape(1) del: IDENTIFIER_GRAMMARS.simps)
  then show ?thesis by (simp add: identity_value_def IDENTITY_FALLBACKS_def)
qed

section \<open>One identifier, in the response and in the lines\<close>

text \<open>
  The fields of every line that is rendered name the request; a line that is not rendered is an
  emergency line, which has five fixed fields and none for the request.
\<close>

lemma rendered_fields_named:
  assumes "0 \<le> u" "u < 2 ^ 128" "ca_server_request_id C = Some (VStr True (request_id_text u))"
  shows "map_of (redact_sensitive_fields R C (final_pass R P C rec processed ev)) (lit ''request_id'')
    = Some (SStr (request_id_text u))"
  using map_of_redact [OF _ final_pass_request_id [OF assms(3)]] request_id_trusted [OF assms(1,2), of R] by simp

definition rendered_fields ::
  "pyrt \<Rightarrow> pipeline \<Rightarrow> call \<Rightarrow> nat option \<Rightarrow> (prepared \<Rightarrow> (pyval dict \<times> bool) option) \<Rightarrow> log_record \<Rightarrow> safe dict option" where
  "rendered_fields R P C produced layout rec =
     (case with_sanitized_arguments R C produced rec of
        Inl failure \<Rightarrow> None
      | Inr p \<Rightarrow> map_option (\<lambda>(ev, processed). redact_sensitive_fields R C
          (final_pass R P C (case p of EventRecord r \<Rightarrow> r | MessageRecord r _ _ \<Rightarrow> r) processed ev)) (layout p))"

lemma format_record_rendered:
  "rendered_fields R P C produced layout rec = Some fs \<Longrightarrow> render fs = Some l
    \<Longrightarrow> format_record R P C produced layout render rec =
      (if MAX_RENDERED_EVENT_LENGTH < length l
       then emergency_line R rec (lit ''log_record_oversized'') (lit ''OversizedLogRecord'') else l)"
  by (auto simp: rendered_fields_def format_record_def Let_def split: sum.splits)

lemma format_record_emergency:
  assumes "\<nexists>fs l. rendered_fields R P C produced layout rec = Some fs \<and> render fs = Some l
    \<and> length l \<le> MAX_RENDERED_EVENT_LENGTH"
  shows "\<exists>event error_type. format_record R P C produced layout render rec = emergency_line R rec event error_type"
proof (cases "with_sanitized_arguments R C produced rec")
  case (Inl failure)
  then show ?thesis by (cases failure) (auto simp: format_record_def)
next
  case (Inr p)
  show ?thesis
  proof (cases "layout p")
    case None
    with Inr show ?thesis by (auto simp: format_record_def Let_def)
  next
    case (Some e)
    with Inr obtain fs where fs: "rendered_fields R P C produced layout rec = Some fs"
      by (simp add: rendered_fields_def)
    show ?thesis
    proof (cases "render fs")
      case None
      with Inr Some fs show ?thesis by (auto simp: format_record_def rendered_fields_def Let_def split_beta)
    next
      case (Some l)
      with assms fs have "MAX_RENDERED_EVENT_LENGTH < length l" by (auto simp: not_le [symmetric])
      with format_record_rendered [OF fs, where render = render and l = l] Some show ?thesis by auto
    qed
  qed
qed

text \<open>
  C13: The response and the log lines of a request name it alike: for every reading of the clock
  and all random bits, the text of the generated identifier, 36 characters long, is what the
  header of every response has, whatever the application answers. The fields that any record
  of the request is rendered from have this text, and never the mark of an untrusted
  identifier, under \<open>request_id\<close>, whatever the record and its event hold; and the line the
  handler writes is their rendering whenever there is one of at most the maximal length. The
  lines it writes otherwise are emergency lines, which have five fixed fields and do not name
  the request.
\<close>

theorem request_correlated:
  assumes "generate_uuid7 time_ns random_bits = Some u"
    and "ca_server_request_id C = Some (VStr True (request_id_text u))"
  shows "length (request_id_text u) = 36
    \<and> list_all (\<lambda>m. case m of message.Start _ h \<Rightarrow> h REQUEST_ID_HEADER = Some (request_id_text u) | Chunk _ \<Rightarrow> True)
        (fst (create_app settings True (request_id_text u) policy outer routes))
    \<and> (case rendered_fields R P C produced layout rec of None \<Rightarrow> True
        | Some fs \<Rightarrow> map_of fs (lit ''request_id'') = Some (SStr (request_id_text u)))
    \<and> (if \<exists>fs l. rendered_fields R P C produced layout rec = Some fs \<and> render fs = Some l
           \<and> length l \<le> MAX_RENDERED_EVENT_LENGTH
       then \<exists>fs. rendered_fields R P C produced layout rec = Some fs
           \<and> render fs = Some (format_record R P C produced layout render rec)
       else \<exists>event error_type. format_record R P C produced layout render rec = emergency_line R rec event error_type)"
proof (intro conjI)
  have u: "0 \<le> u" "u < 2 ^ 128"
    using assms(1) by (auto simp: generate_uuid7_def Let_def uuid_of_int_def push_bit_eq_mult split: if_splits)
  show "length (request_id_text u) = 36" by (rule request_id_shape [OF u])
  have header: "case with_request_id i m of message.Start _ h \<Rightarrow> h REQUEST_ID_HEADER = Some i | Chunk _ \<Rightarrow> True" for i m
    by (cases m) simp_all
  show "list_all (\<lambda>m. case m of message.Start _ h \<Rightarrow> h REQUEST_ID_HEADER = Some (request_id_text u) | Chunk _ \<Rightarrow> True)
      (fst (create_app settings True (request_id_text u) policy outer routes))"
    using header by (auto simp: create_app_def correlation_id_def list_all_iff split: prod.split)
  show "case rendered_fields R P C produced layout rec of None \<Rightarrow> True
      | Some fs \<Rightarrow> map_of fs (lit ''request_id'') = Some (SStr (request_id_text u))"
    using rendered_fields_named [OF u assms(2)]
    by (auto simp: rendered_fields_def split: sum.split option.split)
  show "if \<exists>fs l. rendered_fields R P C produced layout rec = Some fs \<and> render fs = Some l
        \<and> length l \<le> MAX_RENDERED_EVENT_LENGTH
      then \<exists>fs. rendered_fields R P C produced layout rec = Some fs
        \<and> render fs = Some (format_record R P C produced layout render rec)
      else \<exists>event error_type. format_record R P C produced layout render rec = emergency_line R rec event error_type"
    (is "if ?rendered then _ else _")
  proof (cases ?rendered)
    case True
    then obtain fs l where fs: "rendered_fields R P C produced layout rec = Some fs" "render fs = Some l"
      "\<not> MAX_RENDERED_EVENT_LENGTH < length l" by auto
    with format_record_rendered [OF fs(1), where render = render and l = l] True show ?thesis by auto
  next
    case False
    show ?thesis unfolding if_not_P [OF False] by (rule format_record_emergency [OF False])
  qed
qed

theorem request_correlated_witness:
  "\<exists>u. generate_uuid7 1700000000000000000 5 = Some u
    \<and> (\<forall>R P C rec produced layout. case rendered_fields R P (C\<lparr>ca_server_request_id := Some (VStr True (request_id_text u))\<rparr>)
          produced layout rec of None \<Rightarrow> True
        | Some fs \<Rightarrow> map_of fs (lit ''request_id'') = Some (SStr (request_id_text u)))"
proof -
  obtain u where u: "generate_uuid7 1700000000000000000 5 = Some u"
    using uuid7_value [of 5 1700000000000000000] by simp
  have "case rendered_fields R P (C\<lparr>ca_server_request_id := Some (VStr True (request_id_text u))\<rparr>) produced layout rec of
      None \<Rightarrow> True | Some fs \<Rightarrow> map_of fs (lit ''request_id'') = Some (SStr (request_id_text u))"
    for R P C rec produced layout
    using request_correlated [OF u, of "C\<lparr>ca_server_request_id := Some (VStr True (request_id_text u))\<rparr>"] by simp
  with u show ?thesis by blast
qed

end
