(* ===== verification/Tooling.thy ===== *)
theory Tooling
  imports RedactionPatterns Resources
begin

text \<open>
  \<open>scripts/check_repository.py\<close> and \<open>scripts/verify.py\<close>: the repository guards and the runner of
  all gates. What git prints, which paths are files with which text, and how a gate's process
  ends are the input; printed lines are constructors.
\<close>

section \<open>Text helpers\<close>

definition is_line_break :: "pychar \<Rightarrow> bool" where
  "is_line_break c \<longleftrightarrow> c \<in> {10, 11, 12, 13, 28, 29, 30, 133, 8232, 8233}"

text \<open>\<open>str.splitlines()\<close>: CR LF is one break, and a final break starts no line.\<close>

fun split_lines_from :: "pystr \<Rightarrow> pystr \<Rightarrow> pystr list" where
  "split_lines_from line [] = (if line = [] then [] else [line])"
| "split_lines_from line [c] = (if is_line_break c then [line] else [line @ [c]])"
| "split_lines_from line (c # d # t) =
     (if c = c_cr \<and> d = c_nl then line # split_lines_from [] t
      else if is_line_break c then line # split_lines_from [] (d # t)
      else split_lines_from (line @ [c]) (d # t))"

definition split_lines :: "pystr \<Rightarrow> pystr list" where
  "split_lines t = split_lines_from [] t"

text \<open>\<open>Path(p).suffix\<close>: of the last component that is neither empty nor a dot.\<close>

definition path_name :: "pystr \<Rightarrow> pystr" where
  "path_name p = (case filter (\<lambda>s. s \<noteq> [] \<and> s \<noteq> [c_dot]) (py_split p [c_slash]) of [] \<Rightarrow> [] | parts \<Rightarrow> last parts)"

definition path_suffix :: "pystr \<Rightarrow> pystr" where
  "path_suffix p =
     (let name = path_name p in
      case py_rfind name [c_dot] 0 (length name) of
        None \<Rightarrow> [] | Some i \<Rightarrow> if 0 < i \<and> i < length name - 1 then drop i name else [])"

section \<open>Patterns\<close>

definition FORBIDDEN_FILE_NAMES :: rx where
  "FORBIDDEN_FILE_NAMES = rx_seq [RxAlt RxStart (rx_ch c_slash), rx_lit (lit ''.env''),
     rx_opt (RxSeq (rx_ch c_dot) (rx_star (RxSet (\<lambda>c. c \<noteq> c_slash)))), RxEnd]"

definition ALLOWED_ENV_TEMPLATES :: rx where
  "ALLOWED_ENV_TEMPLATES = rx_seq [RxAlt RxStart (rx_ch c_slash), rx_lit (lit ''.env''),
     rx_opt (RxSeq (rx_ch c_dot) (rx_plus (RxSet is_alower))), rx_lit (lit ''.example''), RxEnd]"

definition PRIVATE_KEY :: rx where
  "PRIVATE_KEY = rx_seq [rx_lit (lit ''-----BEGIN ''), rx_star (RxSet (\<lambda>c. is_aupper c \<or> c = c_space)),
     rx_lit (lit ''PRIVATE KEY-----'')]"

definition TOKEN_PATTERNS :: "pyrt \<Rightarrow> rx list" where
  "TOKEN_PATTERNS R =
     (let b = RxWordBound (is_word R) in
      [rx_seq [b, rx_lit (lit ''AKIA''), rx_rep (RxSet (\<lambda>c. is_adigit c \<or> is_aupper c)) 16 16, b],
       rx_seq [b, rx_lit (lit ''gh''), RxSet (\<lambda>c. c \<in> set (lit ''pousr'')), rx_ch c_under,
         RxRep True (RxSet is_aalnum) 36 None, b],
       rx_seq [b, rx_lit (lit ''xox''), RxSet (\<lambda>c. c \<in> set (lit ''abprs'')), rx_ch c_dash,
         RxRep True (RxSet (\<lambda>c. is_aalnum c \<or> c = c_dash)) 10 None, b],
       rx_seq [b, rx_lit (lit ''sk-''), RxRep True (RxSet (\<lambda>c. is_aalnum c \<or> c = c_under \<or> c = c_dash)) 32 None, b]])"

text \<open>Group 1 is the password.\<close>

definition URL_PASSWORD :: rx where
  "URL_PASSWORD = rx_seq
     [RxSet ci_alpha, rx_star (RxSet (\<lambda>c. ci_alpha c \<or> is_adigit c \<or> c \<in> {c_plus, c_dot, c_dash})), rx_lit (lit ''://''),
      rx_star (RxSet (\<lambda>c. \<not> is_space c \<and> c \<notin> {c_slash, c_colon, c_at, c_squote, c_dquote})), rx_ch c_colon,
      RxGroup 1 (rx_plus (RxSet (\<lambda>c. \<not> is_space c \<and> c \<notin> {c_at, c_slash, c_squote, c_dquote}))), rx_ch c_at]"

definition PLACEHOLDER :: rx where
  "PLACEHOLDER = rx_seq
     [RxStart,
      rx_alts
        [rx_seq [rx_ch c_lbrace, rx_star (RxSet (\<lambda>c. c \<noteq> c_rbrace)), rx_ch c_rbrace],
         rx_seq [rx_ch 36, rx_ch c_lbrace, rx_star (RxSet (\<lambda>c. c \<noteq> c_rbrace)), rx_ch c_rbrace],
         rx_seq [rx_ch c_lt, rx_star (RxSet (\<lambda>c. c \<noteq> c_gt)), rx_ch c_gt],
         rx_plus (rx_ch c_star), rx_ilit (lit ''p''), rx_ilit (lit ''pw''), rx_ilit (lit ''password''),
         RxSeq (rx_ilit (lit ''change-me'')) (rx_star (RxSet (\<lambda>c. ci_alpha c \<or> is_adigit c \<or> c = c_dash))),
         RxSeq (rx_ilit (lit ''wrong-'')) (rx_star (RxSet (\<lambda>c. c \<noteq> c_nl)))],
      RxEnd]"

definition SCANNED_SUFFIXES :: "pystr list" where
  "SCANNED_SUFFIXES = map lit
     ['''', ''.cfg'', ''.dockerfile'', ''.example'', ''.ini'', ''.json'', ''.lock'', ''.md'', ''.py'', ''.sh'', ''.toml'',
      ''.txt'', ''.yaml'', ''.yml'']"

section \<open>The guards\<close>

datatype guard_problem =
    PrivateKeyAt pystr nat
  | TokenAt pystr nat
  | UrlPasswordAt pystr nat
  | EnvironmentFile pystr
  | FrozenDocumentChanged pystr

definition line_secrets :: "pyrt \<Rightarrow> pystr \<Rightarrow> nat \<Rightarrow> pystr \<Rightarrow> guard_problem list" where
  "line_secrets R path number line =
     (if rx_found PRIVATE_KEY line then [PrivateKeyAt path number] else [])
     @ map (\<lambda>_. TokenAt path number) (filter (\<lambda>p. rx_found p line) (TOKEN_PATTERNS R))
     @ map (\<lambda>_. UrlPasswordAt path number)
         (filter (\<lambda>m. rx_at PLACEHOLDER (the (rx_group line m 1)) 0 = None) (rx_iterate URL_PASSWORD line 0))"

definition find_secrets :: "pyrt \<Rightarrow> pystr \<Rightarrow> pystr \<Rightarrow> guard_problem list" where
  "find_secrets R path t = concat (map (\<lambda>(n, line). line_secrets R path n line) (enumerate 1 (split_lines t)))"

definition is_forbidden_file :: "pystr \<Rightarrow> bool" where
  "is_forbidden_file path \<longleftrightarrow> rx_found FORBIDDEN_FILE_NAMES path \<and> \<not> rx_found ALLOWED_ENV_TEMPLATES path"

definition forbidden_files :: "pystr list \<Rightarrow> guard_problem list" where
  "forbidden_files paths = map EnvironmentFile (filter is_forbidden_file paths)"

text \<open>A working copy: the lines of the two git commands (\<open>None\<close> when git fails), and its files.\<close>

record working_copy =
  wc_status :: "pystr list option"
  wc_listed :: "pystr list option"
  wc_file :: "pystr \<Rightarrow> pystr option"

definition check_frozen_documents :: "working_copy \<Rightarrow> guard_problem list option" where
  "check_frozen_documents W = map_option (map (\<lambda>line. FrozenDocumentChanged (py_strip line))) (wc_status W)"

definition candidates :: "pystr list \<Rightarrow> pystr list" where
  "candidates listed = filter (\<lambda>p. \<not> starts_at p (lit ''docs/'') 0) listed"

definition scanned_problems :: "pyrt \<Rightarrow> working_copy \<Rightarrow> pystr \<Rightarrow> guard_problem list" where
  "scanned_problems R W path =
     (if py_lower R (path_suffix path) \<notin> set SCANNED_SUFFIXES then []
      else case wc_file W path of None \<Rightarrow> [] | Some t \<Rightarrow> find_secrets R path t)"

definition check_secrets :: "pyrt \<Rightarrow> working_copy \<Rightarrow> guard_problem list option" where
  "check_secrets R W =
     map_option (\<lambda>listed. forbidden_files (candidates listed) @ concat (map (scanned_problems R W) (candidates listed)))
       (wc_listed W)"

text \<open>The exit code; a failing git ends the process with the message as its status, which is 1.\<close>

definition check_repository :: "pyrt \<Rightarrow> working_copy \<Rightarrow> int \<times> guard_problem list" where
  "check_repository R W =
     (case (check_frozen_documents W, check_secrets R W) of
        (Some changed, Some secrets) \<Rightarrow>
          (let problems = changed @ secrets in (if problems \<noteq> [] then 1 else 0, problems))
      | _ \<Rightarrow> (1, []))"

section \<open>The runner\<close>

definition GATES :: "pystr list" where
  "GATES = map lit [''format-check'', ''lint'', ''type-check'', ''migration-graph'', ''repository-guards'', ''unit-tests'',
     ''integration-and-smoke-tests'']"

definition verify_all :: "(pystr \<Rightarrow> int) \<Rightarrow> int \<times> (pystr \<times> int) list" where
  "verify_all returncode =
     (let results = map (\<lambda>name. (name, returncode name)) GATES;
          failed = filter (\<lambda>(name, code). code \<noteq> 0) results
      in (if failed \<noteq> [] then 1 else 0, results))"

lemma environment_file_examples:
  "is_forbidden_file (lit ''infra/.env.local'')" "\<not> is_forbidden_file (lit ''infra/.env.example'')"
  "\<not> is_forbidden_file (lit ''a.env'')"
  by code_simp+

section \<open>What the guards mean\<close>

lemma find_secrets_Nil:
  "find_secrets R path t = [] \<longleftrightarrow> (\<forall>n<length (split_lines t). line_secrets R path (Suc n) (split_lines t ! n) = [])"
proof -
  have "find_secrets R path t = [] \<longleftrightarrow> (\<forall>x\<in>set (enumerate 1 (split_lines t)). line_secrets R path (fst x) (snd x) = [])"
    by (simp add: find_secrets_def case_prod_unfold)
  then show ?thesis by (simp add: all_set_conv_all_nth nth_enumerate_eq)
qed

text \<open>A line without a secret, as the patterns define one.\<close>

definition clean_line :: "pyrt \<Rightarrow> pystr \<Rightarrow> bool" where
  "clean_line R line \<longleftrightarrow> \<not> rx_found PRIVATE_KEY line \<and> (\<forall>p\<in>set (TOKEN_PATTERNS R). \<not> rx_found p line)
     \<and> (\<forall>m\<in>set (rx_iterate URL_PASSWORD line 0). rx_at PLACEHOLDER (the (rx_group line m 1)) 0 \<noteq> None)"

lemma line_secrets_Nil: "line_secrets R path n line = [] \<longleftrightarrow> clean_line R line"
  by (auto simp: line_secrets_def clean_line_def filter_empty_conv)

definition clean_path :: "pyrt \<Rightarrow> working_copy \<Rightarrow> pystr \<Rightarrow> bool" where
  "clean_path R W p \<longleftrightarrow> \<not> is_forbidden_file p \<and>
     (case wc_file W p of
        None \<Rightarrow> True
      | Some t \<Rightarrow> py_lower R (path_suffix p) \<in> set SCANNED_SUFFIXES \<longrightarrow> list_all (clean_line R) (split_lines t))"

text \<open>
  The guards pass exactly when git answered, no frozen document differs, and every listed
  path outside \<open>docs/\<close> is no environment file and, if it is a file with a scanned suffix, has no
  line with a key, a token or a password in a URL.
\<close>

theorem check_repository_passes_iff:
  "fst (check_repository R W) = 0 \<longleftrightarrow>
     wc_status W = Some [] \<and> (\<exists>listed. wc_listed W = Some listed \<and> list_all (clean_path R W) (candidates listed))"
proof -
  have scan: "clean_path R W p \<longleftrightarrow> \<not> is_forbidden_file p \<and> scanned_problems R W p = []" for p
    by (auto simp: clean_path_def scanned_problems_def find_secrets_Nil line_secrets_Nil list_all_length split: option.split)
  show ?thesis
    by (cases "wc_status W"; cases "wc_listed W")
      (auto simp: check_repository_def check_frozen_documents_def check_secrets_def Let_def scan forbidden_files_def
        list_all_iff filter_empty_conv)
qed

text \<open>Every gate runs, in order, and the runner fails when one does.\<close>

lemma verify_all_passes_iff:
  "fst (verify_all returncode) = 0 \<longleftrightarrow> (\<forall>name\<in>set GATES. returncode name = 0)"
  "map fst (snd (verify_all returncode)) = GATES"
  by (auto simp: verify_all_def Let_def filter_empty_conv comp_def)

end
