(* ===== verification/JsonRoundtrip.thy ===== *)
theory JsonRoundtrip
  imports Scrub
begin

text \<open>
  Reading back what \<open>dumps\<close> wrote. The scrubber replaces a JSON document inside a text by the
  rendering of its sanitised content; these lemmas show that the rendering is a document
  again, wherever in a text it stands, with exactly that content: strings, numbers, words and
  containers one by one, then what the sanitiser makes of a decoded value (its integers are
  short, its keys distinct, its nesting bounded, its floats the decoder's own), then the loop
  that sets the fragments aside.
\<close>

section \<open>Positions\<close>

text \<open>What stands at a position, said of the rest of the text.\<close>

lemma at_Cons: "drop i s = c # r \<Longrightarrow> i < length s \<and> s ! i = c \<and> drop (Suc i) s = r"
  by (metis Cons_nth_drop_Suc drop_all linorder_not_le list.discI list.inject)

lemma at_append: "drop i s = x @ r \<Longrightarrow> drop (i + length x) s = r"
  by (metis add.commute append_eq_conv_conj drop_drop)

lemma at_Cons2: "drop i s = c # d # r \<Longrightarrow> i < length s \<and> s ! i = c \<and> Suc i < length s \<and> s ! Suc i = d \<and> drop (Suc (Suc i)) s = r"
  using at_Cons [of i s c "d # r"] at_Cons [of "Suc i" s d r] by simp

lemma char_is_at: "drop i s = d # r \<Longrightarrow> char_is s i c \<longleftrightarrow> c = d"
  using at_Cons by (fastforce simp: char_is_def)

lemma starts_at_drop: "i < length s \<Longrightarrow> starts_at s p i \<longleftrightarrow> take (length p) (drop i s) = p"
  by (simp add: starts_at_def)

lemma slice_same [simp]: "slice s i i = []"
  by (simp add: slice_def)

lemma no_space_here: "drop i s = c # r \<Longrightarrow> \<not> json_space c \<Longrightarrow> run_end json_space s i = i"
  by (simp add: run_end_def)

lemma one_space_here: "drop i s = c_space # c # r \<Longrightarrow> \<not> json_space c \<Longrightarrow> run_end json_space s i = Suc i"
  by (simp add: run_end_def json_space_def)

section \<open>Strings\<close>

lemma scan_plain:
  assumes "drop i s = c # r" "plain_json_char c"
  shows "scan_string s start i =
    (case scan_string s start (Suc i) of Inl e \<Rightarrow> Inl e | Inr (w, j) \<Rightarrow> Inr (c # w, j))"
proof -
  note at = at_Cons [OF assms(1)]
  have n: "run_end plain_json_char s i = run_end plain_json_char s (Suc i)"
    using at assms(2) by (intro run_end_step) simp_all
  have sl: "slice s i (run_end plain_json_char s (Suc i)) = c # slice s (Suc i) (run_end plain_json_char s (Suc i))"
    using run_end_ge [of "Suc i" plain_json_char s] at assms(1)
    by (simp add: slice_def Suc_diff_le take_Cons' del: run_end_ge)
  show ?thesis
    unfolding scan_string.simps [of s start i] scan_string.simps [of s start "Suc i"] Let_def n sl
    by (simp split: option.split sum.split prod.split)
qed

lemma scan_quote:
  assumes "drop i s = c_dquote # r"
  shows "scan_string s start i = Inr ([], Suc i)"
proof -
  have "run_end plain_json_char s i = i" using assms by (simp add: run_end_def plain_json_char_def)
  with at_Cons [OF assms] show ?thesis
    by (subst scan_string.simps) (simp add: Let_def slice_def)
qed

lemma scan_simple_escape:
  assumes "drop i s = c_backslash # d # r" "simple_json_escape d = Some c"
  shows "scan_string s start i =
    (case scan_string s start (Suc (Suc i)) of Inl e \<Rightarrow> Inl e | Inr (w, j) \<Rightarrow> Inr (c # w, j))"
proof -
  have "run_end plain_json_char s i = i" using assms(1) by (simp add: run_end_def plain_json_char_def)
  moreover have "d \<noteq> 117" using assms(2) by (auto simp: simple_json_escape_def)
  ultimately show ?thesis
    using at_Cons2 [OF assms(1)] assms(2)
    by (subst scan_string.simps) (simp add: Let_def split: sum.split)
qed

lemma hex4_control:
  assumes "c < 32"
  shows "list_all is_hex (hex4 c) \<and> hex_value (hex4 c) = c"
proof -
  have "c div 4096 = 0" "c div 256 = 0" "c div 16 = 0 \<or> c div 16 = 1" "16 * (c div 16) + c mod 16 = c"
    using assms by (linarith, linarith, linarith, simp add: mult.commute)
  moreover have "c mod 16 < 16" by simp
  ultimately show ?thesis by (auto simp: hex4_def hex_value_def hex_val_def is_hex_def is_adigit_def)
qed

lemma scan_control_escape:
  assumes "drop i s = c_backslash # 117 # hex4 c @ r" "c < 32" "r \<noteq> []"
  shows "scan_string s start i =
    (case scan_string s start (i + 6) of Inl e \<Rightarrow> Inl e | Inr (w, j) \<Rightarrow> Inr (c # w, j))"
proof -
  have n: "run_end plain_json_char s i = i" using assms(1) by (simp add: run_end_def plain_json_char_def)
  note at = at_Cons2 [OF assms(1)]
  have len: "i + 6 < length s"
    using arg_cong [OF assms(1), of length] assms(3) by (cases r) auto
  have "slice s (i + 2) (i + 6) = hex4 c" using at by (simp add: slice_def)
  then have "json_unicode_escape s i = Inr (c, i + 6)"
    using len hex4_control [OF assms(2)] assms(2)
    by (simp add: json_unicode_escape_def Let_def is_high_surrogate_def)
  then show ?thesis
    using n at
    by (subst scan_string.simps) (simp add: Let_def split: sum.split)
qed

lemma scan_escaped:
  assumes "drop i s = json_escape c @ r" "r \<noteq> []"
  shows "scan_string s start i =
    (case scan_string s start (i + length (json_escape c)) of Inl e \<Rightarrow> Inl e | Inr (w, j) \<Rightarrow> Inr (c # w, j))"
proof -
  consider (plain) "plain_json_char c" | (simple) "c \<in> {c_dquote, c_backslash, 10, 13, 9, 8, 12}"
    | (control) "c < 32" "c \<notin> {10, 13, 9, 8, 12}"
    by (cases "c < 32") (auto simp: plain_json_char_def)
  then show ?thesis
  proof cases
    case plain
    then have "json_escape c = [c]" by (auto simp: json_escape_def plain_json_char_def)
    with plain assms(1) scan_plain [of i s c r start] show ?thesis by simp
  next
    case simple
    then obtain d where "json_escape c = [c_backslash, d]" "simple_json_escape d = Some c"
      by (auto simp: json_escape_def simple_json_escape_def)
    with assms(1) scan_simple_escape [of i s d r c start] show ?thesis by simp
  next
    case control
    then have "json_escape c = c_backslash # 117 # hex4 c" by (auto simp: json_escape_def)
    with control assms scan_control_escape [of i s c r start] show ?thesis by simp
  qed
qed

lemma scan_string_dumped:
  "drop i s = concat (map json_escape w) @ c_dquote # r \<Longrightarrow>
     scan_string s start i = Inr (w, i + length (concat (map json_escape w)) + 1)"
proof (induction w arbitrary: i)
  case Nil
  then show ?case using scan_quote [of i s r] by simp
next
  case (Cons c w)
  from Cons.prems have here: "drop i s = json_escape c @ concat (map json_escape w) @ c_dquote # r" by simp
  from Cons.IH [OF at_append [OF here]] scan_escaped [OF here, of start] show ?case by (simp add: add.assoc)
qed

section \<open>Numbers and words\<close>

text \<open>What may follow a value: nothing that continues a number.\<close>

definition ends_number :: "pystr \<Rightarrow> bool" where
  "ends_number r \<longleftrightarrow> r = [] \<or> \<not> (is_adigit (hd r) \<or> hd r = c_dot \<or> hd r = 101 \<or> hd r = 69)"

lemma digits_all: "list_all is_adigit (dec_digits n)"
  using dec_digits_digits [of n] by (auto simp: list_all_iff is_adigit_def)

lemma dec_digits_head: "0 < n \<Longrightarrow> hd (dec_digits n) \<noteq> 48"
proof (induction n rule: dec_digits.induct)
  case (1 n)
  then show ?case by (cases "n < 10") (simp_all add: dec_digits.simps [of n])
qed

lemma digits_run:
  assumes "drop j s = ds @ r" "list_all is_adigit ds" "ends_number r"
  shows "run_end is_adigit s j = j + length ds"
proof -
  have "takeWhile is_adigit (ds @ r) = ds"
    using assms(2,3) by (cases r) (auto simp: ends_number_def list_all_iff takeWhile_append2)
  with assms(1) show ?thesis by (simp add: run_end_def)
qed

lemma number_end_digits:
  assumes "drop j s = dec_digits n @ r" "ends_number r"
  shows "number_end s j = Some (j + length (dec_digits n))"
proof -
  obtain c ds where ds: "dec_digits n = c # ds" using dec_digits_nonempty [of n] by (cases "dec_digits n") simp_all
  from assms(1) have at: "j < length s" "s ! j = c" "drop (Suc j) s = ds @ r"
    using at_Cons [of j s c "ds @ r"] ds by simp_all
  have digits: "is_adigit c" "list_all is_adigit ds" using digits_all [of n] ds by simp_all
  show ?thesis
  proof (cases "c = 48")
    case True
    then have "n = 0" using dec_digits_head [of n] ds by (cases "n = 0") simp_all
    then have "ds = []" using ds by (simp add: dec_digits.simps [of 0])
    with True at ds show ?thesis by (simp add: number_end_def)
  next
    case False
    with at digits ds digits_run [OF at(3) digits(2) assms(2)] show ?thesis by (simp add: number_end_def)
  qed
qed

lemma no_fraction: "drop k s = r \<Longrightarrow> ends_number r \<Longrightarrow> fraction_end s k = k \<and> exponent_end s k = k"
  by (cases r) (auto simp: fraction_end_def exponent_end_def ends_number_def dest: at_Cons)

lemma signed_value_str: "signed_value (py_str_int n) = n"
proof -
  have "take 1 (dec_digits m) \<noteq> [c_dash]" for m
    using digits_all [of m] by (cases "dec_digits m") (auto simp: is_adigit_def)
  then show ?thesis by (simp add: py_str_int_def signed_value_def)
qed

lemma match_int:
  assumes "drop i s = py_str_int n @ r" "ends_number r" "length (dec_digits (nat (abs n))) \<le> MAX_INT_DIGITS"
  shows "match_number R s i = Inr (VInt n, i + length (py_str_int n))"
proof -
  define j where "j = (if n < 0 then Suc i else i)"
  have spelt: "py_str_int n = (if n < 0 then [c_dash] else []) @ dec_digits (nat (abs n))"
    by (simp add: py_str_int_def)
  obtain c ds where ds: "dec_digits (nat (abs n)) = c # ds" "c \<noteq> c_dash"
    using digits_all [of "nat (abs n)"] dec_digits_nonempty [of "nat (abs n)"]
    by (cases "dec_digits (nat (abs n))") (auto simp: is_adigit_def)
  have sign: "char_is s i c_dash \<longleftrightarrow> n < 0"
  proof (cases "n < 0")
    case True
    with assms(1) spelt have "drop i s = c_dash # dec_digits (nat (abs n)) @ r" by simp
    with char_is_at [OF this, of c_dash] True show ?thesis by simp
  next
    case False
    with assms(1) spelt ds have "drop i s = c # ds @ r" by simp
    with char_is_at [OF this, of c_dash] ds(2) False show ?thesis by simp
  qed
  have digits: "drop j s = dec_digits (nat (abs n)) @ r"
    using assms(1) spelt at_Cons [of i s c_dash] by (cases "n < 0") (simp_all add: j_def)
  let ?k = "j + length (dec_digits (nat (abs n)))"
  note k = number_end_digits [OF digits assms(2)]
  note e = no_fraction [OF at_append [OF digits] assms(2)]
  have "slice s i ?k = py_str_int n"
    using assms(1) spelt by (cases "n < 0") (simp_all add: slice_def j_def)
  moreover have "?k = i + length (py_str_int n)" by (simp add: spelt j_def)
  moreover have start: "(if char_is s i c_dash then i + 1 else i) = j" by (simp add: sign j_def)
  ultimately show ?thesis
    using k e assms(3) signed_value_str [of n] unfolding match_number_def Let_def start by simp
qed

lemma word_here: "drop i s = p @ r \<Longrightarrow> p \<noteq> [] \<Longrightarrow> starts_at s p i"
  by (cases "i < length s") (simp_all add: starts_at_def)

lemma other_word: "drop i s = c # r \<Longrightarrow> p \<noteq> [] \<Longrightarrow> hd p \<noteq> c \<Longrightarrow> \<not> starts_at s p i"
  by (cases p) (auto simp: starts_at_def)

section \<open>Floats\<close>

text \<open>A text that is a float's \<open>repr\<close>: the decoder reads it whole and renders it again alike.\<close>

definition float_text :: "pyrt \<Rightarrow> pystr \<Rightarrow> bool" where
  "float_text R r \<longleftrightarrow> match_number R r 0 = Inr (VFloat r, length r)"

lemma takeWhile_tail: "q = [] \<or> \<not> P (hd q) \<Longrightarrow> takeWhile P (x @ q) = takeWhile P x"
  by (induction x) (cases q; simp)+

lemma run_local:
  assumes "drop i s = r @ q" "ends_number q" "m \<le> length r"
  shows "run_end is_adigit s (i + m) = i + run_end is_adigit r m"
proof -
  have "drop (i + m) s = drop m r @ q"
    using at_append [of i s "take m r" "drop m r @ q"] assms(1,3) by simp
  moreover have "takeWhile is_adigit (drop m r @ q) = takeWhile is_adigit (drop m r)"
    using assms(2) by (intro takeWhile_tail) (auto simp: ends_number_def)
  ultimately show ?thesis by (simp add: run_end_def)
qed

lemma nth_local:
  assumes "drop i s = r @ q" "m < length r"
  shows "i + m < length s \<and> s ! (i + m) = r ! m"
proof -
  have m: "m < length (drop i s)" using assms by simp
  have "s ! (i + m) = drop i s ! m" using m by simp
  also have "\<dots> = r ! m" using assms by (simp only: nth_append if_True)
  finally show ?thesis using m by simp
qed

lemma next_local:
  assumes "drop i s = r @ q"
  shows "i + length r < length s \<longleftrightarrow> q \<noteq> []" "q \<noteq> [] \<Longrightarrow> s ! (i + length r) = hd q"
proof -
  have "drop (i + length r) s = q" using at_append [OF assms] .
  then show "i + length r < length s \<longleftrightarrow> q \<noteq> []" "q \<noteq> [] \<Longrightarrow> s ! (i + length r) = hd q"
    by (auto simp: hd_drop_conv_nth)
qed

lemma number_end_local:
  assumes "drop i s = r @ q" "ends_number q" "m < length r"
  shows "number_end s (i + m) = map_option ((+) i) (number_end r m)"
  using nth_local [OF assms(1,3)] run_local [OF assms(1,2), of "Suc m"] assms(3)
  by (auto simp: number_end_def)

lemma fraction_end_local:
  assumes "drop i s = r @ q" "ends_number q" "k \<le> length r"
  shows "fraction_end s (i + k) = i + fraction_end r k"
proof -
  consider "k = length r" | "Suc k = length r" | "Suc k < length r" using assms(3) by linarith
  then show ?thesis
  proof cases
    case 1
    then show ?thesis
      using next_local [OF assms(1)] assms(2) by (auto simp: fraction_end_def ends_number_def)
  next
    case 2
    then have after: "i + k + 1 = i + length r" by simp
    have "\<not> (i + k + 1 < length s \<and> is_adigit (s ! (i + k + 1)))"
      unfolding after using next_local [OF assms(1)] assms(2) by (auto simp: ends_number_def)
    with 2 show ?thesis by (auto simp: fraction_end_def)
  next
    case 3
    then show ?thesis
      using nth_local [OF assms(1), of k] nth_local [OF assms(1), of "Suc k"] run_local [OF assms(1,2), of "k + 2"]
      by (simp add: fraction_end_def)
  qed
qed

text \<open>An exponent that is read to the very end of the text.\<close>

lemma exponent_end_local:
  assumes "drop i s = r @ q" "ends_number q" "k \<le> length r" "exponent_end r k = length r"
  shows "exponent_end s (i + k) = i + length r"
proof (cases "k = length r")
  case True
  then show ?thesis
    using next_local [OF assms(1)] assms(2) by (auto simp: exponent_end_def ends_number_def)
next
  case False
  define x where "x = (if k + 2 < length r \<and> (r ! (k + 1) = c_dash \<or> r ! (k + 1) = c_plus) then k + 2 else k + 1)"
  define y where "y = run_end is_adigit r x"
  from False assms(4) have e: "k + 1 < length r \<and> (r ! k = 101 \<or> r ! k = 69)"
    by (auto simp: exponent_end_def split: if_splits)
  then have "exponent_end r k = (if is_adigit (r ! (y - 1)) then y else k)"
    by (simp add: exponent_end_def Let_def x_def y_def)
  with False assms(4) e have r: "k + 1 < length r" "r ! k = 101 \<or> r ! k = 69" "is_adigit (r ! (y - 1))" "y = length r"
    by (simp_all split: if_splits)
  have x: "x \<le> length r" "k + 1 \<le> x" using r(1) by (auto simp: x_def)
  have sign: "\<not> (k + 2 = length r \<and> (r ! (k + 1) = c_dash \<or> r ! (k + 1) = c_plus))"
  proof
    assume a: "k + 2 = length r \<and> (r ! (k + 1) = c_dash \<or> r ! (k + 1) = c_plus)"
    then have "y - 1 = k + 1" using r(4) by linarith
    with a r(3) show False by (auto simp: is_adigit_def)
  qed
  have "(if i + k + 2 < length s \<and> (s ! (i + k + 1) = c_dash \<or> s ! (i + k + 1) = c_plus) then i + k + 2 else i + k + 1) = i + x"
    using sign r(1) nth_local [OF assms(1), of "k + 1"] nth_local [OF assms(1), of "k + 2"] by (auto simp: x_def)
  moreover have "run_end is_adigit s (i + x) = i + y" using run_local [OF assms(1,2) x(1)] by (simp add: y_def)
  moreover have "s ! (i + y - 1) = r ! (y - 1)"
    using nth_local [OF assms(1), of "y - 1"] r(1,4) by simp
  ultimately show ?thesis
    using r nth_local [OF assms(1), of k] nth_local [OF assms(1), of "k + 1"]
    by (simp add: exponent_end_def Let_def)
qed

lemma match_float:
  assumes "drop i s = r @ q" "ends_number q" "float_text R r"
  shows "match_number R s i = Inr (VFloat r, i + length r)"
proof -
  define j where "j = (if char_is r 0 c_dash then 1 else 0 :: nat)"
  from assms(3) obtain k where k: "number_end r j = Some k" and e: "exponent_end r (fraction_end r k) = length r"
    "exponent_end r (fraction_end r k) \<noteq> k" "rt_float R r = r"
    by (auto simp: float_text_def match_number_def Let_def j_def split: option.splits if_splits)
  have j: "j < length r" using k by (auto simp: number_end_def split: if_splits)
  then have sign: "char_is s i c_dash \<longleftrightarrow> char_is r 0 c_dash"
    using nth_local [OF assms(1), of 0] by (auto simp: char_is_def j_def split: if_splits)
  note kr = number_end_bounds [OF k] fraction_end_bounds [of k r]
  have "number_end s (i + j) = Some (i + k)" using number_end_local [OF assms(1,2) j] k by simp
  moreover have "exponent_end s (fraction_end s (i + k)) = i + length r"
    using exponent_end_local [OF assms(1,2) _ e(1)] fraction_end_local [OF assms(1,2), of k] kr by simp
  moreover have "slice s i (i + length r) = r" using assms(1) by (simp add: slice_def)
  moreover have "(if char_is s i c_dash then i + 1 else i) = i + j" by (simp add: sign j_def)
  ultimately show ?thesis using e by (simp add: match_number_def Let_def)
qed

section \<open>Values\<close>

text \<open>A value that ends with a quote or a bracket, so that anything may follow it.\<close>

fun closed :: "safe \<Rightarrow> bool" where
  "closed (SStr t) \<longleftrightarrow> True"
| "closed (SList vs) \<longleftrightarrow> True"
| "closed (SDict d) \<longleftrightarrow> True"
| "closed _ \<longleftrightarrow> False"

text \<open>The decoder's value with the content of a sanitised one.\<close>

fun content :: "safe \<Rightarrow> pyval" where
  "content SNone = VNone"
| "content (SBool b) = VBool b"
| "content (SInt n) = VInt n"
| "content (SFloat r) = VFloat r"
| "content (SStr t) = VStr True t"
| "content (SList vs) = VList (map content vs)"
| "content (SDict d) = VDict (map (\<lambda>(k, v). (k, content v)) d)"

text \<open>
  What can be read back: nesting the interpreter allows, integers it converts, floats that are
  written by \<open>repr\<close>, and keys that occur once.
\<close>

fun readable :: "pyrt \<Rightarrow> nat \<Rightarrow> safe \<Rightarrow> bool" where
  "readable R room (SInt n) \<longleftrightarrow> length (dec_digits (nat (abs n))) \<le> MAX_INT_DIGITS"
| "readable R room (SFloat r) \<longleftrightarrow> special_float r \<or> float_text R r"
| "readable R 0 (SList vs) \<longleftrightarrow> False"
| "readable R 0 (SDict d) \<longleftrightarrow> False"
| "readable R (Suc room) (SList vs) \<longleftrightarrow> (\<forall>v \<in> set vs. readable R room v)"
| "readable R (Suc room) (SDict d) \<longleftrightarrow> distinct (map fst d) \<and> (\<forall>kv \<in> set d. readable R room (snd kv))"
| "readable R room _ \<longleftrightarrow> True"

lemma dumps_simps [simp]:
  "dumps SNone = lit ''null''" "dumps (SBool b) = (if b then lit ''true'' else lit ''false'')"
  "dumps (SInt n) = py_str_int n" "dumps (SFloat r) = dumps_float r" "dumps (SStr t) = dumps_string t"
  "dumps (SList vs) = c_lbrack # py_join (lit '', '') (map dumps vs) @ [c_rbrack]"
  "dumps (SDict d) = c_lbrace # py_join (lit '', '') (map (\<lambda>(k, v). dumps_string k @ lit '': '' @ dumps v) d) @ [c_rbrace]"
  by (simp_all add: dumps_def)

text \<open>The first character of a value.\<close>

definition starts_number :: "pystr \<Rightarrow> bool" where
  "starts_number r \<longleftrightarrow> (case r of
     [] \<Rightarrow> False | [c] \<Rightarrow> is_adigit c | c # d # _ \<Rightarrow> is_adigit c \<or> (c = c_dash \<and> is_adigit d))"

lemma str_int_starts: "starts_number (py_str_int n)"
  using digits_all [of "nat (- n)"] digits_all [of "nat n"]
    dec_digits_nonempty [of "nat (- n)"] dec_digits_nonempty [of "nat n"]
  by (cases "dec_digits (nat (- n))"; cases "dec_digits (nat n)")
    (auto simp: starts_number_def py_str_int_def split: list.split)

lemma float_text_starts: "float_text R r \<Longrightarrow> starts_number r"
  by (cases r; cases "tl r")
    (auto simp: starts_number_def float_text_def match_number_def number_end_def char_is_def Let_def is_adigit_def
      split: if_splits option.splits)

definition value_start :: "pychar \<Rightarrow> bool" where
  "value_start c \<longleftrightarrow> \<not> json_space c \<and> c \<noteq> c_rbrack \<and> c \<noteq> c_rbrace"

lemma number_start: "starts_number r \<Longrightarrow> \<exists>c t. r = c # t \<and> value_start c"
  by (auto simp: starts_number_def value_start_def json_space_def is_adigit_def split: list.splits)

lemma number_first: "starts_number r \<Longrightarrow> \<exists>c t. r = c # t \<and> c \<noteq> c_lbrace \<and> c \<noteq> c_lbrack"
  by (auto simp: starts_number_def is_adigit_def split: list.splits)

lemma dumps_start:
  assumes "readable R room v"
  shows "\<exists>c t. dumps v = c # t \<and> value_start c"
proof (cases v)
  case (SFloat r)
  with assms number_start [OF float_text_starts, of R r] show ?thesis
    by (auto simp: dumps_float_def special_float_def lit_eval value_start_def json_space_def)
next
  case (SInt n)
  then show ?thesis using number_start [OF str_int_starts] by simp
qed (auto simp: dumps_string_def lit_eval value_start_def json_space_def)

lemma dumps_first:
  assumes "readable R room v" "\<nexists>vs. v = SList vs" "\<nexists>d. v = SDict d"
  shows "\<exists>c t. dumps v = c # t \<and> c \<noteq> c_lbrace \<and> c \<noteq> c_lbrack"
proof (cases v)
  case (SFloat r)
  with assms number_first [OF float_text_starts, of R r] show ?thesis
    by (auto simp: dumps_float_def special_float_def lit_eval)
next
  case (SInt n)
  then show ?thesis using number_first [OF str_int_starts] by simp
qed (use assms in \<open>auto simp: dumps_string_def lit_eval\<close>)

text \<open>A number is not taken for one of the words.\<close>

lemma scan_number:
  assumes "drop i s = r @ q" "starts_number r"
  shows "scan_scalar R s i = match_number R s i"
proof -
  obtain c t where r: "r = c # t" "is_adigit c \<or> (c = c_dash \<and> t \<noteq> [] \<and> is_adigit (hd t))"
    using assms(2) by (auto simp: starts_number_def split: list.splits)
  have here: "drop i s = c # t @ q" using assms(1) r(1) by simp
  have words: "\<not> starts_at s (lit w) i" if "w \<in> {''null'', ''true'', ''false'', ''NaN'', ''Infinity''}" for w
    using that r(2) by (intro other_word [OF here]) (auto simp: lit_eval is_adigit_def)
  moreover have "\<not> starts_at s (lit ''-Infinity'') i"
    using here r(2) by (cases t) (auto simp: starts_at_def lit_eval is_adigit_def)
  moreover have "\<not> char_is s i c_dquote" using char_is_at [OF here] r(2) by (auto simp: is_adigit_def)
  ultimately show ?thesis by (simp add: scan_scalar_def)
qed

lemma scan_special:
  assumes "drop i s = p @ q"
    "(p, w) \<in> {(lit ''NaN'', lit ''nan''), (lit ''Infinity'', lit ''inf''), (lit ''-Infinity'', lit ''-inf'')}"
  shows "scan_scalar R s i = Inr (VFloat w, i + length p)"
proof -
  from assms(2) obtain c t where p: "p = c # t" "c \<in> {78, 73, c_dash}" by (auto simp: lit_eval)
  with assms(1) have here: "drop i s = c # t @ q" by simp
  have word: "starts_at s p i" using word_here [OF assms(1)] p(1) by simp
  have others: "\<not> starts_at s (lit w') i" if "w' \<in> {''null'', ''true'', ''false''}" for w'
    using that p(2) by (intro other_word [OF here]) (auto simp: lit_eval)
  have quote: "\<not> char_is s i c_dquote" using char_is_at [OF here] p(2) by auto
  have nan: "\<not> starts_at s (lit ''NaN'') i" if "c \<noteq> 78"
    using that by (intro other_word [OF here]) (simp_all add: lit_eval)
  have infinity: "\<not> starts_at s (lit ''Infinity'') i" if "c \<noteq> 73"
    using that by (intro other_word [OF here]) (simp_all add: lit_eval)
  note scan = scan_scalar_def [of R s i] others [of "''null''"] others [of "''true''"] others [of "''false''"] quote
  from assms(2) consider (nan) "p = lit ''NaN''" "w = lit ''nan''" | (inf) "p = lit ''Infinity''" "w = lit ''inf''"
    | (minus) "p = lit ''-Infinity''" "w = lit ''-inf''" by blast
  then show ?thesis
  proof cases
    case nan
    moreover have "length p = 3" using nan by (simp add: lit_eval)
    ultimately show ?thesis using word by (simp add: scan)
  next
    case inf
    moreover have "length p = 8" "c \<noteq> 78" using inf p(1) by (simp_all add: lit_eval)
    ultimately show ?thesis using word nan by (simp add: scan)
  next
    case minus
    moreover have "length p = 9" "c = c_dash" using minus p(1) by (simp_all add: lit_eval)
    ultimately show ?thesis using word nan infinity by (simp add: scan)
  qed
qed

lemma scan_scalar_dumped:
  assumes "drop i s = dumps v @ q" "closed v \<or> ends_number q" "readable R room v" "\<nexists>vs. v = SList vs" "\<nexists>d. v = SDict d"
  shows "scan_scalar R s i = Inr (content v, i + length (dumps v))"
proof (cases v)
  case SNone
  with assms(1) have here: "drop i s = lit ''null'' @ q" by simp
  then have "drop i s = 110 # lit ''ull'' @ q" by (simp add: lit_eval)
  with word_here [OF here] char_is_at [OF this, of c_dquote] SNone show ?thesis
    by (simp add: scan_scalar_def lit_eval)
next
  case (SBool b)
  show ?thesis
  proof (cases b)
    case True
    with assms(1) SBool have here: "drop i s = lit ''true'' @ q" by simp
    then have "drop i s = 116 # lit ''rue'' @ q" by (simp add: lit_eval)
    with word_here [OF here] char_is_at [OF this, of c_dquote] other_word [OF this, of "lit ''null''"] SBool True
    show ?thesis by (simp add: scan_scalar_def lit_eval)
  next
    case False
    with assms(1) SBool have here: "drop i s = lit ''false'' @ q" by simp
    then have "drop i s = 102 # lit ''alse'' @ q" by (simp add: lit_eval)
    with word_here [OF here] char_is_at [OF this, of c_dquote] other_word [OF this, of "lit ''null''"]
      other_word [OF this, of "lit ''true''"] SBool False
    show ?thesis by (simp add: scan_scalar_def lit_eval)
  qed
next
  case (SInt n)
  then have "ends_number q" using assms(2) by simp
  with SInt assms scan_number [OF _ str_int_starts, of i s n q] match_int [of i s n q] show ?thesis by simp
next
  case (SFloat r)
  then have ends: "ends_number q" using assms(2) by simp
  show ?thesis
  proof (cases "special_float r")
    case False
    with assms SFloat have "float_text R r" "drop i s = r @ q" by (auto simp: dumps_float_def special_float_def)
    with SFloat False scan_number [OF _ float_text_starts, of i s r q R] match_float [of i s r q R] ends show ?thesis
      by (auto simp: dumps_float_def special_float_def)
  next
    case True
    obtain p where p: "dumps_float r = p"
      "(p, r) \<in> {(lit ''NaN'', lit ''nan''), (lit ''Infinity'', lit ''inf''), (lit ''-Infinity'', lit ''-inf'')}"
      using True by (auto simp: dumps_float_def special_float_def)
    with assms(1) SFloat have "drop i s = p @ q" by simp
    from scan_special [OF this p(2)] SFloat p(1) show ?thesis by simp
  qed
next
  case (SStr t)
  with assms(1) have here: "drop i s = c_dquote # concat (map json_escape t) @ c_dquote # q"
    by (simp add: dumps_string_def)
  with at_Cons [OF here] scan_string_dumped [of "Suc i" s t q i] char_is_at [OF here] SStr show ?thesis
    by (simp add: scan_scalar_def dumps_string_def)
qed (use assms in auto)

section \<open>Containers\<close>

text \<open>The members of an array and of an object, written one after the other.\<close>

abbreviation dump_items :: "safe list \<Rightarrow> pystr" where
  "dump_items vs \<equiv> py_join (lit '', '') (map dumps vs)"

abbreviation dump_members :: "(pystr \<times> safe) list \<Rightarrow> pystr" where
  "dump_members d \<equiv> py_join (lit '', '') (map (\<lambda>(k, v). dumps_string k @ lit '': '' @ dumps v) d)"

lemma py_join_Cons: "ps \<noteq> [] \<Longrightarrow> py_join sep (p # ps) = p @ sep @ py_join sep ps"
  by (cases ps) simp_all

text \<open>What stands behind a member: the bracket, or a comma, a space and the next one.\<close>

lemma closing_next:
  assumes "drop j s = b # q" "b = c_rbrack \<or> b = c_rbrace"
  shows "run_end json_space s j = j" "char_is s j c \<longleftrightarrow> c = b" "ends_number (b # q)"
  using assms no_space_here [OF assms(1)] char_is_at [OF assms(1), of c]
  by (auto simp: ends_number_def json_space_def is_adigit_def)

lemma comma_next:
  assumes "drop j s = lit '', '' @ c # r" "\<not> json_space c"
  shows "run_end json_space s j = j" "char_is s j b \<longleftrightarrow> b = c_comma" "ends_number (lit '', '' @ c # r)"
    "run_end json_space s (j + 1) = j + 2" "drop (j + 2) s = c # r"
proof -
  have here: "drop j s = c_comma # c_space # c # r" using assms(1) by (simp add: lit_eval)
  note at = at_Cons2 [OF here]
  have behind: "drop (Suc j) s = c_space # c # r" using at_Cons [OF here] by simp
  show "run_end json_space s j = j" using no_space_here [OF here] by (simp add: json_space_def)
  show "char_is s j b \<longleftrightarrow> b = c_comma" by (rule char_is_at [OF here])
  show "ends_number (lit '', '' @ c # r)" by (simp add: ends_number_def lit_eval is_adigit_def)
  show "run_end json_space s (j + 1) = j + 2" using one_space_here [OF behind assms(2)] by simp
  show "drop (j + 2) s = c # r" using at by simp
qed

definition starts_value :: "pystr \<Rightarrow> bool" where
  "starts_value t \<longleftrightarrow> (\<exists>c r. t = c # r \<and> value_start c)"

lemma starts_value_append: "starts_value t \<Longrightarrow> starts_value (t @ r)"
  by (auto simp: starts_value_def)

lemma items_start: "vs \<noteq> [] \<Longrightarrow> \<forall>v \<in> set vs. starts_value (dumps v) \<Longrightarrow> starts_value (dump_items vs)"
  by (cases vs; cases "tl vs") (auto intro: starts_value_append)

lemma members_start: "d \<noteq> [] \<Longrightarrow> \<exists>r. dump_members d = c_dquote # r"
  by (cases d; cases "tl d") (auto simp: dumps_string_def)

lemma scan_array_dumped:
  assumes "vs \<noteq> []" "drop i s = dump_items vs @ c_rbrack # q" "\<forall>v \<in> set vs. starts_value (dumps v)"
    "\<forall>v \<in> set vs. \<forall>i q. drop i s = dumps v @ q \<longrightarrow> ends_number q \<longrightarrow> scan i = Inr (content v, i + length (dumps v))"
  shows "scan_array scan s i = Inr (map content vs, i + length (dump_items vs) + 1)"
  using assms
proof (induction vs arbitrary: i rule: list_nonempty_induct)
  case (single v)
  then have here: "drop i s = dumps v @ c_rbrack # q" by simp
  note after = closing_next [OF at_append [OF here]]
  have "i < length s" using here single by (cases "i < length s") (auto simp: starts_value_def)
  moreover have "scan i = Inr (content v, i + length (dumps v))" using single here after(3) by simp
  ultimately show ?case using after by (subst scan_array.simps) simp
next
  case (cons v vs)
  then have here: "drop i s = dumps v @ lit '', '' @ dump_items vs @ c_rbrack # q" by (simp add: py_join_Cons)
  obtain c r where first: "dump_items vs = c # r" "value_start c"
    using items_start [of vs] cons by (auto simp: starts_value_def)
  have behind: "drop (i + length (dumps v)) s = lit '', '' @ c # r @ c_rbrack # q"
    using at_append [OF here] first by simp
  note after = comma_next [OF behind]
  have space: "\<not> json_space c" using first(2) by (simp add: value_start_def)
  have "i < length s" using here cons.prems(2) by (cases "i < length s") (auto simp: starts_value_def)
  moreover have "scan i = Inr (content v, i + length (dumps v))"
    using cons.prems(3) here first after(3) [OF space] by simp
  moreover have "scan_array scan s (i + length (dumps v) + 2) =
      Inr (map content vs, i + length (dumps v) + 2 + length (dump_items vs) + 1)"
    using cons after(5) [OF space] first by simp
  moreover have "length (lit '', '') = 2" by (simp add: lit_eval)
  ultimately show ?case
    using after(1,2,4) [OF space] cons.hyps by (subst scan_array.simps) (simp add: py_join_Cons)
qed

lemma dict_set_new: "k \<notin> fst ` set d \<Longrightarrow> dict_set d k v = d @ [(k, v)]"
  by (induction d k v rule: dict_set.induct) auto

text \<open>One member of an object, read up to what stands behind it.\<close>

lemma member_read:
  assumes "drop i s = dumps_string k @ lit '': '' @ dumps v @ q" "starts_value (dumps v)"
  defines "j \<equiv> i + length (dumps_string k)"
  shows "char_is s i c_dquote" "scan_string s i (i + 1) = Inr (k, j)" "run_end json_space s j = j"
    "char_is s j c_colon" "run_end json_space s (j + 1) = j + 2" "drop (j + 2) s = dumps v @ q"
proof -
  have here: "drop i s = c_dquote # concat (map json_escape k) @ c_dquote # lit '': '' @ dumps v @ q"
    using assms(1) by (simp add: dumps_string_def)
  show "char_is s i c_dquote" using char_is_at [OF here] by simp
  show "scan_string s i (i + 1) = Inr (k, j)"
    using at_Cons [OF here] scan_string_dumped [of "Suc i" s k "lit '': '' @ dumps v @ q" i]
    by (simp add: j_def dumps_string_def)
  obtain c r where v: "dumps v = c # r" "value_start c" using assms(2) by (auto simp: starts_value_def)
  have colon: "drop j s = c_colon # c_space # c # r @ q"
    using at_append [OF assms(1)] v by (simp add: j_def lit_eval)
  show "run_end json_space s j = j" using no_space_here [OF colon] by (simp add: json_space_def)
  show "char_is s j c_colon" using char_is_at [OF colon] by simp
  show "run_end json_space s (j + 1) = j + 2"
    using at_Cons [OF colon] one_space_here [of "Suc j" s c "r @ q"] v(2) by (simp add: value_start_def)
  show "drop (j + 2) s = dumps v @ q" using at_Cons2 [OF colon] v by simp
qed

lemma scan_object_dumped:
  assumes "d \<noteq> []" "drop i s = dump_members d @ c_rbrace # q" "\<forall>kv \<in> set d. starts_value (dumps (snd kv))"
    "\<forall>kv \<in> set d. \<forall>i q. drop i s = dumps (snd kv) @ q \<longrightarrow> ends_number q
      \<longrightarrow> scan i = Inr (content (snd kv), i + length (dumps (snd kv)))"
    "distinct (map fst members @ map fst d)"
  shows "scan_object scan s members i =
    Inr (members @ map (\<lambda>(k, v). (k, content v)) d, i + length (dump_members d) + 1)"
  using assms
proof (induction d arbitrary: i members rule: list_nonempty_induct)
  case (single kv)
  obtain k v where kv: "kv = (k, v)" by (cases kv)
  with single have here: "drop i s = dumps_string k @ lit '': '' @ dumps v @ c_rbrace # q" by simp
  have start: "starts_value (dumps v)" using single kv by simp
  note m = member_read [OF here start]
  note after = closing_next [OF at_append [OF m(6)]]
  have "scan (i + length (dumps_string k) + 2) = Inr (content v, i + length (dumps_string k) + 2 + length (dumps v))"
    using single kv m(6) after(3) by simp
  moreover have "dict_set members k (content v) = members @ [(k, content v)]"
    using single kv by (intro dict_set_new) auto
  moreover have "length (lit '': '') = 2" by (simp add: lit_eval)
  ultimately show ?case using m after kv by (subst scan_object.simps) (simp add: Let_def)
next
  case (cons kv d)
  obtain k v where kv: "kv = (k, v)" by (cases kv)
  obtain r where first: "dump_members d = c_dquote # r" using members_start [OF cons.hyps] by blast
  have here: "drop i s = dumps_string k @ lit '': '' @ dumps v @ lit '', '' @ dump_members d @ c_rbrace # q"
    using cons.prems(1) cons.hyps kv by (simp add: py_join_Cons)
  have start: "starts_value (dumps v)" using cons.prems(2) kv by simp
  note m = member_read [OF here start]
  let ?l = "i + length (dumps_string k) + 2 + length (dumps v)"
  have behind: "drop ?l s = lit '', '' @ c_dquote # r @ c_rbrace # q" using at_append [OF m(6)] first by simp
  have space: "\<not> json_space c_dquote" by (simp add: json_space_def)
  note after = comma_next [OF behind space]
  have "scan (i + length (dumps_string k) + 2) = Inr (content v, ?l)"
    using cons.prems(3) kv m(6) first after(3) by simp
  moreover have "dict_set members k (content v) = members @ [(k, content v)]"
    using cons.prems(4) kv by (intro dict_set_new) auto
  moreover have "scan_object scan s (members @ [(k, content v)]) (?l + 2) =
      Inr ((members @ [(k, content v)]) @ map (\<lambda>(k, v). (k, content v)) d, ?l + 2 + length (dump_members d) + 1)"
    by (rule cons.IH) (use cons.prems kv after(5) first in auto)
  moreover have "length (lit '': '') = 2" "length (lit '', '') = 2" by (simp_all add: lit_eval)
  ultimately show ?case
    using m after cons.hyps kv by (subst scan_object.simps) (simp add: Let_def py_join_Cons)
qed

section \<open>The round trip\<close>

lemma readable_start: "readable R room v \<Longrightarrow> starts_value (dumps v)"
  using dumps_start by (simp add: starts_value_def)

lemma scan_scalar_once:
  assumes "drop i s = dumps v @ q" "readable R room v" "\<nexists>vs. v = SList vs" "\<nexists>d. v = SDict d"
  shows "scan_once R room s i = scan_scalar R s i"
proof -
  obtain c t where v: "dumps v = c # t" "c \<noteq> c_lbrace" "c \<noteq> c_lbrack"
    using dumps_first [OF assms(2-4)] by blast
  with assms(1) have "drop i s = c # t @ q" by simp
  note char_is_at [OF this]
  with v show ?thesis by (cases room) simp_all
qed

lemma scan_once_dumped:
  "drop i s = dumps v @ q \<Longrightarrow> closed v \<or> ends_number q \<Longrightarrow> readable R room v
    \<Longrightarrow> scan_once R room s i = Inr (content v, i + length (dumps v))"
proof (induction room arbitrary: i v q)
  case 0
  then have v: "\<nexists>vs. v = SList vs" "\<nexists>d. v = SDict d" by auto
  with 0 scan_scalar_dumped [OF 0 v] scan_scalar_once [OF 0(1,3) v] show ?case by simp
next
  case (Suc room)
  show ?case
  proof (cases "(\<exists>vs. v = SList vs) \<or> (\<exists>d. v = SDict d)"; (elim disjE)?)
    assume "\<not> ((\<exists>vs. v = SList vs) \<or> (\<exists>d. v = SDict d))"
    then have v: "\<nexists>vs. v = SList vs" "\<nexists>d. v = SDict d" by blast+
    from scan_scalar_dumped [OF Suc.prems v] scan_scalar_once [OF Suc.prems(1,3) v] show ?case by simp
  next
    assume "\<exists>vs. v = SList vs"
    then obtain vs where v: "v = SList vs" ..
    then have members: "\<forall>v \<in> set vs. readable R room v" using Suc.prems(3) by simp
    from v Suc.prems(1) have here: "drop i s = c_lbrack # dump_items vs @ c_rbrack # q" by simp
    note at = at_Cons [OF here]
    show ?case
    proof (cases "vs = []")
      case True
      then show ?thesis
        using v at closing_next [of "Suc i" s c_rbrack q] char_is_at [OF here] by (simp add: Let_def)
    next
      case False
      have starts: "\<forall>v \<in> set vs. starts_value (dumps v)" using members readable_start by blast
      with items_start [OF False] obtain c r where first: "dump_items vs = c # r" "value_start c"
        unfolding starts_value_def by blast
      then have inside: "drop (Suc i) s = c # r @ c_rbrack # q" using at by simp
      have "run_end json_space s (i + 1) = i + 1" "\<not> char_is s (i + 1) c_rbrack"
        using no_space_here [OF inside] char_is_at [OF inside] first(2) by (auto simp: value_start_def)
      moreover have "scan_array (scan_once R room s) s (i + 1) = Inr (map content vs, i + 1 + length (dump_items vs) + 1)"
        by (rule scan_array_dumped [OF False]) (use at members readable_start Suc.IH in auto)
      ultimately show ?thesis using v char_is_at [OF here] by (simp add: Let_def)
    qed
  next
    assume "\<exists>d. v = SDict d"
    then obtain d where v: "v = SDict d" ..
    then have members: "\<forall>kv \<in> set d. readable R room (snd kv)" "distinct (map fst d)" using Suc.prems(3) by simp_all
    from v Suc.prems(1) have here: "drop i s = c_lbrace # dump_members d @ c_rbrace # q" by simp
    note at = at_Cons [OF here]
    show ?case
    proof (cases "d = []")
      case True
      then show ?thesis
        using v at closing_next [of "Suc i" s c_rbrace q] char_is_at [OF here] by (simp add: Let_def)
    next
      case False
      obtain r where first: "dump_members d = c_dquote # r" using members_start [OF False] by blast
      then have inside: "drop (Suc i) s = c_dquote # r @ c_rbrace # q" using at by simp
      have "run_end json_space s (i + 1) = i + 1" "\<not> char_is s (i + 1) c_rbrace"
        using no_space_here [OF inside] char_is_at [OF inside] by (auto simp: json_space_def)
      moreover have "scan_object (scan_once R room s) s [] (i + 1) =
          Inr ([] @ map (\<lambda>(k, v). (k, content v)) d, i + 1 + length (dump_members d) + 1)"
        by (rule scan_object_dumped [OF False]) (use at members readable_start Suc.IH in auto)
      ultimately show ?thesis using v char_is_at [OF here] by (simp add: Let_def)
    qed
  qed
qed

lemma raw_decode_dumps:
  "drop i s = dumps v @ q \<Longrightarrow> closed v \<or> ends_number q \<Longrightarrow> readable R (rt_recursion R) v
    \<Longrightarrow> raw_decode R s i = Inr (content v, i + length (dumps v))"
  unfolding raw_decode_def by (rule scan_once_dumped)

section \<open>What the sanitiser makes of a decoded value\<close>

text \<open>A promise about the value of a run, when it ends with one.\<close>

definition yields :: "('a \<Rightarrow> bool) \<Rightarrow> 'a run \<Rightarrow> bool" where
  "yields P m \<longleftrightarrow> (\<forall>w b. m = (Some w, b) \<longrightarrow> P w)"

lemma yields_pair [simp]: "yields P (r, b) \<longleftrightarrow> (\<forall>w. r = Some w \<longrightarrow> P w)"
  by (auto simp: yields_def)

lemma yields_and_then:
  assumes "yields P m" "\<And>x b. P x \<Longrightarrow> yields Q (f x b)"
  shows "yields Q (and_then m f)"
  using assms by (cases m; cases "fst m") (auto simp: yields_def and_then_def)

lemma yields_if: "(c \<Longrightarrow> yields P m) \<Longrightarrow> (\<not> c \<Longrightarrow> yields P m') \<Longrightarrow> yields P (if c then m else m')"
  by simp

lemma yields_option: "yields P m \<Longrightarrow> (\<And>x. yields P (f x)) \<Longrightarrow> yields P (case z of None \<Rightarrow> m | Some x \<Rightarrow> f x)"
  by (cases z) simp_all

lemma yields_prod: "(\<And>x y. yields P (f x y)) \<Longrightarrow> yields P (case p of (x, y) \<Rightarrow> f x y)"
  by (cases p) simp

lemma yields_prod_at: "(\<And>x y. yields P (f x y b)) \<Longrightarrow> yields P ((case p of (x, y) \<Rightarrow> f x y) b)"
  by (cases p) simp

lemmas yields_branches = yields_if yields_option yields_prod yields_prod_at

lemma yields_any: "yields (\<lambda>_. True) m"
  by (simp add: yields_def)

fun own_floats :: "pyrt \<Rightarrow> safe \<Rightarrow> bool" where
  "own_floats R (SFloat r) \<longleftrightarrow> own_float R r"
| "own_floats R (SList vs) \<longleftrightarrow> list_all (own_floats R) vs"
| "own_floats R (SDict d) \<longleftrightarrow> list_all (\<lambda>(k, v). own_floats R v) d"
| "own_floats R _ \<longleftrightarrow> True"

lemma text_value_floats: "yields (own_floats R) (text_value X t b)"
  unfolding text_value_def by (rule yields_and_then [OF yields_any]) (simp split: prod.splits)

lemma marker_value_floats: "yields (own_floats R) (marker_value X t b)"
  by (simp add: marker_value_def split: prod.splits)

lemma charged_floats: "own_floats R v \<Longrightarrow> yields (own_floats R) (charged X n v b)"
  by (simp add: charged_def split: prod.splits)

lemma sanitize_value_floats:
  assumes "own_value R v" "\<And>v b. own_value R v \<Longrightarrow> yields (own_floats R) (containers v b)"
  shows "yields (own_floats R) (sanitize_value X containers v b)"
  using assms text_value_floats marker_value_floats charged_floats
  by (cases v) (simp_all add: sanitize_value.simps Let_def)

lemma dict_set_floats:
  "own_floats R v \<Longrightarrow> list_all (\<lambda>(k, v). own_floats R v) d \<Longrightarrow> list_all (\<lambda>(k, v). own_floats R v) (dict_set d k v)"
  by (induction d k v rule: dict_set.induct) auto

lemma entries_loop_floats:
  assumes "\<And>v b. own_value R v \<Longrightarrow> yields (own_floats R) (san v b)" "er_assembled r = []"
  shows "list_all (\<lambda>(k, v). own_floats R v) result \<Longrightarrow> list_all (\<lambda>(k, v). own_value R v) es
    \<Longrightarrow> yields (list_all (\<lambda>(k, v). own_floats R v)) (entries_loop X san assemble r len fails left admitted result es b)"
proof (induction es arbitrary: left admitted result b)
  case Nil
  then show ?case by (cases left) simp_all
next
  case (Cons e es)
  obtain key item where e: "e = (key, item)" by (cases e)
  have own: "own_value R item" using Cons.prems e by simp
  have plain: "\<not> is_named_in key (er_assembled r)" by (simp add: is_named_in_def assms(2) split: pyval.split)
  let ?P = "list_all (\<lambda>(k, v). own_floats R v)"
  note set = dict_set_floats [OF _ Cons.prems(1)]
  have rest: "yields ?P (entries_loop X san assemble r len fails left' adm result' es b')" if "?P result'"
    for left' adm result' b'
    using that Cons by simp
  have later: "yields ?P (and_then (san item b') f)" if "\<And>v b. own_floats R v \<Longrightarrow> yields ?P (f v b)" for f b'
    using that by (rule yields_and_then [OF assms(1) [OF own]])
  have key: "yields ?P (and_then (sanitize_key X key b') f)" if "\<And>k b. yields ?P (f k b)" for f b'
    using that by (rule yields_and_then [OF yields_any])
  show ?case
  proof (cases left)
    case 0
    with Cons.prems e show ?thesis by simp
  next
    case (Suc left')
    show ?thesis
      unfolding Suc e entries_loop.simps if_not_P [OF plain]
      by (intro yields_branches key later rest Cons.prems(1) set) (simp_all add: set)
  qed
qed

lemma items_loop_floats:
  assumes "\<And>v b. own_value R v \<Longrightarrow> yields (own_floats R) (san v b)"
  shows "list_all (own_value R) vs \<Longrightarrow> yields (\<lambda>(ws, note). list_all (own_floats R) ws) (items_loop san len fails index vs b)"
proof (induction vs arbitrary: index b)
  case Nil
  then show ?case by simp
next
  case (Cons v vs)
  have item: "yields (\<lambda>(ws, note). list_all (own_floats R) ws) (and_then (san v b') f)"
    if "\<And>w b. own_floats R w \<Longrightarrow> yields (\<lambda>(ws, note). list_all (own_floats R) ws) (f w b)" for f b'
    using that Cons.prems by (intro yields_and_then [OF assms]) simp_all
  have rest: "yields (\<lambda>(ws, note). list_all (own_floats R) ws)
      (and_then (items_loop san len fails (Suc index) vs b') (\<lambda>(ws, note) b. (Some (w # ws, note), b)))"
    if "own_floats R w" for w b'
    using that Cons by (intro yields_and_then [OF Cons.IH]) auto
  show ?case
    unfolding items_loop.simps by (intro yields_branches item rest) simp_all
qed

lemma sanitize_sequence_floats:
  assumes "\<And>v b. own_value R v \<Longrightarrow> yields (own_floats R) (san v b)" "list_all (own_value R) vs"
  shows "yields (own_floats R) (sanitize_sequence R' san is_set len fails vs b)"
  unfolding sanitize_sequence_def
  by (rule yields_and_then [OF items_loop_floats [OF assms]]) (auto simp: list_all_iff split: option.split)

lemma expand_floats:
  assumes "\<And>v b. own_value R v \<Longrightarrow> yields (own_floats R) (san v b)"
    "list_all (\<lambda>(k, v). own_value R v) es" "list_all (own_value R) vs"
  shows "yields (own_floats R) (expand X san kind len fails es vs b)"
proof -
  have "yields (list_all (\<lambda>(k, v). own_floats R v)) (sanitize_entries X san a plain_rules len fails [] es b)" for a
    unfolding sanitize_entries_def using assms(1,2) by (intro entries_loop_floats) (auto simp: plain_rules_def)
  then have "yields (own_floats R) (and_then (sanitize_entries X san a plain_rules len fails [] es b) (\<lambda>d b. (Some (SDict d), b)))" for a
    by (rule yields_and_then) simp
  then show ?thesis
    unfolding expand_def using sanitize_sequence_floats [OF assms(1,3)] by simp
qed

lemma guarded_floats: "yields (own_floats R) m \<Longrightarrow> yields (own_floats R) (guarded m)"
  by (auto simp: guarded_def yields_def split: prod.splits option.splits)

lemma sanitize_container_floats:
  assumes "own_value R v" "\<And>san v b. deeper = Some san \<Longrightarrow> own_value R v \<Longrightarrow> yields (own_floats R) (san v b)"
  shows "yields (own_floats R) (sanitize_container X deeper v b)"
proof (cases deeper)
  case None
  with assms(1) show ?thesis by (cases v) (simp_all add: sanitize_container_def)
next
  case (Some san)
  note deep = guarded_floats [OF expand_floats [OF assms(2) [OF Some]]]
  have "list_all (\<lambda>(k, w). own_value R w) (map (\<lambda>(k, w). (VStr True k, w)) d)" if "v = VDict d" for d
    using assms(1) that by (auto simp: list_all_iff)
  with assms(1) Some deep show ?thesis by (cases v) (simp_all add: sanitize_container_def Let_def)
qed

lemma sanitize_within_floats: "own_value R v \<Longrightarrow> yields (own_floats R) (sanitize_within X d v b)"
proof (induction d arbitrary: v b)
  case 0
  then show ?case unfolding sanitize_within.simps by (intro sanitize_value_floats sanitize_container_floats) simp_all
next
  case (Suc d)
  show ?case
    unfolding sanitize_within.simps
    by (rule sanitize_value_floats [OF Suc.prems], rule sanitize_container_floats) (use Suc.IH in auto)
qed

lemma sanitize_at_floats: "own_value R v \<Longrightarrow> yields (own_floats R) (sanitize_at X depth v b)"
  unfolding sanitize_at_def by (rule sanitize_within_floats)

section \<open>Every rendering can be read\<close>

text \<open>\<open>float(repr(x)) == x\<close>, and what \<open>repr\<close> writes is a JSON number unless it is one of the words.\<close>

definition repr_reads_back :: "pyrt \<Rightarrow> bool" where
  "repr_reads_back R \<longleftrightarrow> (\<forall>t. special_float (rt_float R t) \<or> float_text R (rt_float R t))"

lemma own_float_readable: "repr_reads_back R \<Longrightarrow> own_float R r \<Longrightarrow> special_float r \<or> float_text R r"
  by (auto simp: own_float_def repr_reads_back_def)

lemma dec_digits_length: "n < 10 ^ k \<Longrightarrow> 0 < k \<Longrightarrow> length (dec_digits n) \<le> k"
proof (induction k arbitrary: n)
  case (Suc k)
  show ?case
  proof (cases "n < 10")
    case True
    then show ?thesis by (simp add: dec_digits.simps [of n])
  next
    case False
    then have "n div 10 < 10 ^ k" "0 < k" using Suc.prems by (auto simp: less_mult_imp_div_less mult.commute intro: ccontr)
    from Suc.IH [OF this] False show ?thesis by (simp add: dec_digits.simps [of n])
  qed
qed simp

lemma bit_count_bound: "n < 2 ^ bit_count n"
proof (induction n rule: bit_count.induct)
  case (1 n)
  then show ?case by (cases "n = 0") (auto simp: bit_count.simps [of n])
qed

lemma bounded_int_digits:
  assumes "bit_length i \<le> MAX_INT_BITS"
  shows "length (dec_digits (nat (abs i))) \<le> MAX_INT_DIGITS"
proof -
  have "nat (abs i) < 2 ^ bit_length i" unfolding bit_length_def by (rule bit_count_bound)
  also have "\<dots> \<le> (2::nat) ^ 128" using assms by (intro power_increasing) (simp_all add: MAX_INT_BITS_def)
  also have "\<dots> < 10 ^ 40" by simp
  finally have "length (dec_digits (nat (abs i))) \<le> 40" by (intro dec_digits_length) simp_all
  then show ?thesis by (simp add: MAX_INT_DIGITS_def)
qed

lemma bounded_readable:
  assumes "repr_reads_back R"
  shows "bounded d v \<Longrightarrow> own_floats R v \<Longrightarrow> readable R d v"
proof (induction d v rule: bounded.induct)
  case (1 d i)
  then show ?case using bounded_int_digits by (cases d) simp_all
next
  case (4 d vs)
  then show ?case by (auto simp: list_all_iff)
next
  case (5 d es)
  then show ?case by (fastforce simp: list_all_iff)
qed (use own_float_readable [OF assms] in \<open>auto split: safe.splits\<close>)

lemma readable_mono: "readable R d v \<Longrightarrow> d \<le> d' \<Longrightarrow> readable R d' v"
proof (induction R d v arbitrary: d' rule: readable.induct)
  case (5 R room vs)
  then show ?case by (cases d') auto
next
  case (6 R room d)
  then show ?case by (cases d') auto
qed (auto elim: readable.elims)

section \<open>Fragments\<close>

lemma expand_closed: "yields closed (expand X san kind len fails es vs b)"
  unfolding expand_def sanitize_sequence_def
  by (intro yields_branches yields_and_then [OF yields_any]) (simp_all split: prod.split)

lemma guarded_closed: "yields closed m \<Longrightarrow> yields closed (guarded m)"
  by (auto simp: guarded_def yields_def split: prod.splits option.splits)

lemma emitted_closed: "yields closed (sanitize_value X containers v b)"
  if "is_nonempty_container v" "\<And>b. yields closed (containers v b)"
  using that by (cases v) (simp_all add: sanitize_value.simps Let_def)

lemma container_closed:
  assumes "is_nonempty_container v"
  shows "yields closed (sanitize_container X deeper v b)"
proof (cases deeper)
  case None
  with assms show ?thesis by (cases v) (simp_all add: sanitize_container_def)
next
  case (Some san)
  with assms guarded_closed [OF expand_closed] show ?thesis
    by (cases v) (simp_all add: sanitize_container_def Let_def)
qed

lemma sanitize_at_closed: "is_nonempty_container v \<Longrightarrow> yields closed (sanitize_at X depth v b)"
  unfolding sanitize_at_def
  by (cases "MAX_DEPTH - depth") (simp_all add: emitted_closed container_closed)

text \<open>What the loop collects, for any promise of the JSON sanitiser.\<close>

lemma json_loop_fragments:
  assumes "\<And>v b. own_value R v \<Longrightarrow> is_nonempty_container v \<Longrightarrow> yields (\<lambda>w. P (dumps w)) (f v b)"
  shows "list_all P fragments \<Longrightarrow>
    yields (\<lambda>(rest, fs). list_all P fs) (json_loop R (Some f) t work copied position fragments b)"
proof (induction "length t - position" arbitrary: work copied position fragments b rule: less_induct)
  case less
  let ?Q = "\<lambda>(rest, fs). list_all P fs"
  show ?case
  proof (cases "find_in is_json_opener t position (length t)")
    case None
    with less.prems show ?thesis by (simp add: json_loop.simps)
  next
    case start: (Some start)
    note ahead = find_in_advances [OF start, of "start + 1"]
    have later: "yields ?Q (json_loop R (Some f) t work' copied' j fragments' b)"
      if "list_all P fragments'" "start + 1 \<le> j" for work' copied' j fragments' b
      using less.hyps [OF _ that(1)] that(2) ahead by simp
    have held: "yields ?Q (and_then (f v b) (\<lambda>clean b.
        and_then (json_loop R (Some f) t work' copied' (max e (start + 1)) (fragments @ [dumps clean]) b)
          (\<lambda>(rest, fs) b. (Some (p @ q @ rest, fs), b))))"
      if "own_value R v" "is_nonempty_container v" for v b work' copied' e p q
    proof (rule yields_and_then [OF assms [OF that]])
      fix w b assume "P (dumps w)"
      with less.prems have "list_all P (fragments @ [dumps w])" by simp
      then show "yields ?Q (and_then (json_loop R (Some f) t work' copied' (max e (start + 1)) (fragments @ [dumps w]) b)
          (\<lambda>(rest, fs) b. (Some (p @ q @ rest, fs), b)))"
        by (rule yields_and_then [OF later]) auto
    qed
    show ?thesis
      using less.prems later held raw_decode_own
      unfolding json_loop.simps [of R "Some f" t work copied position fragments b, unfolded start option.case Let_def]
      by (auto split: sum.split)
  qed
qed

abbreviation json_sanitizer_at :: "pyrt \<Rightarrow> nat \<Rightarrow> json_sanitizer" where
  "json_sanitizer_at R k \<equiv> sanitize_at (json_ctx R (scrub_within R k)) 0"

lemma sanitized_readable:
  assumes "repr_reads_back R" "own_value R v"
  shows "yields (\<lambda>w. bounded MAX_DEPTH w \<and> readable R MAX_DEPTH w) (json_sanitizer_at R k v b)"
  using json_level.sanitize_at_good [where R = R and k = k and b = b and depth = 0 and v = v] sanitize_at_floats [OF assms(2)] bounded_readable [OF assms(1)]
  by (fastforce simp: good_def yields_def)

lemma held_fragments:
  assumes "repr_reads_back R" "hold_json R (Some (json_sanitizer_at R k)) t b = (Some (held, fragments), b')" "f \<in> set fragments"
  shows "\<exists>clean. f = dumps clean \<and> bounded MAX_DEPTH clean \<and> readable R MAX_DEPTH clean \<and> closed clean"
proof -
  let ?P = "\<lambda>x. \<exists>clean. x = dumps clean \<and> bounded MAX_DEPTH clean \<and> readable R MAX_DEPTH clean \<and> closed clean"
  have "yields (\<lambda>w. ?P (dumps w)) (json_sanitizer_at R k v b)" if "own_value R v" "is_nonempty_container v" for v b
    using sanitized_readable [OF assms(1) that(1), of k b]
      sanitize_at_closed [OF that(2), of "json_ctx R (scrub_within R k)" 0 b]
    unfolding yields_def by blast
  note json_loop_fragments [where P = ?P, OF this]
  then have "yields (\<lambda>(rest, fs). list_all ?P fs) (hold_json R (Some (json_sanitizer_at R k)) t b)"
    by (simp add: hold_json_def scrub_json_fragments_def)
  with assms(2,3) show ?thesis by (auto simp: yields_def list_all_iff)
qed

section \<open>An example\<close>

text \<open>A runtime whose \<open>repr\<close> keeps the spelling of every JSON number.\<close>

definition spelling_rt :: pyrt where
  "spelling_rt = ascii_runtime\<lparr>rt_float := (\<lambda>t. if float_text ascii_runtime t then t else lit ''0.0'')\<rparr>"

lemma float_text_runtime: "float_text R r \<Longrightarrow> rt_float R' r = r \<Longrightarrow> float_text R' r"
  by (auto simp: float_text_def match_number_def Let_def slice_def split: option.splits if_splits)

lemma spelling_rt_reads_back: "repr_reads_back spelling_rt"
proof -
  have zero: "float_text ascii_runtime (lit ''0.0'')"
    by (simp add: float_text_def match_number_def number_end_def fraction_end_def exponent_end_def run_end_def
      char_is_def slice_def ascii_runtime_def lit_eval)
  have "float_text spelling_rt (rt_float spelling_rt t)" for t
    by (rule float_text_runtime [of ascii_runtime]) (simp_all add: spelling_rt_def zero)
  then show ?thesis by (simp add: repr_reads_back_def)
qed

definition example_text :: pystr where
  "example_text = lit ''a[1.5]''"

lemma example_facts:
  "example_text = [97, 91, 49, 46, 53, 93]"
  "find_in is_json_opener example_text 0 (length example_text) = Some 1"
  "find_in is_json_opener example_text 6 (length example_text) = None"
  "raw_decode spelling_rt example_text 1 = Inr (VList [VFloat (lit ''1.5'')], 6)"
  "dumps (SList [SFloat (lit ''1.5'')]) = lit ''[1.5]''"
proof -
  show t: "example_text = [97, 91, 49, 46, 53, 93]" by (simp add: example_text_def lit_eval)
  show "find_in is_json_opener example_text 0 (length example_text) = Some 1"
    by (simp add: t find_in_def is_json_opener_def upt_rec)
  show "find_in is_json_opener example_text 6 (length example_text) = None"
    by (simp add: t find_in_def)
  show "raw_decode spelling_rt example_text 1 = Inr (VList [VFloat (lit ''1.5'')], 6)"
    by code_simp
  show "dumps (SList [SFloat (lit ''1.5'')]) = lit ''[1.5]''"
    by (simp add: dumps_float_def lit_eval)
qed

lemma example_sanitized:
  "\<exists>b. json_sanitizer_at R k (VList [VFloat (lit ''1.5'')]) new_budget = (Some (SList [SFloat (lit ''1.5'')]), b)"
  by (simp add: sanitize_at_def MAX_DEPTH_def numeral_eq_Suc sanitize_value.simps sanitize_container_def Let_def
      expand_def sanitize_sequence_def guarded_def and_then_def charged_def charge_def new_budget_def exhausted_def
      spend_node_def json_ctx_def lit_eval MAX_ITEMS_def SEPARATOR_COST_def split: prod.split)
    (simp add: MAX_EVENT_NODES_def MAX_EVENT_OUTPUT_def)

lemma example_held: "\<exists>b. hold_json spelling_rt (Some (json_sanitizer_at spelling_rt k)) example_text new_budget =
    (Some (97 # placeholder 0, [lit ''[1.5]'']), b)"
proof -
  obtain b where b: "json_sanitizer_at spelling_rt k (VList [VFloat (lit ''1.5'')]) new_budget = (Some (SList [SFloat (lit ''1.5'')]), b)"
    using example_sanitized by blast
  have o: "list_ex is_json_opener example_text" "\<not> (FRAGMENT_OPEN \<in> set example_text \<or> FRAGMENT_CLOSE \<in> set example_text)" "\<not> json_work example_text \<le> 0"
    by (simp_all add: example_facts(1) is_json_opener_def FRAGMENT_OPEN_def FRAGMENT_CLOSE_def json_work_def)
  have l: "slice example_text 0 1 = [97]" "drop 6 example_text = []"
    by (simp_all add: example_facts(1) slice_def)
  have z: "json_loop spelling_rt san example_text w 6 6 fs b = (Some ([], fs), b)" for san w fs b
    using l by (simp add: json_loop.simps [of _ _ _ _ _ 6] example_facts(3))
  show ?thesis
    using o b l z example_facts(2,4,5)
    by (simp add: hold_json_def scrub_json_fragments_def json_loop.simps [of _ _ _ _ _ 0] and_then_def)
qed

section \<open>The property\<close>

text \<open>
  C27: Every fragment that \<open>_scrub_json_fragments\<close> sets aside is a JSON document whose nesting and
  size are bounded, and wherever it stands in a text, whatever follows it, the decoder reads
  exactly the sanitised value from it and stops at its end. The premises are the law of
  \<open>repr\<close> on floats and an interpreter that allows the sanitiser's own nesting.
\<close>

theorem fragments_read_back:
  assumes "repr_reads_back R" "MAX_DEPTH \<le> rt_recursion R"
    "hold_json R (Some (json_sanitizer_at R k)) t b = (Some (held, fragments), b')"
    "f \<in> set fragments" "drop i s = f @ q"
  shows "\<exists>clean. f = dumps clean \<and> bounded MAX_DEPTH clean \<and> raw_decode R s i = Inr (content clean, i + length f)"
proof -
  from held_fragments [OF assms(1,3,4)] obtain clean where clean: "f = dumps clean" "bounded MAX_DEPTH clean"
    "readable R MAX_DEPTH clean" "closed clean" by blast
  have "readable R (rt_recursion R) clean" by (rule readable_mono [OF clean(3) assms(2)])
  with clean assms(5) raw_decode_dumps [of i s clean q R] show ?thesis by blast
qed

theorem fragments_read_back_witness:
  "\<exists>clean. lit ''[1.5]'' = dumps clean \<and> bounded MAX_DEPTH clean
    \<and> raw_decode spelling_rt (lit ''v=[1.5]7'') 2 = Inr (content clean, 2 + length (lit ''[1.5]''))"
proof -
  obtain b where held: "hold_json spelling_rt (Some (json_sanitizer_at spelling_rt 0)) example_text new_budget =
      (Some (97 # placeholder 0, [lit ''[1.5]'']), b)"
    using example_held by blast
  have room: "MAX_DEPTH \<le> rt_recursion spelling_rt"
    by (simp add: MAX_DEPTH_def spelling_rt_def ascii_runtime_def)
  have here: "drop 2 (lit ''v=[1.5]7'') = lit ''[1.5]'' @ [55]" by (simp add: lit_eval)
  show ?thesis
    by (rule fragments_read_back [OF spelling_rt_reads_back room held _ here]) simp
qed

end
