(* ===== verification/Spec2Isabelle.thy ===== *)
theory Spec2Isabelle
  imports AlembicGenerator LogSecrecy RuntimeFacts DbMigrateFacts ApplicationFacts AlembicEnv WebhookSignature RequestIdentity Tooling JsonRoundtrip
begin

text \<open>
  Verification library of the voice agent backend (Python 3.12). Paths are below \<open>src/\<close>; \<open>va\<close> is
  \<open>backend/voice_agent\<close>, \<open>infra\<close> is \<open>va/platform/infrastructure\<close>, and \<open>alembic\<close> is
  \<open>docs/phase-05-database-design/5K/alembic\<close>.

  \<^bold>\<open>The program.\<close> An HTTP API process (\<open>va/apps/api\<close>) reads typed settings, installs a
  logging pipeline through which every record of every logger passes, and owns one database
  engine and one Redis client for its lifetime. The schema belongs to a frozen package of 112
  SQL files with an Alembic module each; an operator's tool validates that package, upgrades a
  database, and gates a rollout. The process itself never migrates. The core of the program is
  what it refuses to do: to write a secret into a log, to accept a package that is not the frozen
  one, to connect to another target than the validated one, to lose a resource it owns.

  \<^bold>\<open>Foundations.\<close> \<open>Prelude\<close> has the generic list lemmas and string literals; \<open>PyText\<close> has Python
  strings as lists of code points, with the string methods in use and the tables of the runtime
  (\<open>pyrt\<close>) as an argument; \<open>PyRegex\<close> is a backtracking matcher with the semantics of \<open>re\<close> for the
  constructs the program uses, with lemmas on what a match can consist of.

  \<^bold>\<open>Redaction\<close> (\<open>infra/observability/redaction.py\<close>).
  \<open>RedactionPatterns\<close>: every pattern and limit. \<open>Decoding\<close>: \<open>_decode_once\<close>, \<open>_decoded_forms\<close>, the
  classification of keys; a sensitive key stays sensitive however it is escaped. \<open>Spans\<close>:
  \<open>_replace_spans\<close> and its reference, the set of covered positions. \<open>TokenRules\<close>, \<open>UrlRules\<close>,
  \<open>PairRules\<close>, \<open>FreeText\<close>: the text rules, scanners with the \<open>IndexError\<close> they can raise as
  \<open>None\<close>. \<open>JsonCodec\<close>: \<open>raw_decode\<close> and \<open>dumps\<close>. \<open>Sanitize\<close>: the structured sanitiser over a heap
  of containers, so that sharing and cycles are as in the program, with the budget of
  \<open>_Budget\<close> passed along; \<open>SanitizeBounds\<close>: what each step may spend and what its output costs;
  \<open>JsonRoundtrip\<close>: every document set aside reads back as the value it was rendered from.
  \<open>Scrub\<close>: \<open>_scrub\<close> with its layers and views, \<open>scrub_text\<close>, \<open>trusted_identifier\<close>. \<open>Exceptions\<close>:
  descriptions, chains, frames, tracebacks and stacks, and the bounds on every output.
  \<open>Secrecy\<close>: two worlds that differ only under sensitive keys give the same output.

  \<^bold>\<open>Logging\<close> (\<open>infra/observability/logging.py\<close>). \<open>LogFields\<close>: bounded loggers, the merge of
  context variables, tracebacks and stacks of an event. \<open>LogTemplates\<close>: the scan of a percent
  template, against the interpreter's own reading of the directives, written without the scan's
  helpers: what is accepted is bounded, and what is bounded is refused only for a parenthesis in
  a key or a size of more than three digits. \<open>LogPipeline\<close>: both instances of
  \<open>_EventPipeline\<close>, the preparation of arguments, the fail-closed handler, \<open>configure_logging\<close>.
  \<open>LogFacts\<close>: metadata, lengths, field counts. \<open>LogSecrecy\<close>: the whole path of a record, from the
  call to the line, in the locale of two worlds.

  \<^bold>\<open>Infrastructure.\<close> \<open>PlatformErrors\<close> (\<open>va/platform/shared_kernel/errors\<close>): the classes as an order.
  \<open>DbErrors\<close> (\<open>infra/db/errors.py\<close>): the bounded walk along causes and what counts as an outage.
  \<open>Resources\<close> (\<open>infra/db/session.py\<close>, \<open>infra/cache/redis_client.py\<close>): release, probes, the
  transaction scope; the contract of a resource that is released once is the locale
  \<open>managed_resource\<close>, interpreted on both. \<open>Transactions\<close>: when the scope commits and which
  exceptions leave it. \<open>Runtime\<close> (\<open>infra/runtime.py\<close>): \<open>start\<close>, \<open>stop\<close> and the release task as a
  transition system over all interleavings. \<open>RuntimeFacts\<close>: its invariant, the refinement of an
  abstract lifecycle, what becomes of a \<open>stop()\<close> on every path of its release, readiness. \<open>Baseline\<close>
  (\<open>infra/db/schema_baseline.py\<close>): the verification at startup.

  \<^bold>\<open>Migrations.\<close> \<open>MigrationGraph\<close> (\<open>infra/db/migration_graph.py\<close>): reading the modules, the walk
  along the chain (which can fail to return), the digest, the comparison with the frozen
  history. \<open>AlembicRevisions\<close> (\<open>alembic/versions\<close>, \<open>alembic/_frozen_sql.py\<close>, \<open>get_url\<close> of
  \<open>alembic/env.py\<close>): one definition per module. \<open>AlembicEnv\<close> (the rest of \<open>alembic/env.py\<close>): both modes
  as sequences of library calls, and which database they work on. \<open>AlembicPackage\<close>: the
  repository's modules are the frozen chain. \<open>AlembicGenerator\<close> (\<open>alembic/gen_revisions.py\<close>): the text
  the generator writes, which is that of the first 75 modules with a newline more in each.
  \<open>DbMigrate\<close> (\<open>backend/scripts/db_migrate.py\<close>): each command as its result and the sequence of its
  effects; \<open>DbMigrateFacts\<close>: when a command succeeds, and what it may have done.

  \<^bold>\<open>Configuration and API.\<close> \<open>Hosts\<close>, \<open>Settings\<close>, \<open>AppSettings\<close> (\<open>va/platform/config\<close>,
  \<open>va/apps/api/settings.py\<close>, \<open>infra/db/engine.py\<close>): what a setting must satisfy, with \<open>ipaddress\<close> and
  \<open>urlsplit\<close> of the standard library written out; \<open>SettingsFacts\<close>: what accepted settings guarantee.
  \<open>Api\<close> (\<open>va/apps/api\<close>): the catalog, the handlers, the middlewares and their order, on runs of
  messages; \<open>ApiFacts\<close>: one response per failure, correlated, with nothing of the exception.
  \<open>Application\<close> (\<open>va/apps/api/main.py\<close>, \<open>va/apps/api/dependencies\<close>, \<open>va/apps/api/asgi.py\<close>): what
  \<open>create_app\<close> builds, the lifespan as a relation on top of the steps of the runtime, a request
  with its session as one trace of transaction events and messages; \<open>ApplicationFacts\<close>: the process
  serves only with both resources, success is sent after the commit, an outage is a 503.
  \<open>Uuid7\<close> (\<open>va/platform/utils/id_generator.py\<close>); \<open>RequestIdentity\<close>: the generated identifier on its
  way into the response header and the fields that log lines are rendered from (emergency lines
  do not have it); \<open>Tooling\<close> (\<open>backend/scripts/check_repository.py\<close>,
  \<open>backend/scripts/verify.py\<close>).

  \<^bold>\<open>How they interact.\<close> The logging pipeline calls the sanitiser for every field and the
  scrubber for every text. The gate and the startup verification use the frozen baseline; the
  tool's two identities go through the validators of the settings. The runtime owns the
  database, whose transaction scope the baseline verification runs in; readiness is what the
  probes of both resources answer. Errors of these layers are the exceptions the API maps. The
  lifespan drives the runtime, whose database the session of a request comes from.

  \<^bold>\<open>Beside the program.\<close> \<open>WebhookSignature\<close>: the signing contract of webhooks as the script
  \<open>webhook_dual_signature_test.py\<close> among the execution logs writes it, when the script succeeds,
  and what the signature does not cover.

  \<^bold>\<open>Conventions.\<close> An exception is \<open>None\<close>, or the left of a sum where its kind matters; a loop
  that may not return is an \<open>option\<close> of a \<open>partial_function\<close>. Texts of messages that only an
  operator reads are constructors. What a library, a server, the clock or the file system
  answers is an argument.

  \<^bold>\<open>Bounds.\<close> \<open>rt_recursion\<close> and \<open>rt_stack\<close> are the nesting at which the interpreter raises
  \<open>RecursionError\<close>; results hold for every value of them. Recursion of the sanitiser is bounded by
  \<open>MAX_DEPTH\<close>, of the JSON fragments by \<open>MAX_JSON_NESTING\<close>, of the causes by \<open>MAX_CHAIN\<close>; these
  are limits of the source, not fuel. All other recursions have a termination proof, except
  the walk along the migration chain, which is shown to return when the identifiers are distinct,
  and to go on for ever exactly when a circle of predecessors is reached from the only root.

  \<^bold>\<open>Not modelled.\<close> structlog, SQLAlchemy, asyncpg, redis-py, pydantic, Starlette, FastAPI, psycopg
  and Alembic: what they answer is an argument; when FastAPI resumes a dependency and which handler
  Starlette picks is written as they document it. HMAC-SHA256 is an argument. \<open>get_logger\<close>,
  which only calls structlog. Parsing of command lines, printed reports, log calls of the infrastructure. The SQL of the
  migrations and the tests.
\<close>

end
